(* ===== verification/G301_Prelude.thy ===== *)
theory G301_Prelude
  imports Main "HOL-Library.Word" "HOL-Library.Multiset"
begin

text \<open>
  Shared vocabulary of the development: the C integer types, byte strings and the two
  memory functions the provider uses on them, the collections its automation is driven
  by, signed 32-bit arithmetic near the record limit, the ledger of owned resources, and
  the interface \<open>step_invariant\<close> by which every state machine of the development lifts a
  one-step fact to whole runs.
\<close>

named_theorems frame_simps \<open>what an operation leaves unchanged\<close>

text \<open>Projections of a guarded pair, the shape of every early return.\<close>

lemma fst_if [simp]: "fst (if b then x else y) = (if b then fst x else fst y)"
  by simp

lemma snd_if [simp]: "snd (if b then x else y) = (if b then snd x else snd y)"
  by simp

section \<open>C types\<close>

text \<open>
  \<open>unsigned char\<close> is a byte, \<open>size_t\<close> a 64-bit word (the supported targets are LP64)
  and \<open>int\<close> a 32-bit word that is read through \<open>sint\<close>. A C flag (an \<open>int\<close> only ever
  tested against zero) is a \<open>bool\<close>. A pointer that may be NULL is an \<open>option\<close> of what it
  points to.
\<close>

type_synonym byte = "8 word"
type_synonym bytes = "byte list"
type_synonym size = "64 word"
type_synonym cint = "32 word"

abbreviation INT_MAX :: int where
  "INT_MAX \<equiv> 2147483647"

lemma sint_cint_bounds: "- 2147483648 \<le> sint (w :: cint)" "sint (w :: cint) \<le> INT_MAX"
  using sint_range_size [of w] by (simp_all add: word_size)

text \<open>Adding one is exact below \<open>INT_MAX\<close> and wraps to the least value at \<open>INT_MAX\<close>.\<close>

lemma sint_cint_Suc:
  assumes "sint (w :: cint) < INT_MAX"
  shows "sint (w + 1) = sint w + 1"
proof -
  have "sint (w + 1) = signed_take_bit 31 (sint w + 1)"
    by (simp add: sint_word_ariths)
  also have "\<dots> = sint w + 1"
    using assms sint_cint_bounds(1) [of w] by (simp add: signed_take_bit_int_eq_self_iff)
  finally show ?thesis .
qed

lemma sint_cint_wrap: "sint ((2147483647 :: cint) + 1) = - 2147483648"
  by simp

text \<open>Narrowing a length that passed the \<open>INT_MAX\<close> check keeps its value.\<close>

lemma sint_ucast_size:
  assumes "uint (n :: size) \<le> INT_MAX"
  shows "sint (ucast n :: cint) = uint n"
proof -
  have "sint (ucast n :: cint) = signed_take_bit 31 (uint n)"
    by (simp add: sint_uint uint_up_ucast unsigned_ucast_eq signed_take_bit_take_bit)
  also have "\<dots> = uint n"
    using assms order_trans [OF _ uint_ge_0 [of n], of "- 2147483648"]
    by (simp add: signed_take_bit_int_eq_self_iff)
  finally show ?thesis .
qed

section \<open>Byte strings\<close>

text \<open>
  \<open>memcpy(dst, src, n)\<close> replaces the first \<open>n\<close> bytes of \<open>dst\<close>;
  \<open>CRYPTO_memcmp(a, b, n) == 0\<close> compares the first \<open>n\<close> bytes.
\<close>

definition memcpy :: "bytes \<Rightarrow> bytes \<Rightarrow> nat \<Rightarrow> bytes" where
  "memcpy dst src n = take n src @ drop n dst"

definition memeq :: "bytes \<Rightarrow> bytes \<Rightarrow> nat \<Rightarrow> bool" where
  "memeq a b n \<longleftrightarrow> take n a = take n b"

lemma memcpy_length [simp]:
  "n \<le> length src \<Longrightarrow> n \<le> length dst \<Longrightarrow> length (memcpy dst src n) = length dst"
  by (simp add: memcpy_def)

lemma memcpy_whole [simp]:
  "length src = n \<Longrightarrow> length dst = n \<Longrightarrow> memcpy dst src n = src"
  by (simp add: memcpy_def)

lemma memeq_memcpy [simp]: "n \<le> length src \<Longrightarrow> memeq (memcpy dst src n) src n"
  by (simp add: memcpy_def memeq_def)

lemma memeq_whole: "length a = n \<Longrightarrow> length b = n \<Longrightarrow> memeq a b n \<longleftrightarrow> a = b"
  by (simp add: memeq_def)

section \<open>Owned resources\<close>

text \<open>
  What a constructor acquires and a destructor releases, as a multiset: an operation that
  leaks or double-frees changes the multiset it should restore.
\<close>

datatype resource =
    R_outer_ctx
  | R_usage_lock
  | R_inner_ctx
  | R_evp_cipher
  | R_evp_cipher_ctx
  | R_provider_ctx
  | R_child_libctx

type_synonym ledger = "resource multiset"

text \<open>Releasing a pointer that may be NULL: the OpenSSL free functions accept NULL.\<close>

definition release :: "'x option \<Rightarrow> resource \<Rightarrow> ledger \<Rightarrow> ledger" where
  "release p r l = (case p of None \<Rightarrow> l | Some _ \<Rightarrow> l - {#r#})"

definition acquire :: "'x option \<Rightarrow> resource \<Rightarrow> ledger \<Rightarrow> ledger" where
  "acquire p r l = (case p of None \<Rightarrow> l | Some _ \<Rightarrow> add_mset r l)"

lemma release_simps [simp]:
  "release None r l = l"
  "release (Some x) r l = l - {#r#}"
  "acquire None r l = l"
  "acquire (Some x) r l = add_mset r l"
  by (simp_all add: release_def acquire_def)

section \<open>Runs of a state machine\<close>

text \<open>
  A component is a step function from a state and an input to a state. The interface asks
  for an invariant its steps keep; a client gets that runs keep it.
\<close>

fun run_steps :: "('s \<Rightarrow> 'e \<Rightarrow> 's) \<Rightarrow> 's \<Rightarrow> 'e list \<Rightarrow> 's" where
  "run_steps step s [] = s"
| "run_steps step s (e # es) = run_steps step (step s e) es"

lemma run_steps_append:
  "run_steps step s (es @ fs) = run_steps step (run_steps step s es) fs"
  by (induction es arbitrary: s) simp_all

locale step_invariant =
  fixes step :: "'s \<Rightarrow> 'e \<Rightarrow> 's"
    and allowed :: "'e \<Rightarrow> bool"
    and inv :: "'s \<Rightarrow> bool"
  assumes step_inv: "inv s \<Longrightarrow> allowed e \<Longrightarrow> inv (step s e)"
begin

lemma run_inv: "inv s \<Longrightarrow> list_all allowed es \<Longrightarrow> inv (run_steps step s es)"
  by (induction es arbitrary: s) (simp_all add: step_inv)

end

text \<open>
  The same with a quantity that a step changes by at most what it is charged: along a run
  the quantity changes by at most the charges of the run.
\<close>

fun total_charge :: "('s \<Rightarrow> 'e \<Rightarrow> 's) \<Rightarrow> ('s \<Rightarrow> 'e \<Rightarrow> int) \<Rightarrow> 's \<Rightarrow> 'e list \<Rightarrow> int" where
  "total_charge step charge s [] = 0"
| "total_charge step charge s (e # es) = charge s e + total_charge step charge (step s e) es"

locale charged_steps = step_invariant step allowed inv
  for step :: "'s \<Rightarrow> 'e \<Rightarrow> 's" and allowed :: "'e \<Rightarrow> bool" and inv :: "'s \<Rightarrow> bool" +
  fixes rank :: "'s \<Rightarrow> int"
    and charge :: "'s \<Rightarrow> 'e \<Rightarrow> int"
    and same_scope :: "'s \<Rightarrow> 'e \<Rightarrow> bool"
  assumes step_charge:
    "inv s \<Longrightarrow> allowed e \<Longrightarrow> same_scope s e \<Longrightarrow> rank s + charge s e \<le> rank (step s e)"
begin

lemma run_charge:
  assumes "inv s" "list_all allowed es"
    and "\<And>n. n < length es \<Longrightarrow> same_scope (run_steps step s (take n es)) (es ! n)"
  shows "rank s + total_charge step charge s es \<le> rank (run_steps step s es)"
  using assms
proof (induction es arbitrary: s)
  case Nil
  then show ?case by simp
next
  case (Cons e es)
  have "same_scope s e" using Cons.prems(3) [of 0] by simp
  with Cons.prems have "rank s + charge s e \<le> rank (step s e)" by (simp add: step_charge)
  moreover have "rank (step s e) + total_charge step charge (step s e) es
      \<le> rank (run_steps step (step s e) es)"
  proof (rule Cons.IH)
    show "inv (step s e)" "list_all allowed es" using Cons.prems by (simp_all add: step_inv)
    fix n assume "n < length es"
    then show "same_scope (run_steps step (step s e) (take n es)) (es ! n)"
      using Cons.prems(3) [of "Suc n"] by simp
  qed
  ultimately show ?case by simp
qed

end

section \<open>Refinement of an abstract machine\<close>

text \<open>
  What a client sees of a run is the list of its calls with their results. An abstract
  machine is a relation over states, calls and results; \<open>abs_run\<close> are its runs. The
  interface \<open>refinement\<close> asks for the simulation of one step; a client gets that whatever
  it sees of a concrete run is a run of the abstract machine.
\<close>

fun observations :: "('s \<Rightarrow> 'e \<Rightarrow> 's) \<Rightarrow> ('e \<Rightarrow> 'l) \<Rightarrow> ('s \<Rightarrow> 'e \<Rightarrow> bool) \<Rightarrow> 's \<Rightarrow> 'e list
    \<Rightarrow> ('l \<times> bool) list" where
  "observations step label result s [] = []"
| "observations step label result s (e # es) =
     (label e, result s e) # observations step label result (step s e) es"

inductive abs_run :: "('t \<Rightarrow> 'l \<Rightarrow> bool \<Rightarrow> 't \<Rightarrow> bool) \<Rightarrow> 't \<Rightarrow> ('l \<times> bool) list \<Rightarrow> 't \<Rightarrow> bool"
  for astep where
  abs_run_Nil: "abs_run astep t [] t"
| abs_run_Cons: "astep t l r t' \<Longrightarrow> abs_run astep t' ls t'' \<Longrightarrow> abs_run astep t ((l, r) # ls) t''"

inductive_simps abs_run_Nil_iff [simp]: "abs_run astep t [] t'"
inductive_simps abs_run_Cons_iff: "abs_run astep t (x # ls) t'"

lemma abs_run_append:
  "abs_run astep t (ls @ ms) u \<longleftrightarrow> (\<exists>t'. abs_run astep t ls t' \<and> abs_run astep t' ms u)"
  by (induction ls arbitrary: t) (auto simp: abs_run_Cons_iff)

lemma observations_append:
  "observations step label result s (es @ fs) =
     observations step label result s es @ observations step label result (run_steps step s es) fs"
  by (induction es arbitrary: s) simp_all

locale refinement = step_invariant step allowed inv
  for step :: "'s \<Rightarrow> 'e \<Rightarrow> 's" and allowed :: "'e \<Rightarrow> bool" and inv :: "'s \<Rightarrow> bool" +
  fixes label :: "'e \<Rightarrow> 'l"
    and result :: "'s \<Rightarrow> 'e \<Rightarrow> bool"
    and abs :: "'s \<Rightarrow> 't"
    and astep :: "'t \<Rightarrow> 'l \<Rightarrow> bool \<Rightarrow> 't \<Rightarrow> bool"
  assumes step_simulated:
    "inv s \<Longrightarrow> allowed e \<Longrightarrow> astep (abs s) (label e) (result s e) (abs (step s e))"
begin

lemma run_simulated:
  assumes "inv s" "list_all allowed es"
  shows "abs_run astep (abs s) (observations step label result s es) (abs (run_steps step s es))"
  using assms
  by (induction es arbitrary: s) (auto intro: abs_run_Nil abs_run_Cons step_simulated step_inv)

end

end
