(* ===== verification/OSSL_Interface.thy ===== *)
theory OSSL_Interface
  imports G301_Prelude
begin

text \<open>
  What the provider uses of OpenSSL and does not contain itself. OpenSSL's parameter
  structure is a record; the functions of libcrypto the provider calls on it, the thread
  primitives and the core's error callbacks are parameters, and the documented behaviour a
  lemma relies on is a named hypothesis (\<open>params_documented\<close>, \<open>atomic_documented\<close>).
  Nothing here models code of this repository except \<open>G301_INNER_OPS\<close>, the table of
  operations the provider puts between itself and the fetched cipher.
\<close>

section \<open>OSSL_PARAM\<close>

text \<open>
  One element of an \<open>OSSL_PARAM\<close> array. The array's terminator (a NULL key) is the end of
  the list. \<open>data = None\<close> is a NULL data pointer; otherwise it holds the bytes of the
  buffer the pointer refers to, so that a callee writing through it returns a new element.
\<close>

datatype ossl_param_type =
    OSSL_PARAM_INTEGER
  | OSSL_PARAM_UNSIGNED_INTEGER
  | OSSL_PARAM_REAL
  | OSSL_PARAM_UTF8_STRING
  | OSSL_PARAM_OCTET_STRING
  | OSSL_PARAM_UTF8_PTR
  | OSSL_PARAM_OCTET_PTR

record ossl_param =
  key :: string
  data_type :: ossl_param_type
  data :: "bytes option"
  data_size :: size
  return_size :: size

type_synonym ossl_params = "ossl_param list"

text \<open>\<open>OSSL_PARAM_UNMODIFIED\<close> is \<open>(size_t)-1\<close>.\<close>

definition OSSL_PARAM_UNMODIFIED :: size where
  "OSSL_PARAM_UNMODIFIED = - 1"

section \<open>The parameter functions of libcrypto\<close>

text \<open>
  \<open>OSSL_PARAM_locate\<close> returns a pointer into the array, here the index of the element, so
  that the caller can write through it; \<open>OSSL_PARAM_locate_const\<close> is used for reading
  only, here the element. The getters fail or return a value, the setters return their
  result and the element they wrote.
\<close>

record ossl_param_api =
  OSSL_PARAM_locate :: "ossl_params \<Rightarrow> string \<Rightarrow> nat option"
  OSSL_PARAM_locate_const :: "ossl_params \<Rightarrow> string \<Rightarrow> ossl_param option"
  OSSL_PARAM_get_size_t :: "ossl_param \<Rightarrow> size option"
  OSSL_PARAM_set_size_t :: "ossl_param \<Rightarrow> size \<Rightarrow> bool \<times> ossl_param"
  OSSL_PARAM_set_uint :: "ossl_param \<Rightarrow> cint \<Rightarrow> bool \<times> ossl_param"
  OSSL_PARAM_set_int :: "ossl_param \<Rightarrow> cint \<Rightarrow> bool \<times> ossl_param"
  OSSL_PARAM_set_utf8_ptr :: "ossl_param \<Rightarrow> string \<Rightarrow> bool \<times> ossl_param"
  OSSL_PARAM_construct_size_t :: "string \<Rightarrow> size \<Rightarrow> ossl_param"
  OSSL_PARAM_construct_octet_string :: "string \<Rightarrow> bytes option \<Rightarrow> size \<Rightarrow> ossl_param"

text \<open>
  OSSL_PARAM(3), OSSL_PARAM_int(3): locating finds the first element with the key, setting
  keeps an element's key, and the constructors fill in exactly the fields they are given.
\<close>

fun index_of :: "ossl_params \<Rightarrow> string \<Rightarrow> nat option" where
  "index_of [] k = None"
| "index_of (p # ps) k = (if key p = k then Some 0 else map_option Suc (index_of ps k))"

definition params_documented :: "ossl_param_api \<Rightarrow> bool" where
  "params_documented api \<longleftrightarrow>
     (\<forall>ps k. OSSL_PARAM_locate api ps k = index_of ps k)
   \<and> (\<forall>ps k. OSSL_PARAM_locate_const api ps k = List.find (\<lambda>p. key p = k) ps)
   \<and> (\<forall>p v. key (snd (OSSL_PARAM_set_size_t api p v)) = key p)
   \<and> (\<forall>p v. key (snd (OSSL_PARAM_set_uint api p v)) = key p)
   \<and> (\<forall>p v. key (snd (OSSL_PARAM_set_int api p v)) = key p)
   \<and> (\<forall>p v. key (snd (OSSL_PARAM_set_utf8_ptr api p v)) = key p)
   \<and> (\<forall>k v. key (OSSL_PARAM_construct_size_t api k v) = k
          \<and> OSSL_PARAM_get_size_t api (OSSL_PARAM_construct_size_t api k v) = Some v)
   \<and> (\<forall>k d n. OSSL_PARAM_construct_octet_string api k d n =
          \<lparr>key = k, data_type = OSSL_PARAM_OCTET_STRING, data = d, data_size = n,
           return_size = OSSL_PARAM_UNMODIFIED\<rparr>)"

lemma params_documentedD:
  assumes "params_documented api"
  shows "OSSL_PARAM_locate api ps k = index_of ps k"
    and "OSSL_PARAM_locate_const api ps k = List.find (\<lambda>p. key p = k) ps"
    and "key (snd (OSSL_PARAM_set_size_t api p v)) = key p"
    and "key (snd (OSSL_PARAM_set_uint api p w)) = key p"
    and "key (snd (OSSL_PARAM_set_int api p w)) = key p"
    and "key (snd (OSSL_PARAM_set_utf8_ptr api p s)) = key p"
    and "key (OSSL_PARAM_construct_size_t api k v) = k"
    and "OSSL_PARAM_get_size_t api (OSSL_PARAM_construct_size_t api k v) = Some v"
    and "OSSL_PARAM_construct_octet_string api k d n =
          \<lparr>key = k, data_type = OSSL_PARAM_OCTET_STRING, data = d, data_size = n,
           return_size = OSSL_PARAM_UNMODIFIED\<rparr>"
  using assms unfolding params_documented_def by blast+

lemma index_of_find:
  "List.find (\<lambda>p. key p = k) ps = map_option ((!) ps) (index_of ps k)"
  by (induction ps) (auto simp: option.map_comp comp_def)

lemma index_of_Some:
  "index_of ps k = Some i \<Longrightarrow> i < length ps \<and> key (ps ! i) = k"
  by (induction ps arbitrary: i) (auto split: if_splits)

lemma index_of_None: "index_of ps k = None \<longleftrightarrow> (\<forall>p \<in> set ps. key p \<noteq> k)"
  by (induction ps) auto

lemma index_of_update:
  "i < length ps \<Longrightarrow> key p = key (ps ! i) \<Longrightarrow> index_of (ps[i := p]) k = index_of ps k"
  by (induction ps arbitrary: i) (auto split: nat.splits)

section \<open>Thread primitives\<close>

text \<open>
  Whether taking the usage lock succeeds may differ from call to call. Each operation of
  the provider takes the lock at most once in each of two functions, so the environment of
  one operation names the outcome at each. \<open>CRYPTO_atomic_add\<close> fails (\<open>None\<close>, the counter
  unchanged) or returns the value it stored.
\<close>

record crypto_env =
  record_key_write_lock :: bool
  install_key_write_lock :: bool
  CRYPTO_atomic_add :: "cint \<Rightarrow> cint \<Rightarrow> cint option"

text \<open>CRYPTO_THREAD_run_once(3): a successful add stores and returns the sum.\<close>

definition atomic_documented :: "crypto_env \<Rightarrow> bool" where
  "atomic_documented env \<longleftrightarrow>
     (\<forall>v a r. CRYPTO_atomic_add env v a = Some r \<longrightarrow> r = v + a)"

lemma atomic_documentedD:
  "atomic_documented env \<Longrightarrow> CRYPTO_atomic_add env v a = Some r \<Longrightarrow> r = v + a"
  by (simp add: atomic_documented_def)

text \<open>Whether the allocations of one constructor call succeed.\<close>

record alloc_env =
  OPENSSL_zalloc_ok :: bool
  CRYPTO_THREAD_lock_new_ok :: bool

section \<open>The table of inner operations\<close>

text \<open>
  \<open>G301_INNER_OPS\<close> (g301_internal.h): \<open>'a\<close> is what \<open>arg\<close> points to, \<open>'i\<close> the inner
  context. An operation takes the inner context and returns its result and the context
  after it; buffers it writes through pointers are returned as well. \<open>update\<close> gets the
  output buffer (\<open>None\<close> for NULL), the value of \<open>*outl\<close> before the call, the input pointer
  and its length.
\<close>

record ('a, 'i) G301_INNER_OPS =
  newctx :: "'a \<Rightarrow> ledger \<Rightarrow> 'i option \<times> ledger"
  freectx :: "'i option \<Rightarrow> ledger \<Rightarrow> ledger"
  init :: "'i \<Rightarrow> bytes option \<Rightarrow> bytes option \<Rightarrow> bool \<Rightarrow> ossl_params \<Rightarrow> bool \<times> 'i"
  update :: "'i \<Rightarrow> bytes option \<Rightarrow> cint \<Rightarrow> bytes option \<Rightarrow> cint
    \<Rightarrow> bool \<times> 'i \<times> bytes option \<times> cint"
  final :: "'i \<Rightarrow> bytes option \<Rightarrow> cint \<Rightarrow> bool \<times> 'i \<times> bytes option \<times> cint"
  get_params :: "'i \<Rightarrow> ossl_params \<Rightarrow> bool \<times> 'i \<times> ossl_params"
  set_params :: "'i \<Rightarrow> ossl_params \<Rightarrow> bool \<times> 'i"

end
