(* ===== verification/Manifest.thy ===== *)
theory Manifest
  imports G301_Prelude
begin

text \<open>
  The fixed profile data of g301_internal.h and g301_cipher.c: lengths, the 32-byte
  manifest that is prepended to the caller's AAD.
\<close>

section \<open>Fixed lengths\<close>

definition G301_KEY_LENGTH :: size where
  "G301_KEY_LENGTH = 32"

definition G301_IV_LENGTH :: size where
  "G301_IV_LENGTH = 12"

definition G301_TAG_LENGTH :: size where
  "G301_TAG_LENGTH = 16"

definition G301_MANIFEST_LENGTH :: size where
  "G301_MANIFEST_LENGTH = 32"

definition G301_ENCRYPT_RECORD_LIMIT :: "64 word" where
  "G301_ENCRYPT_RECORD_LIMIT = 23680450"

definition G301_WORKING_NAME :: string where
  "G301_WORKING_NAME = ''G301-AES-256-GCM-V1''"

definition G301_PROPERTY_DEFINITION :: string where
  "G301_PROPERTY_DEFINITION = ''provider=g301,fips=no''"

lemmas length_defs =
  G301_KEY_LENGTH_def G301_IV_LENGTH_def G301_TAG_LENGTH_def G301_MANIFEST_LENGTH_def

section \<open>The manifest table\<close>

definition g301_manifest :: bytes where
  "g301_manifest =
    [0x47, 0x33, 0x30, 0x31, 0x2d, 0x54, 0x4c, 0x53,
     0x31, 0x33, 0x2d, 0x41, 0x45, 0x41, 0x44, 0x01,
     0x04, 0x01, 0x01, 0x2d, 0x01, 0x00, 0x63, 0x01,
     0x01, 0x74, 0x01, 0x00, 0xaf, 0x02, 0x03, 0xb3]"

lemma g301_manifest_length [simp]: "length g301_manifest = 32"
  by (simp add: g301_manifest_def)

end
