(* ===== verification/Param_Policy.thy ===== *)
theory Param_Policy
  imports OSSL_Interface Manifest
begin

text \<open>
  The parameter policy of g301_cipher.c: duplicate detection, the denylist of legacy TLS
  parameters, the validation of initialisation parameters and the parameter tables the
  cipher advertises. The lemmas reduce each loop to what it decides about the array as a
  whole, so that the operations can be reasoned about without the loops.
\<close>

section \<open>Parameter names\<close>

text \<open>
  The public names of provider-cipher(7). The last two are spelled by g301_cipher.c
  itself, for OpenSSL versions whose headers lack them.
\<close>

abbreviation OSSL_CIPHER_PARAM_KEYLEN :: string where "OSSL_CIPHER_PARAM_KEYLEN \<equiv> ''keylen''"
abbreviation OSSL_CIPHER_PARAM_IVLEN :: string where "OSSL_CIPHER_PARAM_IVLEN \<equiv> ''ivlen''"
abbreviation OSSL_CIPHER_PARAM_AEAD_TAGLEN :: string where "OSSL_CIPHER_PARAM_AEAD_TAGLEN \<equiv> ''taglen''"
abbreviation OSSL_CIPHER_PARAM_AEAD_TAG :: string where "OSSL_CIPHER_PARAM_AEAD_TAG \<equiv> ''tag''"
abbreviation OSSL_CIPHER_PARAM_MODE :: string where "OSSL_CIPHER_PARAM_MODE \<equiv> ''mode''"
abbreviation OSSL_CIPHER_PARAM_BLOCK_SIZE :: string where "OSSL_CIPHER_PARAM_BLOCK_SIZE \<equiv> ''blocksize''"
abbreviation OSSL_CIPHER_PARAM_AEAD :: string where "OSSL_CIPHER_PARAM_AEAD \<equiv> ''aead''"
abbreviation OSSL_CIPHER_PARAM_CUSTOM_IV :: string where "OSSL_CIPHER_PARAM_CUSTOM_IV \<equiv> ''custom-iv''"

definition G301_CIPHER_PARAM_ENCRYPT_THEN_MAC :: string where
  "G301_CIPHER_PARAM_ENCRYPT_THEN_MAC = ''encrypt-then-mac''"

definition G301_CIPHER_PARAM_PIPELINE_AEAD_TAG :: string where
  "G301_CIPHER_PARAM_PIPELINE_AEAD_TAG = ''pipeline-tag''"

text \<open>The denylist, in the order of the static array.\<close>

definition forbidden :: "string list" where
  "forbidden =
    [''mackey'', ''tlsaad'', ''tlsaadpad'', ''tlsivgen'', ''tlsivfixed'', ''tlsivinv'',
     G301_CIPHER_PARAM_PIPELINE_AEAD_TAG,
     ''tls-multi'', ''tls1multi_aad'', ''tls1multi_aadpacklen'', ''tls1multi_enc'',
     ''tls1multi_encin'', ''tls1multi_enclen'', ''tls1multi_interleave'',
     ''tls1multi_maxbufsz'', ''tls1multi_maxsndfrag'',
     ''tls-version'', ''tls-mac'', ''tls-mac-size'',
     G301_CIPHER_PARAM_ENCRYPT_THEN_MAC]"

section \<open>Duplicates\<close>

text \<open>The loop of \<open>g301_has_duplicate\<close>, with its counter.\<close>

fun has_duplicate_from :: "nat \<Rightarrow> ossl_params \<Rightarrow> string \<Rightarrow> bool" where
  "has_duplicate_from seen [] name = False"
| "has_duplicate_from seen (p # ps) name =
     (if key p = name
      then if Suc seen > 1 then True else has_duplicate_from (Suc seen) ps name
      else has_duplicate_from seen ps name)"

definition g301_has_duplicate :: "ossl_params option \<Rightarrow> string \<Rightarrow> bool" where
  "g301_has_duplicate params name =
     (case params of None \<Rightarrow> False | Some ps \<Rightarrow> has_duplicate_from 0 ps name)"

lemma has_duplicate_from_count:
  "has_duplicate_from c ps name \<longleftrightarrow>
     (0 < length (filter (\<lambda>p. key p = name) ps)
      \<and> 1 < c + length (filter (\<lambda>p. key p = name) ps))"
  by (induction c ps name rule: has_duplicate_from.induct) auto

lemma g301_has_duplicate_Some:
  "g301_has_duplicate (Some ps) name \<longleftrightarrow> 1 < length (filter (\<lambda>p. key p = name) ps)"
  by (auto simp: g301_has_duplicate_def has_duplicate_from_count)

lemma g301_has_duplicate_None [simp]: "\<not> g301_has_duplicate None name"
  by (simp add: g301_has_duplicate_def)

section \<open>The denylist\<close>

fun forbidden_key :: "string \<Rightarrow> string list \<Rightarrow> bool" where
  "forbidden_key k [] = False"
| "forbidden_key k (f # fs) = (if k = f then True else forbidden_key k fs)"

fun forbidden_param_in :: "ossl_params \<Rightarrow> bool" where
  "forbidden_param_in [] = False"
| "forbidden_param_in (p # ps) =
     (if forbidden_key (key p) forbidden then True else forbidden_param_in ps)"

definition g301_has_forbidden_legacy_param :: "ossl_params option \<Rightarrow> bool" where
  "g301_has_forbidden_legacy_param params =
     (case params of None \<Rightarrow> False | Some ps \<Rightarrow> forbidden_param_in ps)"

lemma forbidden_key_iff: "forbidden_key k fs \<longleftrightarrow> k \<in> set fs"
  by (induction fs) auto

lemma forbidden_param_in_iff: "forbidden_param_in ps \<longleftrightarrow> (\<exists>p \<in> set ps. key p \<in> set forbidden)"
  by (induction ps) (auto simp: forbidden_key_iff)

lemma g301_has_forbidden_Some:
  "g301_has_forbidden_legacy_param (Some ps) \<longleftrightarrow> (\<exists>p \<in> set ps. key p \<in> set forbidden)"
  by (simp add: g301_has_forbidden_legacy_param_def forbidden_param_in_iff)

lemma g301_has_forbidden_None [simp]: "\<not> g301_has_forbidden_legacy_param None"
  by (simp add: g301_has_forbidden_legacy_param_def)

text \<open>No parameter the provider handles is on the denylist.\<close>

lemma handled_names_not_forbidden:
  "OSSL_CIPHER_PARAM_KEYLEN \<notin> set forbidden" "OSSL_CIPHER_PARAM_IVLEN \<notin> set forbidden"
  "OSSL_CIPHER_PARAM_AEAD_TAGLEN \<notin> set forbidden" "OSSL_CIPHER_PARAM_AEAD_TAG \<notin> set forbidden"
  by (simp_all add: forbidden_def G301_CIPHER_PARAM_PIPELINE_AEAD_TAG_def
      G301_CIPHER_PARAM_ENCRYPT_THEN_MAC_def)

section \<open>Validation of initialisation parameters\<close>

definition g301_init_params_have_duplicates :: "ossl_params option \<Rightarrow> bool" where
  "g301_init_params_have_duplicates params \<longleftrightarrow>
     g301_has_duplicate params OSSL_CIPHER_PARAM_KEYLEN
   \<or> g301_has_duplicate params OSSL_CIPHER_PARAM_IVLEN
   \<or> g301_has_duplicate params OSSL_CIPHER_PARAM_AEAD_TAGLEN
   \<or> g301_has_duplicate params OSSL_CIPHER_PARAM_AEAD_TAG"

definition g301_get_ctx_params_have_duplicates :: "ossl_params option \<Rightarrow> bool" where
  "g301_get_ctx_params_have_duplicates params \<longleftrightarrow>
     g301_has_duplicate params OSSL_CIPHER_PARAM_KEYLEN
   \<or> g301_has_duplicate params OSSL_CIPHER_PARAM_IVLEN
   \<or> g301_has_duplicate params OSSL_CIPHER_PARAM_AEAD_TAGLEN
   \<or> g301_has_duplicate params OSSL_CIPHER_PARAM_AEAD_TAG"

text \<open>
  \<open>locate_opt\<close> is the guarded call \<open>params == NULL ? NULL : OSSL_PARAM_locate_const(...)\<close>.
  \<open>length_param_bad\<close> is the test the source repeats for the key, IV and tag length: the
  parameter is present, and it does not read as the one permitted size.
\<close>

definition locate_opt :: "ossl_param_api \<Rightarrow> ossl_params option \<Rightarrow> string \<Rightarrow> ossl_param option" where
  "locate_opt api params name =
     (case params of None \<Rightarrow> None | Some ps \<Rightarrow> OSSL_PARAM_locate_const api ps name)"

definition length_param_bad :: "ossl_param_api \<Rightarrow> ossl_params \<Rightarrow> string \<Rightarrow> size \<Rightarrow> bool" where
  "length_param_bad api ps name expected =
     (case OSSL_PARAM_locate_const api ps name of
        None \<Rightarrow> False
      | Some param \<Rightarrow>
          (case OSSL_PARAM_get_size_t api param of
             None \<Rightarrow> True
           | Some v \<Rightarrow> v \<noteq> expected))"

definition tag_param_exact :: "ossl_param \<Rightarrow> bool" where
  "tag_param_exact p \<longleftrightarrow>
     data_type p = OSSL_PARAM_OCTET_STRING \<and> data p \<noteq> None \<and> data_size p = G301_TAG_LENGTH"

text \<open>Returns the result and \<open>*has_tag\<close>.\<close>

definition g301_validate_init_params ::
  "ossl_param_api \<Rightarrow> ossl_params option \<Rightarrow> bool \<Rightarrow> bool \<Rightarrow> bool \<times> bool" where
  "g301_validate_init_params api params encrypt new_record =
     (case params of
        None \<Rightarrow> (True, False)
      | Some ps \<Rightarrow>
          (let tag_param = OSSL_PARAM_locate_const api ps OSSL_CIPHER_PARAM_AEAD_TAG;
               has_tag = (tag_param \<noteq> None) in
           if g301_has_forbidden_legacy_param params \<or> g301_init_params_have_duplicates params
           then (False, has_tag)
           else if length_param_bad api ps OSSL_CIPHER_PARAM_KEYLEN G301_KEY_LENGTH
           then (False, has_tag)
           else if length_param_bad api ps OSSL_CIPHER_PARAM_IVLEN G301_IV_LENGTH
           then (False, has_tag)
           else if length_param_bad api ps OSSL_CIPHER_PARAM_AEAD_TAGLEN G301_TAG_LENGTH
           then (False, has_tag)
           else case tag_param of
             None \<Rightarrow> (True, has_tag)
           | Some tp \<Rightarrow>
               if encrypt \<or> \<not> new_record \<or> \<not> tag_param_exact tp
               then (False, has_tag) else (True, has_tag)))"

lemma validate_init_has_tag:
  "snd (g301_validate_init_params api params encrypt new_record)
     = (locate_opt api params OSSL_CIPHER_PARAM_AEAD_TAG \<noteq> None)"
  by (auto simp: g301_validate_init_params_def locate_opt_def Let_def split: option.splits)

text \<open>A tag is only ever accepted for a new decryption record, and only in full.\<close>

lemma validate_init_tag_ok:
  assumes "g301_validate_init_params api params encrypt new_record = (True, True)"
  shows "\<not> encrypt \<and> new_record
       \<and> (\<exists>tp. locate_opt api params OSSL_CIPHER_PARAM_AEAD_TAG = Some tp \<and> tag_param_exact tp)"
  using assms
  by (auto simp: g301_validate_init_params_def locate_opt_def Let_def
      split: option.splits if_splits)

text \<open>The whole policy as one condition on the array.\<close>

definition sole :: "ossl_params \<Rightarrow> string \<Rightarrow> ossl_param option" where
  "sole ps name = List.find (\<lambda>p. key p = name) ps"

definition init_params_acceptable ::
  "ossl_param_api \<Rightarrow> ossl_params \<Rightarrow> bool \<Rightarrow> bool \<Rightarrow> bool" where
  "init_params_acceptable api ps encrypt new_record \<longleftrightarrow>
     (\<forall>p \<in> set ps. key p \<notin> set forbidden)
   \<and> (\<forall>name \<in> {OSSL_CIPHER_PARAM_KEYLEN, OSSL_CIPHER_PARAM_IVLEN,
               OSSL_CIPHER_PARAM_AEAD_TAGLEN, OSSL_CIPHER_PARAM_AEAD_TAG}.
        length (filter (\<lambda>p. key p = name) ps) \<le> 1)
   \<and> (\<forall>p. sole ps OSSL_CIPHER_PARAM_KEYLEN = Some p
          \<longrightarrow> OSSL_PARAM_get_size_t api p = Some 32)
   \<and> (\<forall>p. sole ps OSSL_CIPHER_PARAM_IVLEN = Some p
          \<longrightarrow> OSSL_PARAM_get_size_t api p = Some 12)
   \<and> (\<forall>p. sole ps OSSL_CIPHER_PARAM_AEAD_TAGLEN = Some p
          \<longrightarrow> OSSL_PARAM_get_size_t api p = Some 16)
   \<and> (\<forall>p. sole ps OSSL_CIPHER_PARAM_AEAD_TAG = Some p
          \<longrightarrow> \<not> encrypt \<and> new_record \<and> tag_param_exact p)"

lemma length_param_bad_iff:
  assumes "params_documented api"
  shows "length_param_bad api ps name n \<longleftrightarrow>
     \<not> (\<forall>p. sole ps name = Some p \<longrightarrow> OSSL_PARAM_get_size_t api p = Some n)"
  using params_documentedD(2) [OF assms]
  by (auto simp: length_param_bad_def sole_def split: option.splits)

lemma validate_init_iff:
  assumes "params_documented api"
  shows "fst (g301_validate_init_params api (Some ps) encrypt new_record)
     \<longleftrightarrow> init_params_acceptable api ps encrypt new_record"
proof -
  have tag: "OSSL_PARAM_locate_const api ps OSSL_CIPHER_PARAM_AEAD_TAG
      = sole ps OSSL_CIPHER_PARAM_AEAD_TAG"
    using params_documentedD(2) [OF assms] by (simp add: sole_def)
  have dup: "g301_init_params_have_duplicates (Some ps) \<longleftrightarrow>
      \<not> (\<forall>name \<in> {OSSL_CIPHER_PARAM_KEYLEN, OSSL_CIPHER_PARAM_IVLEN,
                 OSSL_CIPHER_PARAM_AEAD_TAGLEN, OSSL_CIPHER_PARAM_AEAD_TAG}.
        length (filter (\<lambda>p. key p = name) ps) \<le> 1)"
    by (auto simp: g301_init_params_have_duplicates_def g301_has_duplicate_Some not_le)
  have kl: "length_param_bad api ps OSSL_CIPHER_PARAM_KEYLEN G301_KEY_LENGTH \<longleftrightarrow>
      \<not> (\<forall>p. sole ps OSSL_CIPHER_PARAM_KEYLEN = Some p \<longrightarrow> OSSL_PARAM_get_size_t api p = Some 32)"
    unfolding length_defs by (rule length_param_bad_iff [OF assms])
  have il: "length_param_bad api ps OSSL_CIPHER_PARAM_IVLEN G301_IV_LENGTH \<longleftrightarrow>
      \<not> (\<forall>p. sole ps OSSL_CIPHER_PARAM_IVLEN = Some p \<longrightarrow> OSSL_PARAM_get_size_t api p = Some 12)"
    unfolding length_defs by (rule length_param_bad_iff [OF assms])
  have tl: "length_param_bad api ps OSSL_CIPHER_PARAM_AEAD_TAGLEN G301_TAG_LENGTH \<longleftrightarrow>
      \<not> (\<forall>p. sole ps OSSL_CIPHER_PARAM_AEAD_TAGLEN = Some p \<longrightarrow> OSSL_PARAM_get_size_t api p = Some 16)"
    unfolding length_defs by (rule length_param_bad_iff [OF assms])
  show ?thesis
    unfolding g301_validate_init_params_def init_params_acceptable_def option.case Let_def
      tag dup kl il tl g301_has_forbidden_Some
    by (cases "sole ps OSSL_CIPHER_PARAM_AEAD_TAG") (simp_all, blast+)
qed

section \<open>Advertised parameter tables\<close>

text \<open>
  A table row is a key and a type: the data pointers of the static tables are NULL and
  their sizes are those of the C type, or 0 for an octet string.
\<close>

definition param_row :: "string \<Rightarrow> ossl_param_type \<Rightarrow> size \<Rightarrow> ossl_param" where
  "param_row k t n = \<lparr>key = k, data_type = t, data = None, data_size = n,
     return_size = OSSL_PARAM_UNMODIFIED\<rparr>"

definition g301_gettable_params :: ossl_params where
  "g301_gettable_params =
    [param_row OSSL_CIPHER_PARAM_MODE OSSL_PARAM_UNSIGNED_INTEGER 4,
     param_row OSSL_CIPHER_PARAM_KEYLEN OSSL_PARAM_UNSIGNED_INTEGER 8,
     param_row OSSL_CIPHER_PARAM_IVLEN OSSL_PARAM_UNSIGNED_INTEGER 8,
     param_row OSSL_CIPHER_PARAM_BLOCK_SIZE OSSL_PARAM_UNSIGNED_INTEGER 8,
     param_row OSSL_CIPHER_PARAM_AEAD OSSL_PARAM_INTEGER 4,
     param_row OSSL_CIPHER_PARAM_CUSTOM_IV OSSL_PARAM_INTEGER 4]"

definition g301_gettable_ctx_params :: ossl_params where
  "g301_gettable_ctx_params =
    [param_row OSSL_CIPHER_PARAM_KEYLEN OSSL_PARAM_UNSIGNED_INTEGER 8,
     param_row OSSL_CIPHER_PARAM_IVLEN OSSL_PARAM_UNSIGNED_INTEGER 8,
     param_row OSSL_CIPHER_PARAM_AEAD_TAGLEN OSSL_PARAM_UNSIGNED_INTEGER 8,
     param_row OSSL_CIPHER_PARAM_AEAD_TAG OSSL_PARAM_OCTET_STRING 0]"

definition g301_settable_ctx_params :: ossl_params where
  "g301_settable_ctx_params =
    [param_row OSSL_CIPHER_PARAM_KEYLEN OSSL_PARAM_UNSIGNED_INTEGER 8,
     param_row OSSL_CIPHER_PARAM_IVLEN OSSL_PARAM_UNSIGNED_INTEGER 8,
     param_row OSSL_CIPHER_PARAM_AEAD_TAGLEN OSSL_PARAM_UNSIGNED_INTEGER 8,
     param_row OSSL_CIPHER_PARAM_AEAD_TAG OSSL_PARAM_OCTET_STRING 0]"

definition g301_cipher_gettable_params :: "'p option \<Rightarrow> ossl_params" where
  "g301_cipher_gettable_params provctx = g301_gettable_params"

definition g301_cipher_gettable_ctx_params :: "'c option \<Rightarrow> 'p option \<Rightarrow> ossl_params" where
  "g301_cipher_gettable_ctx_params cctx provctx = g301_gettable_ctx_params"

definition g301_cipher_settable_ctx_params :: "'c option \<Rightarrow> 'p option \<Rightarrow> ossl_params" where
  "g301_cipher_settable_ctx_params cctx provctx = g301_settable_ctx_params"

end
