(* ===== verification/Cipher_State.thy ===== *)
theory Cipher_State
  imports Param_Policy
begin

text \<open>
  The cipher context of g301_cipher.c and the functions that only touch it: error raising,
  invalidation and poisoning of the current record, and the bookkeeping of keys and
  encrypted records. The lemmas are the frames of these functions (what they leave
  unchanged), the arithmetic of the record counter, and the invariants of the context that
  the rest of the development builds on.
\<close>

section \<open>The context\<close>

datatype G301_PHASE =
    G301_PHASE_NO_RECORD
  | G301_PHASE_MANIFEST_PENDING
  | G301_PHASE_ACTIVE
  | G301_PHASE_FINALIZED

text \<open>
  \<open>handle\<close> stands for the error state of the core that the \<open>handle\<close> pointer leads to;
  the three callbacks act on it. The source location that \<open>core_set_error_debug\<close> gets
  and the (always empty) format arguments of \<open>core_vset_error\<close> are diagnostics and are left
  out. \<open>encrypting\<close> is the field \<open>encrypt\<close>. The lock pointer \<open>usage_lock\<close> is not a field:
  a live context always has one, and what may fail is taking it (\<open>crypto_env\<close>).
\<close>

record ('a, 'i, 'h) G301_CIPHER_CTX =
  ops :: "('a, 'i) G301_INNER_OPS"
  inner :: 'i
  handle :: 'h
  core_new_error :: "('h \<Rightarrow> 'h) option"
  core_set_error_debug :: "('h \<Rightarrow> 'h) option"
  core_vset_error :: "('h \<Rightarrow> nat \<Rightarrow> 'h) option"
  phase :: G301_PHASE
  encrypting :: bool
  direction_set :: bool
  key_valid :: bool
  needs_reinit :: bool
  decrypt_tag_current :: bool
  payload_started :: bool
  current_key :: bytes
  usage_key :: bytes
  encrypted_records :: cint
  record_limit :: cint
  current_key_valid :: bool
  current_key_changed :: bool
  usage_key_valid :: bool
  usage_exhausted :: bool
  record_reserved :: bool

text \<open>The provider context of g301_internal.h, from which a cipher context is made.\<close>

record ('a, 'i, 'h) G301_PROVIDER_CTX =
  child_libctx :: "'a option"
  inner_ops :: "('a, 'i) G301_INNER_OPS option"
  inner_arg :: 'a
  prov_handle :: 'h
  prov_core_new_error :: "('h \<Rightarrow> 'h) option"
  prov_core_set_error_debug :: "('h \<Rightarrow> 'h) option"
  prov_core_vset_error :: "('h \<Rightarrow> nat \<Rightarrow> 'h) option"

section \<open>Errors\<close>

definition G301_R_INVALID_PARAMETER :: nat where "G301_R_INVALID_PARAMETER = 1"
definition G301_R_INVALID_STATE :: nat where "G301_R_INVALID_STATE = 2"
definition G301_R_OUTPUT_BUFFER_TOO_SMALL :: nat where "G301_R_OUTPUT_BUFFER_TOO_SMALL = 3"
definition G301_R_INTERNAL_ERROR :: nat where "G301_R_INTERNAL_ERROR = 4"
definition G301_R_KEY_USAGE_LIMIT_EXCEEDED :: nat where "G301_R_KEY_USAGE_LIMIT_EXCEEDED = 5"

lemmas reason_defs =
  G301_R_INVALID_PARAMETER_def G301_R_INVALID_STATE_def G301_R_OUTPUT_BUFFER_TOO_SMALL_def
  G301_R_INTERNAL_ERROR_def G301_R_KEY_USAGE_LIMIT_EXCEEDED_def

definition g301_raise_error :: "('a, 'i, 'h) G301_CIPHER_CTX \<Rightarrow> nat \<Rightarrow> ('a, 'i, 'h) G301_CIPHER_CTX" where
  "g301_raise_error ctx reason =
     (case (core_new_error ctx, core_set_error_debug ctx, core_vset_error ctx) of
        (Some new_error, Some set_debug, Some vset) \<Rightarrow>
          ctx\<lparr>handle := vset (set_debug (new_error (handle ctx))) reason\<rparr>
      | _ \<Rightarrow> ctx)"

text \<open>What a raise leaves in the core, given what was there.\<close>

definition raised :: "('a, 'i, 'h) G301_CIPHER_CTX \<Rightarrow> nat \<Rightarrow> 'h" where
  "raised ctx reason = handle (g301_raise_error ctx reason)"

section \<open>Invalidation and poisoning\<close>

definition g301_invalidate_record :: "('a, 'i, 'h) G301_CIPHER_CTX \<Rightarrow> ('a, 'i, 'h) G301_CIPHER_CTX" where
  "g301_invalidate_record ctx =
     ctx\<lparr>phase := G301_PHASE_NO_RECORD, payload_started := False, decrypt_tag_current := False\<rparr>"

definition g301_poison :: "('a, 'i, 'h) G301_CIPHER_CTX \<Rightarrow> ('a, 'i, 'h) G301_CIPHER_CTX" where
  "g301_poison ctx = ctx\<lparr>needs_reinit := True, decrypt_tag_current := False\<rparr>"

section \<open>Key bookkeeping\<close>

text \<open>\<open>key[G301_KEY_LENGTH]\<close> is the caller's key; the length was checked before.\<close>

definition g301_record_current_key ::
  "crypto_env \<Rightarrow> ('a, 'i, 'h) G301_CIPHER_CTX \<Rightarrow> bytes \<Rightarrow> bool \<times> ('a, 'i, 'h) G301_CIPHER_CTX" where
  "g301_record_current_key env ctx k =
     (if \<not> record_key_write_lock env then (False, ctx)
      else
        let changed = (\<not> current_key_valid ctx
                       \<or> \<not> memeq (current_key ctx) k (unat G301_KEY_LENGTH)) in
        if changed
        then (True, ctx\<lparr>current_key := memcpy (current_key ctx) k (unat G301_KEY_LENGTH),
                        current_key_valid := True, current_key_changed := True\<rparr>)
        else (True, ctx))"

definition g301_install_write_key ::
  "crypto_env \<Rightarrow> ('a, 'i, 'h) G301_CIPHER_CTX \<Rightarrow> bool \<times> ('a, 'i, 'h) G301_CIPHER_CTX" where
  "g301_install_write_key env ctx =
     (if \<not> current_key_valid ctx then (False, ctx)
      else if usage_key_valid ctx \<and> \<not> current_key_changed ctx
      then (True, ctx\<lparr>record_reserved := False\<rparr>)
      else if \<not> install_key_write_lock env then (False, ctx)
      else if \<not> current_key_valid ctx then (False, ctx)
      else
        let same_key = (usage_key_valid ctx
                        \<and> memeq (usage_key ctx) (current_key ctx) (unat G301_KEY_LENGTH));
            ctx = (if \<not> same_key
                   then ctx\<lparr>usage_key := memcpy (usage_key ctx) (current_key ctx) (unat G301_KEY_LENGTH),
                            usage_key_valid := True, encrypted_records := 0,
                            usage_exhausted := False\<rparr>
                   else ctx)
        in (True, ctx\<lparr>current_key_changed := False, record_reserved := False\<rparr>))"

section \<open>Reserving a record\<close>

definition g301_reserve_encryption_record ::
  "crypto_env \<Rightarrow> ('a, 'i, 'h) G301_CIPHER_CTX \<Rightarrow> bool \<times> ('a, 'i, 'h) G301_CIPHER_CTX" where
  "g301_reserve_encryption_record env ctx =
     (if record_reserved ctx then (True, ctx)
      else if \<not> usage_key_valid ctx \<or> usage_exhausted ctx
      then (False, g301_raise_error (g301_invalidate_record (g301_poison ctx))
                     G301_R_KEY_USAGE_LIMIT_EXCEEDED)
      else case CRYPTO_atomic_add env (encrypted_records ctx) 1 of
        None \<Rightarrow> (False, g301_raise_error (g301_invalidate_record (g301_poison ctx))
                          G301_R_INTERNAL_ERROR)
      | Some records \<Rightarrow>
          let ctx = ctx\<lparr>encrypted_records := records\<rparr> in
          if sint records \<le> sint (record_limit ctx)
          then (True, ctx\<lparr>record_reserved := True\<rparr>)
          else (False, g301_raise_error
                  (g301_invalidate_record (g301_poison (ctx\<lparr>usage_exhausted := True\<rparr>)))
                  G301_R_KEY_USAGE_LIMIT_EXCEEDED))"

section \<open>Frames\<close>

lemma raise_error_frame [simp, frame_simps]:
  "ops (g301_raise_error c r) = ops c"
  "inner (g301_raise_error c r) = inner c"
  "core_new_error (g301_raise_error c r) = core_new_error c"
  "core_set_error_debug (g301_raise_error c r) = core_set_error_debug c"
  "core_vset_error (g301_raise_error c r) = core_vset_error c"
  "phase (g301_raise_error c r) = phase c"
  "encrypting (g301_raise_error c r) = encrypting c"
  "direction_set (g301_raise_error c r) = direction_set c"
  "key_valid (g301_raise_error c r) = key_valid c"
  "needs_reinit (g301_raise_error c r) = needs_reinit c"
  "decrypt_tag_current (g301_raise_error c r) = decrypt_tag_current c"
  "payload_started (g301_raise_error c r) = payload_started c"
  "current_key (g301_raise_error c r) = current_key c"
  "usage_key (g301_raise_error c r) = usage_key c"
  "encrypted_records (g301_raise_error c r) = encrypted_records c"
  "record_limit (g301_raise_error c r) = record_limit c"
  "current_key_valid (g301_raise_error c r) = current_key_valid c"
  "current_key_changed (g301_raise_error c r) = current_key_changed c"
  "usage_key_valid (g301_raise_error c r) = usage_key_valid c"
  "usage_exhausted (g301_raise_error c r) = usage_exhausted c"
  "record_reserved (g301_raise_error c r) = record_reserved c"
  by (simp_all add: g301_raise_error_def split: option.splits)

lemma invalidate_frame [simp, frame_simps]:
  "ops (g301_invalidate_record c) = ops c"
  "inner (g301_invalidate_record c) = inner c"
  "handle (g301_invalidate_record c) = handle c"
  "core_new_error (g301_invalidate_record c) = core_new_error c"
  "core_set_error_debug (g301_invalidate_record c) = core_set_error_debug c"
  "core_vset_error (g301_invalidate_record c) = core_vset_error c"
  "phase (g301_invalidate_record c) = G301_PHASE_NO_RECORD"
  "encrypting (g301_invalidate_record c) = encrypting c"
  "direction_set (g301_invalidate_record c) = direction_set c"
  "key_valid (g301_invalidate_record c) = key_valid c"
  "needs_reinit (g301_invalidate_record c) = needs_reinit c"
  "\<not> decrypt_tag_current (g301_invalidate_record c)"
  "\<not> payload_started (g301_invalidate_record c)"
  "current_key (g301_invalidate_record c) = current_key c"
  "usage_key (g301_invalidate_record c) = usage_key c"
  "encrypted_records (g301_invalidate_record c) = encrypted_records c"
  "record_limit (g301_invalidate_record c) = record_limit c"
  "current_key_valid (g301_invalidate_record c) = current_key_valid c"
  "current_key_changed (g301_invalidate_record c) = current_key_changed c"
  "usage_key_valid (g301_invalidate_record c) = usage_key_valid c"
  "usage_exhausted (g301_invalidate_record c) = usage_exhausted c"
  "record_reserved (g301_invalidate_record c) = record_reserved c"
  by (simp_all add: g301_invalidate_record_def)

lemma poison_frame [simp, frame_simps]:
  "ops (g301_poison c) = ops c"
  "inner (g301_poison c) = inner c"
  "handle (g301_poison c) = handle c"
  "core_new_error (g301_poison c) = core_new_error c"
  "core_set_error_debug (g301_poison c) = core_set_error_debug c"
  "core_vset_error (g301_poison c) = core_vset_error c"
  "phase (g301_poison c) = phase c"
  "encrypting (g301_poison c) = encrypting c"
  "direction_set (g301_poison c) = direction_set c"
  "key_valid (g301_poison c) = key_valid c"
  "needs_reinit (g301_poison c)"
  "\<not> decrypt_tag_current (g301_poison c)"
  "payload_started (g301_poison c) = payload_started c"
  "current_key (g301_poison c) = current_key c"
  "usage_key (g301_poison c) = usage_key c"
  "encrypted_records (g301_poison c) = encrypted_records c"
  "record_limit (g301_poison c) = record_limit c"
  "current_key_valid (g301_poison c) = current_key_valid c"
  "current_key_changed (g301_poison c) = current_key_changed c"
  "usage_key_valid (g301_poison c) = usage_key_valid c"
  "usage_exhausted (g301_poison c) = usage_exhausted c"
  "record_reserved (g301_poison c) = record_reserved c"
  by (simp_all add: g301_poison_def)


section \<open>Invariants of the context\<close>

text \<open>
  \<open>ctx_wf\<close> relates the fields of a context between API calls: a record presupposes a
  direction and a key; a fresh tag belongs to an open, unpoisoned decryption record;
  payload presupposes an injected manifest; an encryption record runs under the installed
  write key; and it has been counted exactly when its manifest is in.
\<close>

definition record_open :: "('a, 'i, 'h) G301_CIPHER_CTX \<Rightarrow> bool" where
  "record_open c \<longleftrightarrow> phase c = G301_PHASE_MANIFEST_PENDING \<or> phase c = G301_PHASE_ACTIVE"

definition record_injected :: "('a, 'i, 'h) G301_CIPHER_CTX \<Rightarrow> bool" where
  "record_injected c \<longleftrightarrow> phase c = G301_PHASE_ACTIVE \<or> phase c = G301_PHASE_FINALIZED"

definition key_wf :: "('a, 'i, 'h) G301_CIPHER_CTX \<Rightarrow> bool" where
  "key_wf c \<longleftrightarrow>
     length (current_key c) = 32 \<and> length (usage_key c) = 32
   \<and> (key_valid c \<longrightarrow> current_key_valid c)
   \<and> (usage_key_valid c \<longrightarrow> current_key_valid c)
   \<and> (usage_key_valid c \<and> \<not> current_key_changed c \<longrightarrow> usage_key c = current_key c)"

definition record_wf :: "('a, 'i, 'h) G301_CIPHER_CTX \<Rightarrow> bool" where
  "record_wf c \<longleftrightarrow>
     (phase c \<noteq> G301_PHASE_NO_RECORD \<longrightarrow> direction_set c \<and> key_valid c)
   \<and> (decrypt_tag_current c \<longrightarrow> \<not> encrypting c \<and> \<not> needs_reinit c \<and> record_open c)
   \<and> (payload_started c \<longrightarrow> record_injected c)
   \<and> (phase c \<noteq> G301_PHASE_NO_RECORD \<and> encrypting c
        \<longrightarrow> usage_key_valid c \<and> \<not> current_key_changed c)
   \<and> (record_injected c \<and> encrypting c \<longrightarrow> record_reserved c)
   \<and> (phase c = G301_PHASE_MANIFEST_PENDING \<and> encrypting c \<and> \<not> needs_reinit c
        \<longrightarrow> \<not> record_reserved c)"

definition ctx_wf :: "('a, 'i, 'h) G301_CIPHER_CTX \<Rightarrow> bool" where
  "ctx_wf c \<longleftrightarrow> key_wf c \<and> record_wf c"

text \<open>
  \<open>usage_wf\<close> is the budget: the counter stays within the limit, except that the attempt which
  discovers the exhaustion leaves it one above, so it cannot overflow.
\<close>

definition usage_wf :: "('a, 'i, 'h) G301_CIPHER_CTX \<Rightarrow> bool" where
  "usage_wf c \<longleftrightarrow>
     0 < sint (record_limit c) \<and> sint (record_limit c) < INT_MAX
   \<and> (if usage_exhausted c then sint (encrypted_records c) = sint (record_limit c) + 1
      else 0 \<le> sint (encrypted_records c) \<and> sint (encrypted_records c) \<le> sint (record_limit c))"

lemmas wf_defs = ctx_wf_def key_wf_def record_wf_def record_open_def record_injected_def

lemma key_wf_raise [simp]: "key_wf (g301_raise_error c r) = key_wf c"
  by (simp add: key_wf_def)

lemma record_wf_raise [simp]: "record_wf (g301_raise_error c r) = record_wf c"
  by (simp add: record_wf_def record_open_def record_injected_def)

lemma usage_wf_raise [simp]: "usage_wf (g301_raise_error c r) = usage_wf c"
  by (simp add: usage_wf_def)

lemma ctx_wf_raise [simp]: "ctx_wf (g301_raise_error c r) = ctx_wf c"
  by (simp add: ctx_wf_def)

lemma key_wf_invalidate [simp]: "key_wf (g301_invalidate_record c) = key_wf c"
  by (simp add: key_wf_def)

lemma record_wf_invalidate [simp]: "record_wf (g301_invalidate_record c)"
  by (simp add: record_wf_def record_open_def record_injected_def)

lemma usage_wf_invalidate [simp]: "usage_wf (g301_invalidate_record c) = usage_wf c"
  by (simp add: usage_wf_def)

lemma ctx_wf_invalidate [simp]: "ctx_wf (g301_invalidate_record c) = key_wf c"
  by (simp add: ctx_wf_def)

lemma key_wf_poison [simp]: "key_wf (g301_poison c) = key_wf c"
  by (simp add: key_wf_def)

lemma record_wf_poison [simp]: "record_wf c \<Longrightarrow> record_wf (g301_poison c)"
  by (simp add: record_wf_def record_open_def record_injected_def)

lemma usage_wf_poison [simp]: "usage_wf (g301_poison c) = usage_wf c"
  by (simp add: usage_wf_def)

lemma ctx_wf_poison [simp]: "ctx_wf c \<Longrightarrow> ctx_wf (g301_poison c)"
  by (simp add: ctx_wf_def)

text \<open>Clearing the tag flag alone, as rejected calls do.\<close>

lemma key_wf_clear_tag [simp]: "key_wf (c\<lparr>decrypt_tag_current := False\<rparr>) = key_wf c"
  by (simp add: key_wf_def)

lemma record_wf_clear_tag [simp]: "record_wf c \<Longrightarrow> record_wf (c\<lparr>decrypt_tag_current := False\<rparr>)"
  by (simp add: record_wf_def record_open_def record_injected_def)

lemma usage_wf_clear_tag [simp]: "usage_wf (c\<lparr>decrypt_tag_current := False\<rparr>) = usage_wf c"
  by (simp add: usage_wf_def)

lemma ctx_wf_clear_tag [simp]: "ctx_wf c \<Longrightarrow> ctx_wf (c\<lparr>decrypt_tag_current := False\<rparr>)"
  by (simp add: ctx_wf_def)

lemma usage_wf_inner [simp]: "usage_wf (c\<lparr>inner := i\<rparr>) = usage_wf c"
  by (simp add: usage_wf_def)

lemma key_wf_inner [simp]: "key_wf (c\<lparr>inner := i\<rparr>) = key_wf c"
  by (simp add: key_wf_def)

lemma record_wf_inner [simp]: "record_wf (c\<lparr>inner := i\<rparr>) = record_wf c"
  by (simp add: record_wf_def record_open_def record_injected_def)

lemma ctx_wf_inner [simp]: "ctx_wf (c\<lparr>inner := i\<rparr>) = ctx_wf c"
  by (simp add: ctx_wf_def)

section \<open>Key bookkeeping: what it does\<close>

lemma unat_key_length [simp]: "unat G301_KEY_LENGTH = 32"
  by (simp add: G301_KEY_LENGTH_def)

lemma record_current_key_frame [simp, frame_simps]:
  "ops (snd (g301_record_current_key env c k)) = ops c"
  "inner (snd (g301_record_current_key env c k)) = inner c"
  "handle (snd (g301_record_current_key env c k)) = handle c"
  "core_new_error (snd (g301_record_current_key env c k)) = core_new_error c"
  "core_set_error_debug (snd (g301_record_current_key env c k)) = core_set_error_debug c"
  "core_vset_error (snd (g301_record_current_key env c k)) = core_vset_error c"
  "phase (snd (g301_record_current_key env c k)) = phase c"
  "encrypting (snd (g301_record_current_key env c k)) = encrypting c"
  "direction_set (snd (g301_record_current_key env c k)) = direction_set c"
  "key_valid (snd (g301_record_current_key env c k)) = key_valid c"
  "needs_reinit (snd (g301_record_current_key env c k)) = needs_reinit c"
  "decrypt_tag_current (snd (g301_record_current_key env c k)) = decrypt_tag_current c"
  "payload_started (snd (g301_record_current_key env c k)) = payload_started c"
  "usage_key (snd (g301_record_current_key env c k)) = usage_key c"
  "encrypted_records (snd (g301_record_current_key env c k)) = encrypted_records c"
  "record_limit (snd (g301_record_current_key env c k)) = record_limit c"
  "usage_key_valid (snd (g301_record_current_key env c k)) = usage_key_valid c"
  "usage_exhausted (snd (g301_record_current_key env c k)) = usage_exhausted c"
  "record_reserved (snd (g301_record_current_key env c k)) = record_reserved c"
  by (simp_all add: g301_record_current_key_def Let_def)

lemma record_current_key_result [simp]:
  "fst (g301_record_current_key env c k) = record_key_write_lock env"
  by (simp add: g301_record_current_key_def Let_def)

lemma record_current_key_fail:
  "\<not> record_key_write_lock env \<Longrightarrow> snd (g301_record_current_key env c k) = c"
  by (simp add: g301_record_current_key_def)

lemma record_current_key_ok:
  assumes "key_wf c" "32 \<le> length k" "record_key_write_lock env"
  shows "current_key (snd (g301_record_current_key env c k)) = take 32 k"
    and "current_key_valid (snd (g301_record_current_key env c k))"
    and "current_key_changed (snd (g301_record_current_key env c k)) \<longleftrightarrow>
       current_key_changed c \<or> \<not> current_key_valid c \<or> current_key c \<noteq> take 32 k"
  using assms
  by (auto simp: g301_record_current_key_def Let_def key_wf_def memeq_def memcpy_def
      split: if_splits)

lemma key_wf_record_current_key:
  assumes "key_wf c" "32 \<le> length k" "record_key_write_lock env"
  shows "key_wf (snd (g301_record_current_key env c k))"
proof -
  note ok = record_current_key_ok [OF assms]
  show ?thesis
    unfolding key_wf_def using assms(1,2) ok by (auto simp: key_wf_def)
qed

lemma install_write_key_frame [simp, frame_simps]:
  "ops (snd (g301_install_write_key env c)) = ops c"
  "inner (snd (g301_install_write_key env c)) = inner c"
  "handle (snd (g301_install_write_key env c)) = handle c"
  "core_new_error (snd (g301_install_write_key env c)) = core_new_error c"
  "core_set_error_debug (snd (g301_install_write_key env c)) = core_set_error_debug c"
  "core_vset_error (snd (g301_install_write_key env c)) = core_vset_error c"
  "phase (snd (g301_install_write_key env c)) = phase c"
  "encrypting (snd (g301_install_write_key env c)) = encrypting c"
  "direction_set (snd (g301_install_write_key env c)) = direction_set c"
  "key_valid (snd (g301_install_write_key env c)) = key_valid c"
  "needs_reinit (snd (g301_install_write_key env c)) = needs_reinit c"
  "decrypt_tag_current (snd (g301_install_write_key env c)) = decrypt_tag_current c"
  "payload_started (snd (g301_install_write_key env c)) = payload_started c"
  "current_key (snd (g301_install_write_key env c)) = current_key c"
  "record_limit (snd (g301_install_write_key env c)) = record_limit c"
  "current_key_valid (snd (g301_install_write_key env c)) = current_key_valid c"
  by (simp_all add: g301_install_write_key_def Let_def)

lemma install_write_key_result:
  "fst (g301_install_write_key env c) \<longleftrightarrow>
     current_key_valid c
     \<and> (usage_key_valid c \<and> \<not> current_key_changed c \<or> install_key_write_lock env)"
  by (simp add: g301_install_write_key_def Let_def)

lemma install_write_key_fail:
  assumes "\<not> fst (g301_install_write_key env c)"
  shows "snd (g301_install_write_key env c) = c"
proof -
  have "\<not> current_key_valid c
      \<or> \<not> install_key_write_lock env \<and> \<not> (usage_key_valid c \<and> \<not> current_key_changed c)"
    using assms by (auto simp: install_write_key_result)
  then show ?thesis by (elim disjE conjE) (simp_all only: g301_install_write_key_def if_False
      if_True if_cancel not_True_eq_False not_False_eq_True snd_conv)
qed

text \<open>
  After a successful installation the write key is the current key. The counter restarts
  exactly when that key differs from the one installed before.
\<close>

lemma install_write_key_ok:
  assumes "key_wf c" "fst (g301_install_write_key env c)"
  shows "current_key_valid c" "usage_key_valid (snd (g301_install_write_key env c))"
    and "\<not> current_key_changed (snd (g301_install_write_key env c))"
    and "\<not> record_reserved (snd (g301_install_write_key env c))"
    and "usage_key (snd (g301_install_write_key env c)) = current_key c"
  using assms
  by (auto simp: g301_install_write_key_def Let_def key_wf_def memeq_def memcpy_def
      split: if_splits)

lemma install_write_key_counter:
  assumes "key_wf c" "fst (g301_install_write_key env c)"
  shows "if usage_key_valid c \<and> usage_key c = current_key c
     then encrypted_records (snd (g301_install_write_key env c)) = encrypted_records c
        \<and> usage_exhausted (snd (g301_install_write_key env c)) = usage_exhausted c
     else encrypted_records (snd (g301_install_write_key env c)) = 0
        \<and> \<not> usage_exhausted (snd (g301_install_write_key env c))"
  using assms
  by (auto simp: g301_install_write_key_def Let_def key_wf_def memeq_def
      split: if_splits)

lemma key_wf_install:
  assumes "key_wf c" "fst (g301_install_write_key env c)"
  shows "key_wf (snd (g301_install_write_key env c))"
  using assms(1) install_write_key_ok [OF assms] by (simp add: key_wf_def)

lemma usage_wf_install:
  assumes "key_wf c" "usage_wf c" "fst (g301_install_write_key env c)"
  shows "usage_wf (snd (g301_install_write_key env c))"
  using assms(2) install_write_key_counter [OF assms(1,3)]
  by (auto simp: usage_wf_def split: if_splits)

section \<open>Reserving a record: what it does\<close>

lemma reserve_frame [simp, frame_simps]:
  "ops (snd (g301_reserve_encryption_record env c)) = ops c"
  "inner (snd (g301_reserve_encryption_record env c)) = inner c"
  "core_new_error (snd (g301_reserve_encryption_record env c)) = core_new_error c"
  "core_set_error_debug (snd (g301_reserve_encryption_record env c)) = core_set_error_debug c"
  "core_vset_error (snd (g301_reserve_encryption_record env c)) = core_vset_error c"
  "encrypting (snd (g301_reserve_encryption_record env c)) = encrypting c"
  "direction_set (snd (g301_reserve_encryption_record env c)) = direction_set c"
  "key_valid (snd (g301_reserve_encryption_record env c)) = key_valid c"
  "current_key (snd (g301_reserve_encryption_record env c)) = current_key c"
  "usage_key (snd (g301_reserve_encryption_record env c)) = usage_key c"
  "record_limit (snd (g301_reserve_encryption_record env c)) = record_limit c"
  "current_key_valid (snd (g301_reserve_encryption_record env c)) = current_key_valid c"
  "current_key_changed (snd (g301_reserve_encryption_record env c)) = current_key_changed c"
  "usage_key_valid (snd (g301_reserve_encryption_record env c)) = usage_key_valid c"
  by (simp_all add: g301_reserve_encryption_record_def Let_def split: option.split)

lemma reserve_already:
  "record_reserved c \<Longrightarrow> g301_reserve_encryption_record env c = (True, c)"
  by (simp add: g301_reserve_encryption_record_def)

text \<open>
  The complete behaviour under the budget invariant: with budget left, one record is
  counted; otherwise the record is dropped and the context poisoned.
\<close>

lemma reserve_counts:
  assumes "usage_wf c" "atomic_documented env" "\<not> record_reserved c"
    and "fst (g301_reserve_encryption_record env c)"
  shows "snd (g301_reserve_encryption_record env c)
         = c\<lparr>encrypted_records := encrypted_records c + 1, record_reserved := True\<rparr>"
    and "usage_key_valid c" "\<not> usage_exhausted c"
    and "sint (encrypted_records c + 1) = sint (encrypted_records c) + 1"
    and "sint (encrypted_records c) < sint (record_limit c)"
proof -
  obtain r where r: "CRYPTO_atomic_add env (encrypted_records c) 1 = Some r"
    and le: "sint r \<le> sint (record_limit c)"
    and u: "usage_key_valid c" "\<not> usage_exhausted c"
    using assms(3,4)
    by (simp add: g301_reserve_encryption_record_def Let_def split: if_splits option.splits)
  have r_eq: "r = encrypted_records c + 1" using assms(2) r by (rule atomic_documentedD)
  have lt: "sint (encrypted_records c) < INT_MAX"
    using assms(1) u(2) by (simp add: usage_wf_def)
  show "snd (g301_reserve_encryption_record env c)
         = c\<lparr>encrypted_records := encrypted_records c + 1, record_reserved := True\<rparr>"
    using assms(3) u r le by (simp add: g301_reserve_encryption_record_def r_eq)
  show "usage_key_valid c" "\<not> usage_exhausted c" by (fact u)+
  show Suc: "sint (encrypted_records c + 1) = sint (encrypted_records c) + 1"
    by (rule sint_cint_Suc [OF lt])
  show "sint (encrypted_records c) < sint (record_limit c)"
    using le Suc by (simp add: r_eq)
qed

lemma reserve_refuses:
  assumes "\<not> fst (g301_reserve_encryption_record env c)"
  shows "phase (snd (g301_reserve_encryption_record env c)) = G301_PHASE_NO_RECORD"
    and "needs_reinit (snd (g301_reserve_encryption_record env c))"
    and "\<not> payload_started (snd (g301_reserve_encryption_record env c))"
    and "\<not> decrypt_tag_current (snd (g301_reserve_encryption_record env c))"
    and "\<not> record_reserved (snd (g301_reserve_encryption_record env c))"
    and "\<not> record_reserved c"
  using assms
  by (auto simp: g301_reserve_encryption_record_def Let_def split: if_splits option.splits)

lemma reserve_ok_frame:
  assumes "fst (g301_reserve_encryption_record env c)"
  shows "phase (snd (g301_reserve_encryption_record env c)) = phase c"
    and "needs_reinit (snd (g301_reserve_encryption_record env c)) = needs_reinit c"
    and "payload_started (snd (g301_reserve_encryption_record env c)) = payload_started c"
    and "decrypt_tag_current (snd (g301_reserve_encryption_record env c)) = decrypt_tag_current c"
    and "record_reserved (snd (g301_reserve_encryption_record env c))"
    and "handle (snd (g301_reserve_encryption_record env c)) = handle c"
  using assms
  by (auto simp: g301_reserve_encryption_record_def Let_def split: if_splits option.splits)

lemma key_wf_reserve [simp]:
  "key_wf (snd (g301_reserve_encryption_record env c)) = key_wf c"
  by (simp add: key_wf_def)

lemma usage_wf_reserve:
  assumes "usage_wf c" "atomic_documented env"
  shows "usage_wf (snd (g301_reserve_encryption_record env c))"
proof (cases "record_reserved c \<or> \<not> usage_key_valid c \<or> usage_exhausted c
              \<or> CRYPTO_atomic_add env (encrypted_records c) 1 = None")
  case True
  with assms(1) show ?thesis
    by (auto simp: g301_reserve_encryption_record_def)
next
  case False
  then have "CRYPTO_atomic_add env (encrypted_records c) 1 = Some (encrypted_records c + 1)"
    using assms(2) by (auto dest: atomic_documentedD)
  moreover have "sint (encrypted_records c + 1) = sint (encrypted_records c) + 1"
    using assms(1) False by (intro sint_cint_Suc) (simp add: usage_wf_def)
  ultimately show ?thesis
    using False assms(1)
    by (auto simp: g301_reserve_encryption_record_def usage_wf_def Let_def)
qed

end
