(* ===== verification/Cipher_Init.thy ===== *)
theory Cipher_Init
  imports Cipher_State
begin

text \<open>
  Creation and destruction of a cipher context and \<open>g301_init\<close>, the operation both
  directions initialise a record with (g301_cipher.c). The lemmas are the outcome of
  \<open>g301_init\<close> on each of its paths and the preservation of the context invariants.
\<close>

section \<open>Creating and destroying a context\<close>

definition g301_cipher_newctx ::
  "alloc_env \<Rightarrow> ('a, 'i, 'h) G301_PROVIDER_CTX option \<Rightarrow> ledger
   \<Rightarrow> ('a, 'i, 'h) G301_CIPHER_CTX option \<times> ledger" where
  "g301_cipher_newctx aenv vprovctx l =
     (case vprovctx of None \<Rightarrow> (None, l)
      | Some provctx \<Rightarrow>
     (case inner_ops provctx of None \<Rightarrow> (None, l)
      | Some iops \<Rightarrow>
     (if \<not> OPENSSL_zalloc_ok aenv then (None, l)
      else
        let usage_lock = (if CRYPTO_THREAD_lock_new_ok aenv then Some () else None);
            l = acquire (Some ()) R_outer_ctx l;
            l = acquire usage_lock R_usage_lock l;
            (inn, l) = newctx iops (inner_arg provctx) l
        in case (usage_lock, inn) of
             (Some _, Some i) \<Rightarrow>
               (Some \<lparr>ops = iops, inner = i, handle = prov_handle provctx,
                      core_new_error = prov_core_new_error provctx,
                      core_set_error_debug = prov_core_set_error_debug provctx,
                      core_vset_error = prov_core_vset_error provctx,
                      phase = G301_PHASE_NO_RECORD, encrypting = False,
                      direction_set = False, key_valid = False, needs_reinit = False,
                      decrypt_tag_current = False, payload_started = False,
                      current_key = replicate 32 0, usage_key = replicate 32 0,
                      encrypted_records = 0, record_limit = ucast G301_ENCRYPT_RECORD_LIMIT,
                      current_key_valid = False, current_key_changed = False,
                      usage_key_valid = False, usage_exhausted = False,
                      record_reserved = False\<rparr>, l)
           | _ \<Rightarrow>
               (let l = freectx iops inn l;
                    l = release usage_lock R_usage_lock l;
                    l = release (Some ()) R_outer_ctx l
                in (None, l)))))"

definition g301_cipher_freectx ::
  "('a, 'i, 'h) G301_CIPHER_CTX option \<Rightarrow> ledger \<Rightarrow> ledger" where
  "g301_cipher_freectx vctx l =
     (case vctx of None \<Rightarrow> l
      | Some ctx \<Rightarrow>
          let l = freectx (ops ctx) (Some (inner ctx)) l;
              l = release (Some ()) R_usage_lock l;
              l = release (Some ()) R_outer_ctx l
          in l)"

text \<open>The hook of test builds (\<open>G301_TESTING\<close>) that lowers the record limit.\<close>

definition g301_test_cipher_set_record_limit ::
  "('a, 'i, 'h) G301_CIPHER_CTX option \<Rightarrow> 64 word \<Rightarrow> bool \<times> ('a, 'i, 'h) G301_CIPHER_CTX option" where
  "g301_test_cipher_set_record_limit vctx limit =
     (case vctx of None \<Rightarrow> (False, None)
      | Some ctx \<Rightarrow>
          if limit = 0 \<or> uint limit > INT_MAX then (False, Some ctx)
          else (True, Some (ctx\<lparr>record_limit := ucast limit\<rparr>)))"

section \<open>Initialisation\<close>

text \<open>
  The parameters handed to the inner cipher: a canonical IV length if the caller gave one,
  and the tag if the caller gave one, nothing else.
\<close>

definition filtered_init_params ::
  "ossl_param_api \<Rightarrow> ossl_param option \<Rightarrow> ossl_param option \<Rightarrow> ossl_params" where
  "filtered_init_params api iv_param tag_param =
     (case iv_param of None \<Rightarrow> []
      | Some _ \<Rightarrow> [OSSL_PARAM_construct_size_t api OSSL_CIPHER_PARAM_IVLEN G301_IV_LENGTH])
   @ (case tag_param of None \<Rightarrow> []
      | Some tp \<Rightarrow> [OSSL_PARAM_construct_octet_string api OSSL_CIPHER_PARAM_AEAD_TAG
                      (data tp) G301_TAG_LENGTH])"

text \<open>
  The end of \<open>g301_init\<close>: the inner cipher has accepted the call and the key, if any, is
  recorded. Direction and key become current; with an IV a record begins, under the write
  key when encrypting; without one there is no record.
\<close>

definition g301_init_begin ::
  "crypto_env \<Rightarrow> ('a, 'i, 'h) G301_CIPHER_CTX \<Rightarrow> bool \<Rightarrow> bool \<Rightarrow> bool \<Rightarrow> bool
   \<Rightarrow> bool \<times> ('a, 'i, 'h) G301_CIPHER_CTX" where
  "g301_init_begin env ctx has_key has_iv has_tag encrypt =
     (let ctx = ctx\<lparr>encrypting := encrypt, direction_set := True\<rparr>;
          ctx = (if has_key then ctx\<lparr>key_valid := True\<rparr> else ctx) in
      if has_iv then
        if \<not> key_valid ctx then
          (False, g301_raise_error (g301_invalidate_record (g301_poison ctx))
                    G301_R_INVALID_STATE)
        else
          let (installed, ctx) =
                (if encrypt then g301_install_write_key env ctx else (True, ctx)) in
          if \<not> installed then
            (False, g301_raise_error (g301_invalidate_record (g301_poison ctx))
                      G301_R_INTERNAL_ERROR)
          else
            (True, ctx\<lparr>phase := G301_PHASE_MANIFEST_PENDING, payload_started := False,
                       decrypt_tag_current := (\<not> encrypt \<and> has_tag),
                       needs_reinit := False\<rparr>)
      else (True, g301_invalidate_record ctx))"

text \<open>\<open>g301_init\<close> from the delegated call on (its arguments have passed every check).\<close>

definition g301_init_commit ::
  "crypto_env \<Rightarrow> ('a, 'i, 'h) G301_CIPHER_CTX \<Rightarrow> bytes option \<Rightarrow> bytes option
   \<Rightarrow> ossl_params \<Rightarrow> bool \<Rightarrow> bool \<Rightarrow> bool \<times> ('a, 'i, 'h) G301_CIPHER_CTX" where
  "g301_init_commit env ctx k iv filtered_params has_tag encrypt =
     (let has_key = (k \<noteq> None); has_iv = (iv \<noteq> None);
          (ok, i) = init (ops ctx) (inner ctx) k iv encrypt filtered_params;
          ctx = ctx\<lparr>inner := i\<rparr> in
      if \<not> ok then
        let ctx = (if has_key then ctx\<lparr>key_valid := False\<rparr> else ctx)
        in (False, g301_invalidate_record (g301_poison ctx))
      else
        let (recorded, ctx) =
              (case k of None \<Rightarrow> (True, ctx) | Some kb \<Rightarrow> g301_record_current_key env ctx kb) in
        if \<not> recorded then
          (False, g301_raise_error (g301_invalidate_record (g301_poison ctx))
                    G301_R_INTERNAL_ERROR)
        else g301_init_begin env ctx has_key has_iv has_tag encrypt)"

definition g301_init ::
  "ossl_param_api \<Rightarrow> crypto_env \<Rightarrow> ('a, 'i, 'h) G301_CIPHER_CTX option \<Rightarrow> bytes option \<Rightarrow> size
   \<Rightarrow> bytes option \<Rightarrow> size \<Rightarrow> ossl_params option \<Rightarrow> bool
   \<Rightarrow> bool \<times> ('a, 'i, 'h) G301_CIPHER_CTX option" where
  "g301_init api env vctx k keylen iv ivlen params encrypt =
     (case vctx of None \<Rightarrow> (False, None)
      | Some ctx \<Rightarrow>
     (let has_key = (k \<noteq> None); has_iv = (iv \<noteq> None);
          direction_change = (direction_set ctx \<and> encrypting ctx \<noteq> encrypt);
          tag_param = locate_opt api params OSSL_CIPHER_PARAM_AEAD_TAG;
          ctx = (if tag_param \<noteq> None then ctx\<lparr>decrypt_tag_current := False\<rparr> else ctx) in
      if has_key \<and> keylen \<noteq> G301_KEY_LENGTH
       \<or> \<not> has_key \<and> keylen \<noteq> 0
       \<or> has_iv \<and> ivlen \<noteq> G301_IV_LENGTH
       \<or> \<not> has_iv \<and> ivlen \<noteq> 0
      then
        let ctx = (if tag_param \<noteq> None \<and> (has_key \<or> direction_change)
                   then g301_invalidate_record ctx else ctx);
            ctx = (if direction_change then ctx\<lparr>decrypt_tag_current := False\<rparr> else ctx)
        in (False, Some (g301_raise_error ctx G301_R_INVALID_PARAMETER))
      else
        let (valid, has_tag) =
              g301_validate_init_params api params encrypt
                (has_iv \<and> (has_key \<or> key_valid ctx)) in
        if \<not> valid then
          let ctx = (if has_tag \<and> (has_key \<or> direction_change)
                     then g301_invalidate_record ctx else ctx);
              ctx = (if direction_change \<or> has_tag
                     then ctx\<lparr>decrypt_tag_current := False\<rparr> else ctx)
          in (False, Some (g301_raise_error ctx G301_R_INVALID_PARAMETER))
        else if has_tag \<and> (\<not> has_iv \<or> \<not> has_key \<and> \<not> key_valid ctx) then
          let ctx = ctx\<lparr>decrypt_tag_current := False\<rparr>;
              ctx = (if has_key \<or> direction_change then g301_invalidate_record ctx else ctx)
          in (False, Some (g301_raise_error ctx G301_R_INVALID_STATE))
        else if has_iv \<and> \<not> has_key \<and> \<not> key_valid ctx then
          (False, Some (g301_raise_error ctx G301_R_INVALID_STATE))
        else
          let ctx = (if direction_change \<or> has_key then g301_invalidate_record ctx else ctx);
              ctx = (if has_key then ctx\<lparr>key_valid := False\<rparr> else ctx);
              iv_param = locate_opt api params OSSL_CIPHER_PARAM_IVLEN;
              (ret, ctx) = g301_init_commit env ctx k iv
                (filtered_init_params api iv_param tag_param) has_tag encrypt
          in (ret, Some ctx)))"

definition g301_cipher_encrypt_init ::
  "ossl_param_api \<Rightarrow> crypto_env \<Rightarrow> ('a, 'i, 'h) G301_CIPHER_CTX option \<Rightarrow> bytes option \<Rightarrow> size
   \<Rightarrow> bytes option \<Rightarrow> size \<Rightarrow> ossl_params option
   \<Rightarrow> bool \<times> ('a, 'i, 'h) G301_CIPHER_CTX option" where
  "g301_cipher_encrypt_init api env vctx k keylen iv ivlen params =
     g301_init api env vctx k keylen iv ivlen params True"

definition g301_cipher_decrypt_init ::
  "ossl_param_api \<Rightarrow> crypto_env \<Rightarrow> ('a, 'i, 'h) G301_CIPHER_CTX option \<Rightarrow> bytes option \<Rightarrow> size
   \<Rightarrow> bytes option \<Rightarrow> size \<Rightarrow> ossl_params option
   \<Rightarrow> bool \<times> ('a, 'i, 'h) G301_CIPHER_CTX option" where
  "g301_cipher_decrypt_init api env vctx k keylen iv ivlen params =
     g301_init api env vctx k keylen iv ivlen params False"

section \<open>The paths of \<open>g301_init\<close>\<close>

lemma invalidate_clear [simp]:
  "g301_invalidate_record (c\<lparr>decrypt_tag_current := b\<rparr>) = g301_invalidate_record c"
  "(g301_invalidate_record c)\<lparr>decrypt_tag_current := False\<rparr> = g301_invalidate_record c"
  by (simp_all add: g301_invalidate_record_def)

text \<open>Lengths and parameters the call accepts, and the states it accepts them in.\<close>

definition init_lengths_ok :: "bytes option \<Rightarrow> size \<Rightarrow> bytes option \<Rightarrow> size \<Rightarrow> bool" where
  "init_lengths_ok k keylen iv ivlen \<longleftrightarrow>
     keylen = (if k = None then 0 else G301_KEY_LENGTH)
   \<and> ivlen = (if iv = None then 0 else G301_IV_LENGTH)"

definition init_params_ok ::
  "ossl_param_api \<Rightarrow> ('a, 'i, 'h) G301_CIPHER_CTX \<Rightarrow> bytes option \<Rightarrow> bytes option
   \<Rightarrow> ossl_params option \<Rightarrow> bool \<Rightarrow> bool" where
  "init_params_ok api c k iv params encrypt \<longleftrightarrow>
     fst (g301_validate_init_params api params encrypt
            (iv \<noteq> None \<and> (k \<noteq> None \<or> key_valid c)))"

definition init_has_tag :: "ossl_param_api \<Rightarrow> ossl_params option \<Rightarrow> bool" where
  "init_has_tag api params \<longleftrightarrow> locate_opt api params OSSL_CIPHER_PARAM_AEAD_TAG \<noteq> None"

definition init_state_ok :: "('a, 'i, 'h) G301_CIPHER_CTX \<Rightarrow> bytes option \<Rightarrow> bytes option \<Rightarrow> bool \<Rightarrow> bool" where
  "init_state_ok c k iv has_tag \<longleftrightarrow>
     (iv \<noteq> None \<longrightarrow> k \<noteq> None \<or> key_valid c)
   \<and> (has_tag \<longrightarrow> iv \<noteq> None \<and> (k \<noteq> None \<or> key_valid c))"

definition init_accepts ::
  "ossl_param_api \<Rightarrow> ('a, 'i, 'h) G301_CIPHER_CTX \<Rightarrow> bytes option \<Rightarrow> size \<Rightarrow> bytes option \<Rightarrow> size
   \<Rightarrow> ossl_params option \<Rightarrow> bool \<Rightarrow> bool" where
  "init_accepts api c k keylen iv ivlen params encrypt \<longleftrightarrow>
     init_lengths_ok k keylen iv ivlen \<and> init_params_ok api c k iv params encrypt
   \<and> init_state_ok c k iv (init_has_tag api params)"

definition direction_change :: "('a, 'i, 'h) G301_CIPHER_CTX \<Rightarrow> bool \<Rightarrow> bool" where
  "direction_change c encrypt \<longleftrightarrow> direction_set c \<and> encrypting c \<noteq> encrypt"

text \<open>
  What a rejected call leaves: a call that carried a tag for another key or direction drops
  the record, any other mention of a tag or direction only makes the tag stale.
\<close>

definition init_rejected_ctx ::
  "('a, 'i, 'h) G301_CIPHER_CTX \<Rightarrow> bool \<Rightarrow> bool \<Rightarrow> bool \<Rightarrow> ('a, 'i, 'h) G301_CIPHER_CTX" where
  "init_rejected_ctx c has_tag has_key change =
     (if has_tag \<and> (has_key \<or> change) then g301_invalidate_record c
      else if has_tag \<or> change then c\<lparr>decrypt_tag_current := False\<rparr>
      else c)"

lemma init_lengths_ok_negation:
  "(k \<noteq> None \<and> keylen \<noteq> G301_KEY_LENGTH \<or> \<not> k \<noteq> None \<and> keylen \<noteq> 0
    \<or> iv \<noteq> None \<and> ivlen \<noteq> G301_IV_LENGTH \<or> \<not> iv \<noteq> None \<and> ivlen \<noteq> 0)
   = (\<not> init_lengths_ok k keylen iv ivlen)"
  by (auto simp: init_lengths_ok_def)

lemma key_valid_clear_if: "key_valid (if b then c\<lparr>decrypt_tag_current := False\<rparr> else c) = key_valid c"
  by simp

lemma clear_tag_unset:
  "\<not> decrypt_tag_current c \<Longrightarrow> c\<lparr>decrypt_tag_current := False\<rparr> = c"
  by (cases c) simp

lemma no_key_no_tag: "record_wf c \<Longrightarrow> \<not> key_valid c \<Longrightarrow> \<not> decrypt_tag_current c"
  by (auto simp: record_wf_def record_open_def)

lemma g301_init_unfold:
  "g301_init api env (Some c) k keylen iv ivlen params encrypt =
     (let has_tag = init_has_tag api params;
          change = direction_change c encrypt;
          c1 = (if has_tag then c\<lparr>decrypt_tag_current := False\<rparr> else c) in
      if \<not> init_lengths_ok k keylen iv ivlen \<or> \<not> init_params_ok api c k iv params encrypt
      then (False, Some (g301_raise_error (init_rejected_ctx c has_tag (k \<noteq> None) change)
                           G301_R_INVALID_PARAMETER))
      else if has_tag \<and> \<not> init_state_ok c k iv True
      then (False, Some (g301_raise_error (init_rejected_ctx c True (k \<noteq> None) change)
                           G301_R_INVALID_STATE))
      else if \<not> init_state_ok c k iv has_tag
      then (False, Some (g301_raise_error c G301_R_INVALID_STATE))
      else
        let c2 = (if change \<or> k \<noteq> None then g301_invalidate_record c1 else c1);
            c3 = (if k \<noteq> None then c2\<lparr>key_valid := False\<rparr> else c2)
        in map_prod id Some (g301_init_commit env c3 k iv
             (filtered_init_params api (locate_opt api params OSSL_CIPHER_PARAM_IVLEN)
                (locate_opt api params OSSL_CIPHER_PARAM_AEAD_TAG)) has_tag encrypt))"
proof -
  let ?tag = "locate_opt api params OSSL_CIPHER_PARAM_AEAD_TAG"
  let ?new = "iv \<noteq> None \<and> (k \<noteq> None \<or> key_valid c)"
  have v: "g301_validate_init_params api params encrypt ?new
      = (init_params_ok api c k iv params encrypt, init_has_tag api params)"
    by (rule prod_eqI) (simp_all add: init_params_ok_def init_has_tag_def validate_init_has_tag)
  have pair: "(case p of (r, x) \<Rightarrow> (r, Some x)) = map_prod id Some p"
    for p :: "bool \<times> ('a, 'i, 'h) G301_CIPHER_CTX"
    by (cases p) simp
  have change: "(direction_set c \<and> encrypting c \<noteq> encrypt) = direction_change c encrypt"
    by (simp add: direction_change_def)
  note unfolds = g301_init_def option.case Let_def init_lengths_ok_negation key_valid_clear_if
    v prod.case pair change init_rejected_ctx_def
  show ?thesis
  proof (cases "init_has_tag api params")
    case True
    then have tag: "(?tag \<noteq> None) = True" by (simp add: init_has_tag_def)
    show ?thesis
      unfolding unfolds tag
      by (simp add: init_state_ok_def True cong: if_cong)
  next
    case False
    then have tag: "(?tag \<noteq> None) = False" by (simp add: init_has_tag_def)
    show ?thesis
      unfolding unfolds tag
      by (simp add: init_state_ok_def False cong: if_cong)
  qed
qed

section \<open>The delegated part\<close>

lemma begin_frame [simp, frame_simps]:
  "ops (snd (g301_init_begin env c hk hi t e)) = ops c"
  "inner (snd (g301_init_begin env c hk hi t e)) = inner c"
  "core_new_error (snd (g301_init_begin env c hk hi t e)) = core_new_error c"
  "core_set_error_debug (snd (g301_init_begin env c hk hi t e)) = core_set_error_debug c"
  "core_vset_error (snd (g301_init_begin env c hk hi t e)) = core_vset_error c"
  "record_limit (snd (g301_init_begin env c hk hi t e)) = record_limit c"
  "current_key (snd (g301_init_begin env c hk hi t e)) = current_key c"
  "current_key_valid (snd (g301_init_begin env c hk hi t e)) = current_key_valid c"
  "encrypting (snd (g301_init_begin env c hk hi t e)) = e"
  "direction_set (snd (g301_init_begin env c hk hi t e))"
  "key_valid (snd (g301_init_begin env c hk hi t e)) = (hk \<or> key_valid c)"
  by (simp_all add: g301_init_begin_def Let_def split_beta)

text \<open>
  A record begins under a valid key, and for encryption only if the write key could be
  installed; otherwise the call fails, dropping and poisoning the record.
\<close>

definition begin_possible :: "crypto_env \<Rightarrow> ('a, 'i, 'h) G301_CIPHER_CTX \<Rightarrow> bool \<Rightarrow> bool \<Rightarrow> bool" where
  "begin_possible env c hk e \<longleftrightarrow>
     (hk \<or> key_valid c)
   \<and> (e \<longrightarrow> current_key_valid c
          \<and> (usage_key_valid c \<and> \<not> current_key_changed c \<or> install_key_write_lock env))"

lemma begin_result:
  "fst (g301_init_begin env c hk hi t e) \<longleftrightarrow> (hi \<longrightarrow> begin_possible env c hk e)"
  by (auto simp: g301_init_begin_def begin_possible_def Let_def split_beta
      install_write_key_result)

lemma begin_fail:
  assumes "\<not> fst (g301_init_begin env c hk hi t e)"
  shows "phase (snd (g301_init_begin env c hk hi t e)) = G301_PHASE_NO_RECORD"
    and "needs_reinit (snd (g301_init_begin env c hk hi t e))"
    and "\<not> payload_started (snd (g301_init_begin env c hk hi t e))"
    and "\<not> decrypt_tag_current (snd (g301_init_begin env c hk hi t e))"
  using assms
  by (auto simp: g301_init_begin_def Let_def split_beta split: if_splits)

lemma begin_no_iv:
  "phase (snd (g301_init_begin env c hk False t e)) = G301_PHASE_NO_RECORD"
  "needs_reinit (snd (g301_init_begin env c hk False t e)) = needs_reinit c"
  "\<not> payload_started (snd (g301_init_begin env c hk False t e))"
  "\<not> decrypt_tag_current (snd (g301_init_begin env c hk False t e))"
  by (auto simp: g301_init_begin_def Let_def)

lemma begin_iv:
  assumes "fst (g301_init_begin env c hk True t e)"
  shows "phase (snd (g301_init_begin env c hk True t e)) = G301_PHASE_MANIFEST_PENDING"
    and "\<not> needs_reinit (snd (g301_init_begin env c hk True t e))"
    and "\<not> payload_started (snd (g301_init_begin env c hk True t e))"
    and "decrypt_tag_current (snd (g301_init_begin env c hk True t e)) = (\<not> e \<and> t)"
  using assms
  by (auto simp: g301_init_begin_def Let_def split_beta split: if_splits)

text \<open>How a new record treats the usage bookkeeping.\<close>

lemma begin_iv_encrypt:
  assumes "key_wf c" "fst (g301_init_begin env c hk True t True)"
  shows "usage_key_valid (snd (g301_init_begin env c hk True t True))"
    and "\<not> current_key_changed (snd (g301_init_begin env c hk True t True))"
    and "\<not> record_reserved (snd (g301_init_begin env c hk True t True))"
    and "usage_key (snd (g301_init_begin env c hk True t True)) = current_key c"
    and "if usage_key_valid c \<and> usage_key c = current_key c
         then encrypted_records (snd (g301_init_begin env c hk True t True)) = encrypted_records c
            \<and> usage_exhausted (snd (g301_init_begin env c hk True t True)) = usage_exhausted c
         else encrypted_records (snd (g301_init_begin env c hk True t True)) = 0
            \<and> \<not> usage_exhausted (snd (g301_init_begin env c hk True t True))"
proof -
  let ?c = "c\<lparr>encrypting := True, direction_set := True\<rparr>"
  let ?d = "if hk then ?c\<lparr>key_valid := True\<rparr> else ?c"
  have kv: "hk \<or> key_valid c" and ins: "fst (g301_install_write_key env ?d)"
    using assms(2) by (auto simp: begin_result begin_possible_def install_write_key_result)
  have res: "snd (g301_init_begin env c hk True t True) =
      (snd (g301_install_write_key env ?d))\<lparr>phase := G301_PHASE_MANIFEST_PENDING,
        payload_started := False, decrypt_tag_current := False, needs_reinit := False\<rparr>"
    using kv ins by (cases hk) (simp_all add: g301_init_begin_def Let_def split_beta)
  have "current_key_valid c"
    using ins by (cases hk) (simp_all add: install_write_key_result)
  then have d: "key_wf ?d" using assms(1) by (simp add: key_wf_def)
  have d_fields: "usage_key_valid ?d = usage_key_valid c" "usage_key ?d = usage_key c"
      "current_key ?d = current_key c" "encrypted_records ?d = encrypted_records c"
      "usage_exhausted ?d = usage_exhausted c"
    by simp_all
  note ok = install_write_key_ok [OF d ins, unfolded d_fields]
    install_write_key_counter [OF d ins, unfolded d_fields]
  show "usage_key_valid (snd (g301_init_begin env c hk True t True))"
    and "\<not> current_key_changed (snd (g301_init_begin env c hk True t True))"
    and "\<not> record_reserved (snd (g301_init_begin env c hk True t True))"
    and "usage_key (snd (g301_init_begin env c hk True t True)) = current_key c"
    and "if usage_key_valid c \<and> usage_key c = current_key c
         then encrypted_records (snd (g301_init_begin env c hk True t True)) = encrypted_records c
            \<and> usage_exhausted (snd (g301_init_begin env c hk True t True)) = usage_exhausted c
         else encrypted_records (snd (g301_init_begin env c hk True t True)) = 0
            \<and> \<not> usage_exhausted (snd (g301_init_begin env c hk True t True))"
    using ok unfolding res by (simp_all cong: if_cong)
qed

text \<open>Every other way through leaves the usage bookkeeping alone.\<close>

lemma begin_usage_unchanged:
  assumes "\<not> (hi \<and> e \<and> fst (g301_init_begin env c hk hi t e))"
  shows "usage_key_valid (snd (g301_init_begin env c hk hi t e)) = usage_key_valid c"
    and "usage_key (snd (g301_init_begin env c hk hi t e)) = usage_key c"
    and "encrypted_records (snd (g301_init_begin env c hk hi t e)) = encrypted_records c"
    and "usage_exhausted (snd (g301_init_begin env c hk hi t e)) = usage_exhausted c"
    and "record_reserved (snd (g301_init_begin env c hk hi t e)) = record_reserved c"
    and "current_key_changed (snd (g301_init_begin env c hk hi t e)) = current_key_changed c"
  using assms
  by (auto simp: g301_init_begin_def Let_def split_beta install_write_key_fail
      split: if_splits)


lemma record_wf_no_record:
  "phase c = G301_PHASE_NO_RECORD \<Longrightarrow> \<not> payload_started c \<Longrightarrow> \<not> decrypt_tag_current c
   \<Longrightarrow> record_wf c"
  by (simp add: record_wf_def record_injected_def)

lemma key_wf_begin:
  assumes "key_wf c" "hk \<Longrightarrow> current_key_valid c"
  shows "key_wf (snd (g301_init_begin env c hk hi t e))"
proof (cases "hi \<and> e \<and> fst (g301_init_begin env c hk hi t e)")
  case True
  then have f: "fst (g301_init_begin env c hk True t True)" by auto
  have "current_key_valid c" using f by (simp add: begin_result begin_possible_def)
  then show ?thesis
    using True assms begin_iv_encrypt [OF assms(1) f] by (auto simp: key_wf_def)
next
  case False
  then show ?thesis
    using assms begin_usage_unchanged [OF False] by (auto simp: key_wf_def)
qed

lemma record_wf_begin:
  assumes "key_wf c" "hk \<Longrightarrow> current_key_valid c"
  shows "record_wf (snd (g301_init_begin env c hk hi t e))"
proof (cases "hi \<and> fst (g301_init_begin env c hk hi t e)")
  case True
  then have hi: "hi" and f: "fst (g301_init_begin env c hk True t e)" by auto
  then have "hk \<or> key_valid c" by (simp add: begin_result begin_possible_def)
  then show ?thesis
    using begin_iv [OF f] begin_iv_encrypt [OF assms(1), of env hk t] f hi
    by (cases e) (auto simp: record_wf_def record_open_def record_injected_def)
next
  case False
  then show ?thesis
    using begin_fail [of env c hk hi t e] begin_no_iv [of env c hk t e]
    by (cases hi) (auto intro!: record_wf_no_record)
qed

lemma usage_wf_begin:
  assumes "key_wf c" "usage_wf c"
  shows "usage_wf (snd (g301_init_begin env c hk hi t e))"
proof (cases "hi \<and> e \<and> fst (g301_init_begin env c hk hi t e)")
  case True
  then have f: "fst (g301_init_begin env c hk True t True)" by auto
  show ?thesis
    using True assms(2) begin_iv_encrypt(5) [OF assms(1) f]
    by (auto simp: usage_wf_def split: if_splits)
next
  case False
  then show ?thesis
    using assms(2) begin_usage_unchanged [OF False] by (simp add: usage_wf_def)
qed

text \<open>
  The delegated part as a whole: \<open>commit_ctx\<close> is the context after the inner call and the
  recording of the key, when both succeed.
\<close>

definition commit_ctx ::
  "crypto_env \<Rightarrow> ('a, 'i, 'h) G301_CIPHER_CTX \<Rightarrow> bytes option \<Rightarrow> bytes option
   \<Rightarrow> ossl_params \<Rightarrow> bool \<Rightarrow> ('a, 'i, 'h) G301_CIPHER_CTX" where
  "commit_ctx env c k iv fp e =
     (let c1 = c\<lparr>inner := snd (init (ops c) (inner c) k iv e fp)\<rparr>
      in case k of None \<Rightarrow> c1 | Some kb \<Rightarrow> snd (g301_record_current_key env c1 kb))"

definition commit_delegated ::
  "crypto_env \<Rightarrow> ('a, 'i, 'h) G301_CIPHER_CTX \<Rightarrow> bytes option \<Rightarrow> bytes option
   \<Rightarrow> ossl_params \<Rightarrow> bool \<Rightarrow> bool" where
  "commit_delegated env c k iv fp e \<longleftrightarrow>
     fst (init (ops c) (inner c) k iv e fp) \<and> (k \<noteq> None \<longrightarrow> record_key_write_lock env)"

lemma commit_ctx_frame [simp, frame_simps]:
  "ops (commit_ctx env c k iv fp e) = ops c"
  "inner (commit_ctx env c k iv fp e) = snd (init (ops c) (inner c) k iv e fp)"
  "core_new_error (commit_ctx env c k iv fp e) = core_new_error c"
  "core_set_error_debug (commit_ctx env c k iv fp e) = core_set_error_debug c"
  "core_vset_error (commit_ctx env c k iv fp e) = core_vset_error c"
  "record_limit (commit_ctx env c k iv fp e) = record_limit c"
  "needs_reinit (commit_ctx env c k iv fp e) = needs_reinit c"
  "key_valid (commit_ctx env c k iv fp e) = key_valid c"
  "usage_key_valid (commit_ctx env c k iv fp e) = usage_key_valid c"
  "usage_key (commit_ctx env c k iv fp e) = usage_key c"
  "encrypted_records (commit_ctx env c k iv fp e) = encrypted_records c"
  "usage_exhausted (commit_ctx env c k iv fp e) = usage_exhausted c"
  "record_reserved (commit_ctx env c k iv fp e) = record_reserved c"
  by (simp_all add: commit_ctx_def Let_def split: option.split)

lemma commit_delegates:
  assumes "commit_delegated env c k iv fp e"
  shows "g301_init_commit env c k iv fp t e =
     g301_init_begin env (commit_ctx env c k iv fp e) (k \<noteq> None) (iv \<noteq> None) t e"
  using assms
  by (simp add: commit_delegated_def commit_ctx_def g301_init_commit_def Let_def split_beta
      split: option.split)

lemma commit_refused:
  assumes "\<not> commit_delegated env c k iv fp e"
  shows "\<not> fst (g301_init_commit env c k iv fp t e)"
    and "\<exists>d. (d = c\<lparr>inner := snd (init (ops c) (inner c) k iv e fp)\<rparr>
               \<or> d = c\<lparr>inner := snd (init (ops c) (inner c) k iv e fp), key_valid := False\<rparr>)
           \<and> (snd (g301_init_commit env c k iv fp t e) = g301_invalidate_record (g301_poison d)
            \<or> snd (g301_init_commit env c k iv fp t e) =
                g301_raise_error (g301_invalidate_record (g301_poison d)) G301_R_INTERNAL_ERROR)"
proof -
  show "\<not> fst (g301_init_commit env c k iv fp t e)"
    using assms
    by (auto simp: commit_delegated_def g301_init_commit_def Let_def split_beta split: option.split)
  show "\<exists>d. (d = c\<lparr>inner := snd (init (ops c) (inner c) k iv e fp)\<rparr>
               \<or> d = c\<lparr>inner := snd (init (ops c) (inner c) k iv e fp), key_valid := False\<rparr>)
           \<and> (snd (g301_init_commit env c k iv fp t e) = g301_invalidate_record (g301_poison d)
            \<or> snd (g301_init_commit env c k iv fp t e) =
                g301_raise_error (g301_invalidate_record (g301_poison d)) G301_R_INTERNAL_ERROR)"
  proof (cases "fst (init (ops c) (inner c) k iv e fp)")
    case True
    with assms obtain kb where "k = Some kb" "\<not> record_key_write_lock env"
      by (auto simp: commit_delegated_def)
    with True show ?thesis
      by (intro exI [of _ "c\<lparr>inner := snd (init (ops c) (inner c) k iv e fp)\<rparr>"])
         (simp add: g301_init_commit_def Let_def split_beta record_current_key_fail)
  next
    case False
    then show ?thesis
      by (cases k) (auto simp: g301_init_commit_def Let_def split_beta)
  qed
qed


lemma key_wf_commit_ctx:
  assumes "key_wf c" "commit_delegated env c k iv fp e" "\<And>kb. k = Some kb \<Longrightarrow> 32 \<le> length kb"
  shows "key_wf (commit_ctx env c k iv fp e)"
    and "k \<noteq> None \<Longrightarrow> current_key_valid (commit_ctx env c k iv fp e)"
  using assms
  by (auto simp: commit_ctx_def commit_delegated_def Let_def
      intro!: key_wf_record_current_key record_current_key_ok(2) split: option.split)

lemma commit_preserves:
  assumes "key_wf c" "\<And>kb. k = Some kb \<Longrightarrow> 32 \<le> length kb"
  shows "ctx_wf (snd (g301_init_commit env c k iv fp t e))"
    and "usage_wf c \<Longrightarrow> usage_wf (snd (g301_init_commit env c k iv fp t e))"
proof -
  have both: "ctx_wf (snd (g301_init_commit env c k iv fp t e))
      \<and> (usage_wf c \<longrightarrow> usage_wf (snd (g301_init_commit env c k iv fp t e)))"
  proof (cases "commit_delegated env c k iv fp e")
    case True
    note wf = key_wf_commit_ctx [OF assms(1) True assms(2)]
    have u: "usage_wf c \<Longrightarrow> usage_wf (commit_ctx env c k iv fp e)" by (simp add: usage_wf_def)
    show ?thesis
      unfolding commit_delegates [OF True] ctx_wf_def
      using key_wf_begin [OF wf] record_wf_begin [OF wf] usage_wf_begin [OF wf(1)] u by blast
  next
    case False
    have d: "key_wf (c\<lparr>inner := i, key_valid := False\<rparr>)"
      "usage_wf (c\<lparr>inner := i, key_valid := False\<rparr>) = usage_wf c" for i
      using assms(1) by (simp_all add: key_wf_def usage_wf_def)
    from commit_refused(2) [OF False, of t] show ?thesis
      by (elim exE conjE disjE) (simp_all add: assms(1) d)
  qed
  then show "ctx_wf (snd (g301_init_commit env c k iv fp t e))"
    and "usage_wf c \<Longrightarrow> usage_wf (snd (g301_init_commit env c k iv fp t e))"
    by simp_all
qed

lemma commit_frame [simp, frame_simps]:
  "ops (snd (g301_init_commit env c k iv fp t e)) = ops c"
  "core_new_error (snd (g301_init_commit env c k iv fp t e)) = core_new_error c"
  "core_set_error_debug (snd (g301_init_commit env c k iv fp t e)) = core_set_error_debug c"
  "core_vset_error (snd (g301_init_commit env c k iv fp t e)) = core_vset_error c"
  "record_limit (snd (g301_init_commit env c k iv fp t e)) = record_limit c"
  "inner (snd (g301_init_commit env c k iv fp t e)) = snd (init (ops c) (inner c) k iv e fp)"
proof -
  have "ops (snd (g301_init_commit env c k iv fp t e)) = ops c
    \<and> core_new_error (snd (g301_init_commit env c k iv fp t e)) = core_new_error c
    \<and> core_set_error_debug (snd (g301_init_commit env c k iv fp t e)) = core_set_error_debug c
    \<and> core_vset_error (snd (g301_init_commit env c k iv fp t e)) = core_vset_error c
    \<and> record_limit (snd (g301_init_commit env c k iv fp t e)) = record_limit c
    \<and> inner (snd (g301_init_commit env c k iv fp t e)) = snd (init (ops c) (inner c) k iv e fp)"
  proof (cases "commit_delegated env c k iv fp e")
    case True
    then show ?thesis by (simp add: commit_delegates)
  next
    case False
    from commit_refused(2) [OF False, of t] show ?thesis
      by (elim exE conjE disjE) simp_all
  qed
  then show "ops (snd (g301_init_commit env c k iv fp t e)) = ops c"
    "core_new_error (snd (g301_init_commit env c k iv fp t e)) = core_new_error c"
    "core_set_error_debug (snd (g301_init_commit env c k iv fp t e)) = core_set_error_debug c"
    "core_vset_error (snd (g301_init_commit env c k iv fp t e)) = core_vset_error c"
    "record_limit (snd (g301_init_commit env c k iv fp t e)) = record_limit c"
    "inner (snd (g301_init_commit env c k iv fp t e)) = snd (init (ops c) (inner c) k iv e fp)"
    by simp_all
qed

lemma commit_fail:
  assumes "\<not> fst (g301_init_commit env c k iv fp t e)"
  shows "phase (snd (g301_init_commit env c k iv fp t e)) = G301_PHASE_NO_RECORD
    \<and> needs_reinit (snd (g301_init_commit env c k iv fp t e))"
proof (cases "commit_delegated env c k iv fp e")
  case True
  note eq = commit_delegates [OF True, of t]
  show ?thesis
    unfolding eq using begin_fail(1,2) [OF assms [unfolded eq]] by simp
next
  case False
  from commit_refused(2) [OF False, of t] show ?thesis
    by (elim exE conjE disjE) simp_all
qed

lemma commit_ok_delegated:
  "fst (g301_init_commit env c k iv fp t e) \<Longrightarrow> commit_delegated env c k iv fp e"
  using commit_refused(1) by blast

lemma commit_ok_no_iv:
  assumes "fst (g301_init_commit env c k None fp t e)"
  shows "phase (snd (g301_init_commit env c k None fp t e)) = G301_PHASE_NO_RECORD"
    and "needs_reinit (snd (g301_init_commit env c k None fp t e)) = needs_reinit c"
  using commit_delegates [OF commit_ok_delegated [OF assms]]
    begin_no_iv [of env "commit_ctx env c k None fp e" "k \<noteq> None" t e]
  by simp_all

lemma commit_ok_iv:
  assumes "fst (g301_init_commit env c k (Some iv) fp t e)"
  shows "phase (snd (g301_init_commit env c k (Some iv) fp t e)) = G301_PHASE_MANIFEST_PENDING"
    and "\<not> needs_reinit (snd (g301_init_commit env c k (Some iv) fp t e))"
    and "\<not> payload_started (snd (g301_init_commit env c k (Some iv) fp t e))"
    and "decrypt_tag_current (snd (g301_init_commit env c k (Some iv) fp t e)) = (\<not> e \<and> t)"
    and "encrypting (snd (g301_init_commit env c k (Some iv) fp t e)) = e"
proof -
  note eq = commit_delegates [OF commit_ok_delegated [OF assms], of t]
  have "fst (g301_init_begin env (commit_ctx env c k (Some iv) fp e) (k \<noteq> None) True t e)"
    using assms unfolding eq by simp
  note b = begin_iv [OF this]
  show "phase (snd (g301_init_commit env c k (Some iv) fp t e)) = G301_PHASE_MANIFEST_PENDING"
    and "\<not> needs_reinit (snd (g301_init_commit env c k (Some iv) fp t e))"
    and "\<not> payload_started (snd (g301_init_commit env c k (Some iv) fp t e))"
    and "decrypt_tag_current (snd (g301_init_commit env c k (Some iv) fp t e)) = (\<not> e \<and> t)"
    and "encrypting (snd (g301_init_commit env c k (Some iv) fp t e)) = e"
    unfolding eq using b by simp_all
qed


section \<open>Initialisation as a whole\<close>

text \<open>The context an accepted call delegates from: a new key or direction drops the record.\<close>

definition init_entry_ctx ::
  "('a, 'i, 'h) G301_CIPHER_CTX \<Rightarrow> bool \<Rightarrow> bool \<Rightarrow> bool \<Rightarrow> ('a, 'i, 'h) G301_CIPHER_CTX" where
  "init_entry_ctx c has_tag has_key change =
     (let c1 = (if has_tag then c\<lparr>decrypt_tag_current := False\<rparr> else c);
          c2 = (if change \<or> has_key then g301_invalidate_record c1 else c1)
      in if has_key then c2\<lparr>key_valid := False\<rparr> else c2)"

definition init_reject_reason ::
  "ossl_param_api \<Rightarrow> ('a, 'i, 'h) G301_CIPHER_CTX \<Rightarrow> bytes option \<Rightarrow> size \<Rightarrow> bytes option \<Rightarrow> size
   \<Rightarrow> ossl_params option \<Rightarrow> bool \<Rightarrow> nat" where
  "init_reject_reason api c k keylen iv ivlen params encrypt =
     (if init_lengths_ok k keylen iv ivlen \<and> init_params_ok api c k iv params encrypt
      then G301_R_INVALID_STATE else G301_R_INVALID_PARAMETER)"

lemma init_entry_frame [simp, frame_simps]:
  "ops (init_entry_ctx c t hk ch) = ops c"
  "inner (init_entry_ctx c t hk ch) = inner c"
  "handle (init_entry_ctx c t hk ch) = handle c"
  "core_new_error (init_entry_ctx c t hk ch) = core_new_error c"
  "core_set_error_debug (init_entry_ctx c t hk ch) = core_set_error_debug c"
  "core_vset_error (init_entry_ctx c t hk ch) = core_vset_error c"
  "needs_reinit (init_entry_ctx c t hk ch) = needs_reinit c"
  "record_limit (init_entry_ctx c t hk ch) = record_limit c"
  "key_valid (init_entry_ctx c t hk ch) = (\<not> hk \<and> key_valid c)"
  "usage_key_valid (init_entry_ctx c t hk ch) = usage_key_valid c"
  "usage_key (init_entry_ctx c t hk ch) = usage_key c"
  "current_key (init_entry_ctx c t hk ch) = current_key c"
  "encrypted_records (init_entry_ctx c t hk ch) = encrypted_records c"
  "usage_exhausted (init_entry_ctx c t hk ch) = usage_exhausted c"
  "record_reserved (init_entry_ctx c t hk ch) = record_reserved c"
  by (simp_all add: init_entry_ctx_def Let_def)

lemma init_entry_key_wf: "key_wf c \<Longrightarrow> key_wf (init_entry_ctx c t hk ch)"
  by (simp add: key_wf_def init_entry_ctx_def Let_def)

lemma init_entry_usage_wf [simp]: "usage_wf (init_entry_ctx c t hk ch) = usage_wf c"
  by (simp add: usage_wf_def)

lemma init_rejected_frame [simp, frame_simps]:
  "ops (init_rejected_ctx c t hk ch) = ops c"
  "inner (init_rejected_ctx c t hk ch) = inner c"
  "core_new_error (init_rejected_ctx c t hk ch) = core_new_error c"
  "core_set_error_debug (init_rejected_ctx c t hk ch) = core_set_error_debug c"
  "core_vset_error (init_rejected_ctx c t hk ch) = core_vset_error c"
  "encrypting (init_rejected_ctx c t hk ch) = encrypting c"
  "direction_set (init_rejected_ctx c t hk ch) = direction_set c"
  "key_valid (init_rejected_ctx c t hk ch) = key_valid c"
  "needs_reinit (init_rejected_ctx c t hk ch) = needs_reinit c"
  "current_key (init_rejected_ctx c t hk ch) = current_key c"
  "usage_key (init_rejected_ctx c t hk ch) = usage_key c"
  "usage_key_valid (init_rejected_ctx c t hk ch) = usage_key_valid c"
  "encrypted_records (init_rejected_ctx c t hk ch) = encrypted_records c"
  "usage_exhausted (init_rejected_ctx c t hk ch) = usage_exhausted c"
  "record_limit (init_rejected_ctx c t hk ch) = record_limit c"
  "record_reserved (init_rejected_ctx c t hk ch) = record_reserved c"
  "phase (init_rejected_ctx c t hk ch) =
     (if t \<and> (hk \<or> ch) then G301_PHASE_NO_RECORD else phase c)"
  by (simp_all add: init_rejected_ctx_def)

lemma init_rejected_wf [simp]:
  "ctx_wf c \<Longrightarrow> ctx_wf (init_rejected_ctx c t hk ch)"
  "usage_wf (init_rejected_ctx c t hk ch) = usage_wf c"
  by (simp_all add: init_rejected_ctx_def ctx_wf_def)

lemma g301_init_None [simp]:
  "g301_init api env None k keylen iv ivlen params encrypt = (False, None)"
  by (simp add: g301_init_def)

lemma g301_init_accepted:
  assumes "init_accepts api c k keylen iv ivlen params encrypt"
  shows "g301_init api env (Some c) k keylen iv ivlen params encrypt =
     map_prod id Some
       (g301_init_commit env
          (init_entry_ctx c (init_has_tag api params) (k \<noteq> None) (direction_change c encrypt)) k iv
          (filtered_init_params api (locate_opt api params OSSL_CIPHER_PARAM_IVLEN)
             (locate_opt api params OSSL_CIPHER_PARAM_AEAD_TAG))
          (init_has_tag api params) encrypt)"
proof -
  have l: "init_lengths_ok k keylen iv ivlen" and p: "init_params_ok api c k iv params encrypt"
    and s: "init_state_ok c k iv (init_has_tag api params)"
    using assms by (simp_all add: init_accepts_def)
  have s': "\<not> (init_has_tag api params \<and> \<not> init_state_ok c k iv True)"
    using s by (auto simp: init_state_ok_def)
  show ?thesis
    unfolding g301_init_unfold Let_def using l p s s'
    by (cases "init_has_tag api params") (simp_all add: init_entry_ctx_def Let_def)
qed

lemma g301_init_rejected:
  assumes "record_wf c" "\<not> init_accepts api c k keylen iv ivlen params encrypt"
  shows "g301_init api env (Some c) k keylen iv ivlen params encrypt =
     (False, Some (g301_raise_error
        (init_rejected_ctx c (init_has_tag api params) (k \<noteq> None) (direction_change c encrypt))
        (init_reject_reason api c k keylen iv ivlen params encrypt)))"
proof (cases "init_lengths_ok k keylen iv ivlen \<and> init_params_ok api c k iv params encrypt")
  case True
  with assms(2) have s: "\<not> init_state_ok c k iv (init_has_tag api params)"
    by (simp add: init_accepts_def)
  show ?thesis
  proof (cases "init_has_tag api params")
    case tag: True
    then show ?thesis
      using True s by (simp add: g301_init_unfold Let_def init_reject_reason_def)
  next
    case False
    then have "\<not> key_valid c" and "k = None" using s by (auto simp: init_state_ok_def)
    then have "c\<lparr>decrypt_tag_current := False\<rparr> = c"
      using no_key_no_tag [OF assms(1)] clear_tag_unset by blast
    then show ?thesis
      using True s False
      by (simp add: g301_init_unfold Let_def init_reject_reason_def init_rejected_ctx_def)
  qed
next
  case False
  then show ?thesis
    by (auto simp: g301_init_unfold Let_def init_reject_reason_def)
qed

text \<open>Both kinds of outcome in one: what every call of \<open>g301_init\<close> keeps.\<close>

lemma g301_init_preserves:
  assumes "ctx_wf c" "\<And>kb. k = Some kb \<Longrightarrow> unat keylen \<le> length kb"
    and "g301_init api env (Some c) k keylen iv ivlen params encrypt = (r, Some c')"
  shows "ctx_wf c'" and "usage_wf c \<Longrightarrow> usage_wf c'"
proof -
  have wf: "key_wf c" "record_wf c" using assms(1) by (simp_all add: ctx_wf_def)
  have "ctx_wf c' \<and> (usage_wf c \<longrightarrow> usage_wf c')"
  proof (cases "init_accepts api c k keylen iv ivlen params encrypt")
    case True
    have k: "32 \<le> length kb" if "k = Some kb" for kb
      using True assms(2) [OF that] that by (simp add: init_accepts_def init_lengths_ok_def)
    show ?thesis
      using assms(3) commit_preserves [OF init_entry_key_wf [OF wf(1)] k]
      unfolding g301_init_accepted [OF True] by (auto simp: map_prod_def split_beta)
  next
    case False
    show ?thesis
      using assms(1,3) unfolding g301_init_rejected [OF wf(2) False] by auto
  qed
  then show "ctx_wf c'" and "usage_wf c \<Longrightarrow> usage_wf c'" by simp_all
qed

lemma g301_init_Some:
  "\<exists>r c'. g301_init api env (Some c) k keylen iv ivlen params encrypt = (r, Some c')"
  unfolding g301_init_unfold Let_def map_prod_def split_beta
  by (auto split: if_split)

text \<open>The two outcomes as rules about the result of a call.\<close>

definition accepted_commit ::
  "ossl_param_api \<Rightarrow> crypto_env \<Rightarrow> ('a, 'i, 'h) G301_CIPHER_CTX \<Rightarrow> bytes option \<Rightarrow> bytes option
   \<Rightarrow> ossl_params option \<Rightarrow> bool \<Rightarrow> bool \<times> ('a, 'i, 'h) G301_CIPHER_CTX" where
  "accepted_commit api env c k iv params e =
     g301_init_commit env
       (init_entry_ctx c (init_has_tag api params) (k \<noteq> None) (direction_change c e)) k iv
       (filtered_init_params api (locate_opt api params OSSL_CIPHER_PARAM_IVLEN)
          (locate_opt api params OSSL_CIPHER_PARAM_AEAD_TAG))
       (init_has_tag api params) e"

lemma init_acceptedD:
  assumes "g301_init api env (Some c) k keylen iv ivlen params e = (r, Some c')"
    and "init_accepts api c k keylen iv ivlen params e"
  shows "r = fst (accepted_commit api env c k iv params e)"
    and "c' = snd (accepted_commit api env c k iv params e)"
  using assms(1) unfolding g301_init_accepted [OF assms(2)] accepted_commit_def
  by (simp_all add: map_prod_def split_beta)

lemma init_rejectedD:
  assumes "g301_init api env (Some c) k keylen iv ivlen params e = (r, Some c')"
    and "\<not> init_accepts api c k keylen iv ivlen params e" "record_wf c"
  shows "\<not> r"
    and "c' = g301_raise_error
       (init_rejected_ctx c (init_has_tag api params) (k \<noteq> None) (direction_change c e))
       (init_reject_reason api c k keylen iv ivlen params e)"
  using assms(1) unfolding g301_init_rejected [OF assms(3,2)] by auto

lemma accepted_key_length:
  assumes "init_accepts api c k keylen iv ivlen params e"
    and "\<And>kb. k = Some kb \<Longrightarrow> unat keylen \<le> length kb" "k = Some kb"
  shows "32 \<le> length kb"
  using assms(1) assms(2) [OF assms(3)] assms(3) by (simp add: init_accepts_def init_lengths_ok_def)

end
