(* ===== verification/Cipher_Stream.thy ===== *)
theory Cipher_Stream
  imports Cipher_Init
begin

text \<open>
  The record operations of g301_cipher.c: manifest injection, \<open>update\<close> and \<open>final\<close>. The
  lemmas say what each path does to the context and to the inner cipher, and that the
  context invariants are kept.
\<close>

section \<open>Injecting the manifest\<close>

definition g301_inject_manifest ::
  "crypto_env \<Rightarrow> ('a, 'i, 'h) G301_CIPHER_CTX \<Rightarrow> bool \<times> ('a, 'i, 'h) G301_CIPHER_CTX" where
  "g301_inject_manifest env ctx =
     (if phase ctx \<noteq> G301_PHASE_MANIFEST_PENDING
      then (phase ctx = G301_PHASE_ACTIVE, ctx)
      else
        let (reserved, ctx) =
              (if encrypting ctx then g301_reserve_encryption_record env ctx else (True, ctx)) in
        if \<not> reserved then (False, ctx)
        else
          let (ok, i, out, inner_outl) =
                update (ops ctx) (inner ctx) None 0 (Some g301_manifest) (ucast G301_MANIFEST_LENGTH);
              ctx = ctx\<lparr>inner := i\<rparr> in
          if \<not> ok then (False, g301_poison ctx)
          else if inner_outl \<noteq> ucast G301_MANIFEST_LENGTH
          then (False, g301_raise_error (g301_poison ctx) G301_R_INTERNAL_ERROR)
          else (True, ctx\<lparr>phase := G301_PHASE_ACTIVE\<rparr>))"

section \<open>Update\<close>

text \<open>
  The result is the return value, the context, the output buffer and \<open>*outl\<close>. \<open>in_buf\<close> is
  the pointer \<open>in\<close>; \<open>out'\<close> is what the buffer holds after the inner call. The last of the three length tests is the source's; after the first two
  it can only fail on a 32-bit \<open>size_t\<close>.
\<close>

definition g301_cipher_update ::
  "crypto_env \<Rightarrow> ('a, 'i, 'h) G301_CIPHER_CTX option \<Rightarrow> bytes option \<Rightarrow> size option \<Rightarrow> size
   \<Rightarrow> bytes option \<Rightarrow> size
   \<Rightarrow> bool \<times> ('a, 'i, 'h) G301_CIPHER_CTX option \<times> bytes option \<times> size option" where
  "g301_cipher_update env vctx out outl outsize in_buf inl =
     (if outl = None then (False, vctx, out, outl)
      else
     (case vctx of None \<Rightarrow> (False, None, out, Some 0)
      | Some ctx \<Rightarrow>
      if needs_reinit ctx \<or> phase ctx = G301_PHASE_NO_RECORD \<or> phase ctx = G301_PHASE_FINALIZED
      then (False, Some (g301_raise_error ctx G301_R_INVALID_STATE), out, Some 0)
      else if in_buf = None \<and> inl \<noteq> 0 \<or> uint inl > INT_MAX
      then (False, Some (g301_raise_error ctx G301_R_INVALID_PARAMETER), out, Some 0)
      else if inl = 0 then (True, Some ctx, out, Some 0)
      else if out \<noteq> None \<and> outsize < inl
      then (False, Some (g301_raise_error ctx G301_R_OUTPUT_BUFFER_TOO_SMALL), out, Some 0)
      else if out = None \<and> payload_started ctx
      then (False, Some (g301_raise_error ctx G301_R_INVALID_STATE), out, Some 0)
      else
        let inlen = ucast inl :: cint;
            (injected, ctx) = g301_inject_manifest env ctx in
        if \<not> injected then (False, Some ctx, out, Some 0)
        else
          let (ok, i, out', inner_outl) = update (ops ctx) (inner ctx) out 0 in_buf inlen;
              ctx = ctx\<lparr>inner := i\<rparr> in
          if \<not> ok then (False, Some (g301_poison ctx), out', Some 0)
          else if sint inner_outl < 0 \<or> inner_outl \<noteq> inlen
                \<or> out \<noteq> None \<and> scast inner_outl > outsize
          then (False, Some (g301_raise_error (g301_poison ctx) G301_R_INTERNAL_ERROR), out', Some 0)
          else
            let ctx = (if out \<noteq> None then ctx\<lparr>payload_started := True\<rparr> else ctx)
            in (True, Some ctx, out', Some inl)))"

section \<open>Final\<close>

text \<open>
  \<open>final\<close> ignores the caller's output buffer; the inner cipher gets a private zeroed one of
  \<open>EVP_MAX_BLOCK_LENGTH\<close> (32) bytes that is cleansed whatever happens.
\<close>

definition g301_cipher_final ::
  "crypto_env \<Rightarrow> ('a, 'i, 'h) G301_CIPHER_CTX option \<Rightarrow> bytes option \<Rightarrow> size option \<Rightarrow> size
   \<Rightarrow> bool \<times> ('a, 'i, 'h) G301_CIPHER_CTX option \<times> size option" where
  "g301_cipher_final env vctx out outl outsize =
     (case vctx of None \<Rightarrow> (False, None, outl)
      | Some ctx \<Rightarrow>
      if outl = None then
        let ctx = (if \<not> needs_reinit ctx
                      \<and> (phase ctx = G301_PHASE_MANIFEST_PENDING \<or> phase ctx = G301_PHASE_ACTIVE)
                   then g301_poison ctx else ctx)
        in (False, Some (g301_raise_error ctx G301_R_INVALID_PARAMETER), None)
      else if needs_reinit ctx \<or> phase ctx = G301_PHASE_NO_RECORD
            \<or> phase ctx = G301_PHASE_FINALIZED
      then (False, Some (g301_raise_error ctx G301_R_INVALID_STATE), Some 0)
      else if \<not> encrypting ctx \<and> \<not> decrypt_tag_current ctx
      then (False, Some (g301_raise_error (g301_poison ctx) G301_R_INVALID_STATE), Some 0)
      else
        let (injected, ctx) = g301_inject_manifest env ctx in
        if \<not> injected then (False, Some ctx, Some 0)
        else
          let ctx = ctx\<lparr>decrypt_tag_current := False\<rparr>;
              (ok, i, private_out, inner_outl) =
                final (ops ctx) (inner ctx) (Some (replicate 32 0)) 0;
              ctx = ctx\<lparr>inner := i\<rparr> in
          if \<not> ok then (False, Some (g301_poison ctx), Some 0)
          else if inner_outl \<noteq> 0
          then (False, Some (g301_raise_error (g301_poison ctx) G301_R_INTERNAL_ERROR), Some 0)
          else (True, Some (ctx\<lparr>phase := G301_PHASE_FINALIZED\<rparr>), Some 0))"

section \<open>The paths of the injection\<close>

text \<open>The context whose inner cipher receives the manifest, and what that call returns.\<close>

definition reserve_ok :: "crypto_env \<Rightarrow> ('a, 'i, 'h) G301_CIPHER_CTX \<Rightarrow> bool" where
  "reserve_ok env c \<longleftrightarrow> (encrypting c \<longrightarrow> fst (g301_reserve_encryption_record env c))"

definition reserved_ctx :: "crypto_env \<Rightarrow> ('a, 'i, 'h) G301_CIPHER_CTX \<Rightarrow> ('a, 'i, 'h) G301_CIPHER_CTX" where
  "reserved_ctx env c = (if encrypting c then snd (g301_reserve_encryption_record env c) else c)"

definition manifest_update :: "('a, 'i, 'h) G301_CIPHER_CTX \<Rightarrow> bool \<times> 'i \<times> bytes option \<times> cint" where
  "manifest_update c = update (ops c) (inner c) None 0 (Some g301_manifest) 32"

definition manifest_taken :: "('a, 'i, 'h) G301_CIPHER_CTX \<Rightarrow> bool" where
  "manifest_taken c \<longleftrightarrow> fst (manifest_update c) \<and> snd (snd (snd (manifest_update c))) = 32"

definition after_manifest :: "crypto_env \<Rightarrow> ('a, 'i, 'h) G301_CIPHER_CTX \<Rightarrow> ('a, 'i, 'h) G301_CIPHER_CTX" where
  "after_manifest env c = (reserved_ctx env c)\<lparr>inner := fst (snd (manifest_update c))\<rparr>"

lemma ucast_manifest_length: "(ucast G301_MANIFEST_LENGTH :: cint) = 32"
  by (simp add: G301_MANIFEST_LENGTH_def)

lemma reserved_ctx_frame [simp, frame_simps]:
  "ops (reserved_ctx env c) = ops c"
  "inner (reserved_ctx env c) = inner c"
  "core_new_error (reserved_ctx env c) = core_new_error c"
  "core_set_error_debug (reserved_ctx env c) = core_set_error_debug c"
  "core_vset_error (reserved_ctx env c) = core_vset_error c"
  "encrypting (reserved_ctx env c) = encrypting c"
  "direction_set (reserved_ctx env c) = direction_set c"
  "key_valid (reserved_ctx env c) = key_valid c"
  "current_key (reserved_ctx env c) = current_key c"
  "usage_key (reserved_ctx env c) = usage_key c"
  "record_limit (reserved_ctx env c) = record_limit c"
  "current_key_valid (reserved_ctx env c) = current_key_valid c"
  "current_key_changed (reserved_ctx env c) = current_key_changed c"
  "usage_key_valid (reserved_ctx env c) = usage_key_valid c"
  by (simp_all add: reserved_ctx_def)

lemma reserved_ctx_ok:
  assumes "reserve_ok env c"
  shows "phase (reserved_ctx env c) = phase c"
    and "needs_reinit (reserved_ctx env c) = needs_reinit c"
    and "payload_started (reserved_ctx env c) = payload_started c"
    and "decrypt_tag_current (reserved_ctx env c) = decrypt_tag_current c"
    and "encrypting c \<Longrightarrow> record_reserved (reserved_ctx env c)"
  using assms reserve_ok_frame [of env c] by (auto simp: reserved_ctx_def reserve_ok_def)

text \<open>A pending record with its reservation: the inner call and its check.\<close>

lemma inject_path:
  assumes "phase c = G301_PHASE_MANIFEST_PENDING" "reserve_ok env c"
  shows "g301_inject_manifest env c =
        (if \<not> fst (manifest_update c) then (False, g301_poison (after_manifest env c))
         else if snd (snd (snd (manifest_update c))) \<noteq> 32
         then (False, g301_raise_error (g301_poison (after_manifest env c)) G301_R_INTERNAL_ERROR)
         else (True, (after_manifest env c)\<lparr>phase := G301_PHASE_ACTIVE\<rparr>))"
proof -
  have "update (ops (reserved_ctx env c)) (inner (reserved_ctx env c)) None 0
      (Some g301_manifest) (ucast G301_MANIFEST_LENGTH) = manifest_update c"
    by (simp add: manifest_update_def ucast_manifest_length)
  then show ?thesis
    using assms
    by (simp add: g301_inject_manifest_def reserve_ok_def reserved_ctx_def after_manifest_def
        split_beta Let_def ucast_manifest_length cong: if_cong)
qed

lemma inject_cases:
  obtains
    (idle) "phase c \<noteq> G301_PHASE_MANIFEST_PENDING"
      "g301_inject_manifest env c = (phase c = G301_PHASE_ACTIVE, c)"
  | (refused) "phase c = G301_PHASE_MANIFEST_PENDING" "encrypting c"
      "\<not> fst (g301_reserve_encryption_record env c)"
      "g301_inject_manifest env c = (False, snd (g301_reserve_encryption_record env c))"
  | (failed) "phase c = G301_PHASE_MANIFEST_PENDING" "reserve_ok env c" "\<not> manifest_taken c"
      "g301_inject_manifest env c = (False, g301_poison (after_manifest env c))
       \<or> g301_inject_manifest env c =
           (False, g301_raise_error (g301_poison (after_manifest env c)) G301_R_INTERNAL_ERROR)"
  | (injected) "phase c = G301_PHASE_MANIFEST_PENDING" "reserve_ok env c" "manifest_taken c"
      "g301_inject_manifest env c =
         (True, (after_manifest env c)\<lparr>phase := G301_PHASE_ACTIVE\<rparr>)"
proof (cases "phase c = G301_PHASE_MANIFEST_PENDING")
  case False
  then show ?thesis by (intro idle) (simp_all add: g301_inject_manifest_def)
next
  case pending: True
  show ?thesis
  proof (cases "reserve_ok env c")
    case False
    then show ?thesis using pending
      by (intro refused) (simp_all add: reserve_ok_def g301_inject_manifest_def split_beta)
  next
    case ok: True
    note eq = inject_path [OF pending ok]
    show ?thesis
    proof (cases "manifest_taken c")
      case True
      then show ?thesis using pending ok eq by (intro injected) (simp_all add: manifest_taken_def)
    next
      case False
      then show ?thesis using pending ok eq by (intro failed) (auto simp: manifest_taken_def)
    qed
  qed
qed

lemma inject_frame [simp, frame_simps]:
  "ops (snd (g301_inject_manifest env c)) = ops c"
  "core_new_error (snd (g301_inject_manifest env c)) = core_new_error c"
  "core_set_error_debug (snd (g301_inject_manifest env c)) = core_set_error_debug c"
  "core_vset_error (snd (g301_inject_manifest env c)) = core_vset_error c"
  "encrypting (snd (g301_inject_manifest env c)) = encrypting c"
  "direction_set (snd (g301_inject_manifest env c)) = direction_set c"
  "key_valid (snd (g301_inject_manifest env c)) = key_valid c"
  "current_key (snd (g301_inject_manifest env c)) = current_key c"
  "usage_key (snd (g301_inject_manifest env c)) = usage_key c"
  "record_limit (snd (g301_inject_manifest env c)) = record_limit c"
  "current_key_valid (snd (g301_inject_manifest env c)) = current_key_valid c"
  "current_key_changed (snd (g301_inject_manifest env c)) = current_key_changed c"
  "usage_key_valid (snd (g301_inject_manifest env c)) = usage_key_valid c"
  by (cases rule: inject_cases [of c env]; auto simp: after_manifest_def)+


lemma inject_ok:
  assumes "fst (g301_inject_manifest env c)"
  shows "phase (snd (g301_inject_manifest env c)) = G301_PHASE_ACTIVE
    \<and> needs_reinit (snd (g301_inject_manifest env c)) = needs_reinit c
    \<and> payload_started (snd (g301_inject_manifest env c)) = payload_started c
    \<and> decrypt_tag_current (snd (g301_inject_manifest env c)) = decrypt_tag_current c"
  using assms
  by (cases rule: inject_cases [of c env]) (auto simp: after_manifest_def reserved_ctx_ok)

text \<open>A refused or failed injection leaves a poisoned context without a current tag.\<close>

lemma inject_fail:
  assumes "\<not> fst (g301_inject_manifest env c)" "record_open c"
  shows "needs_reinit (snd (g301_inject_manifest env c))
    \<and> \<not> decrypt_tag_current (snd (g301_inject_manifest env c))"
  using assms
  by (cases rule: inject_cases [of c env]) (auto simp: record_open_def reserve_refuses)

lemma inject_active: "phase c = G301_PHASE_ACTIVE \<Longrightarrow> g301_inject_manifest env c = (True, c)"
  by (simp add: g301_inject_manifest_def)

lemma key_wf_after_manifest [simp]: "key_wf (after_manifest env c) = key_wf c"
  by (simp add: after_manifest_def key_wf_def)

lemma key_wf_inject [simp]: "key_wf (snd (g301_inject_manifest env c)) = key_wf c"
  by (simp add: key_wf_def)

lemma record_wf_inject:
  assumes "record_wf c"
  shows "record_wf (snd (g301_inject_manifest env c))"
proof (cases rule: inject_cases [of c env])
  case idle
  then show ?thesis using assms by simp
next
  case refused
  then show ?thesis using reserve_refuses [OF refused(3)] by (auto intro: record_wf_no_record)
next
  case failed
  have "record_wf (g301_poison (after_manifest env c))"
    using assms failed(1) reserved_ctx_ok [OF failed(2)]
    by (auto simp: record_wf_def record_open_def record_injected_def after_manifest_def)
  then show ?thesis using failed(4) by auto
next
  case injected
  have "\<not> payload_started c" using assms injected(1)
    by (auto simp: record_wf_def record_injected_def)
  then show ?thesis
    using assms injected(1,4) reserved_ctx_ok [OF injected(2)]
    by (auto simp: record_wf_def record_open_def record_injected_def after_manifest_def)
qed

lemma usage_wf_inject:
  assumes "usage_wf c" "atomic_documented env"
  shows "usage_wf (snd (g301_inject_manifest env c))"
proof -
  have r: "usage_wf (reserved_ctx env c)"
    using usage_wf_reserve [OF assms] assms(1) by (simp add: reserved_ctx_def)
  have f: "usage_wf (d\<lparr>phase := p\<rparr>) = usage_wf d" for d :: "('a, 'b, 'c) G301_CIPHER_CTX" and p
    by (simp add: usage_wf_def)
  show ?thesis
    using r usage_wf_reserve [OF assms] assms(1)
    by (cases rule: inject_cases [of c env]) (auto simp: after_manifest_def f)
qed

lemma ctx_wf_inject: "ctx_wf c \<Longrightarrow> ctx_wf (snd (g301_inject_manifest env c))"
  by (simp add: ctx_wf_def record_wf_inject)

text \<open>A successful injection hands the manifest to the inner cipher, once.\<close>

lemma inject_inner:
  "inner (snd (g301_inject_manifest env c)) =
     (if phase c = G301_PHASE_MANIFEST_PENDING \<and> reserve_ok env c
      then fst (snd (manifest_update c)) else inner c)"
  by (cases rule: inject_cases [of c env]) (auto simp: after_manifest_def reserve_ok_def)

section \<open>The paths of update\<close>

text \<open>
  Why a call is refused before the inner cipher is touched, in the order of the source's
  tests; \<open>None\<close> means it is not.
\<close>

definition record_closed :: "('a, 'i, 'h) G301_CIPHER_CTX \<Rightarrow> bool" where
  "record_closed c \<longleftrightarrow> needs_reinit c \<or> \<not> record_open c"

definition update_refusal ::
  "('a, 'i, 'h) G301_CIPHER_CTX \<Rightarrow> bytes option \<Rightarrow> size \<Rightarrow> bytes option \<Rightarrow> size \<Rightarrow> nat option" where
  "update_refusal c out outsize in_buf inl =
     (if record_closed c then Some G301_R_INVALID_STATE
      else if in_buf = None \<and> inl \<noteq> 0 \<or> uint inl > INT_MAX then Some G301_R_INVALID_PARAMETER
      else if inl = 0 then None
      else if out \<noteq> None \<and> outsize < inl then Some G301_R_OUTPUT_BUFFER_TOO_SMALL
      else if out = None \<and> payload_started c then Some G301_R_INVALID_STATE
      else None)"

text \<open>The inner call of an admitted update, on the context with the manifest in.\<close>

definition caller_update ::
  "('a, 'i, 'h) G301_CIPHER_CTX \<Rightarrow> bytes option \<Rightarrow> bytes option \<Rightarrow> size
   \<Rightarrow> bool \<times> 'i \<times> bytes option \<times> cint" where
  "caller_update d out in_buf inl = update (ops d) (inner d) out 0 in_buf (ucast inl)"

definition data_taken ::
  "('a, 'i, 'h) G301_CIPHER_CTX \<Rightarrow> bytes option \<Rightarrow> bytes option \<Rightarrow> size \<Rightarrow> bool" where
  "data_taken d out in_buf inl \<longleftrightarrow>
     fst (caller_update d out in_buf inl)
   \<and> snd (snd (snd (caller_update d out in_buf inl))) = ucast inl"

lemma record_closed_iff:
  "(needs_reinit c \<or> phase c = G301_PHASE_NO_RECORD \<or> phase c = G301_PHASE_FINALIZED)
    = record_closed c"
  by (cases "phase c") (simp_all add: record_closed_def record_open_def)

lemma scast_of_ucast_size:
  assumes "uint (n :: size) \<le> INT_MAX"
  shows "scast (ucast n :: cint) = n"
proof -
  have "sint (ucast n :: cint) = uint n" by (rule sint_ucast_size [OF assms])
  then show ?thesis by (simp add: scast_eq)
qed


lemma update_no_outl [simp]:
  "g301_cipher_update env vctx out None outsize in_buf inl = (False, vctx, out, None)"
  by (simp add: g301_cipher_update_def)

lemma update_no_ctx [simp]:
  "g301_cipher_update env None out (Some v) outsize in_buf inl = (False, None, out, Some 0)"
  by (simp add: g301_cipher_update_def)

text \<open>An admitted, non-empty update: the injection, the inner call and its check.\<close>

lemma update_path:
  fixes env :: crypto_env
  assumes "update_refusal c out outsize in_buf inl = None" "inl \<noteq> 0"
  defines "d \<equiv> snd (g301_inject_manifest env c)"
  defines "u \<equiv> caller_update d out in_buf inl"
  defines "e \<equiv> d\<lparr>inner := fst (snd u)\<rparr>"
  shows "g301_cipher_update env (Some c) out (Some v) outsize in_buf inl =
      (if \<not> fst (g301_inject_manifest env c) then (False, Some d, out, Some 0)
       else if \<not> fst u then (False, Some (g301_poison e), fst (snd (snd u)), Some 0)
       else if snd (snd (snd u)) \<noteq> ucast inl
       then (False, Some (g301_raise_error (g301_poison e) G301_R_INTERNAL_ERROR),
             fst (snd (snd u)), Some 0)
       else (True, Some (if out \<noteq> None then e\<lparr>payload_started := True\<rparr> else e),
             fst (snd (snd u)), Some inl))"
proof -
  have open_record: "\<not> record_closed c" and inp: "in_buf \<noteq> None" and len: "uint inl \<le> INT_MAX"
    and room: "out = None \<or> inl \<le> outsize" and order: "\<not> (out = None \<and> payload_started c)"
    using assms(1,2) by (auto simp: update_refusal_def not_less split: if_splits)
  from inp obtain ib where ib: "in_buf = Some ib" by blast
  have nonneg: "\<not> sint (ucast inl :: cint) < 0" using sint_ucast_size [OF len] by simp
  note unfolds = g301_cipher_update_def record_closed_iff Let_def split_beta caller_update_def
    d_def u_def e_def
  show ?thesis
  proof (cases out)
    case None
    then have "\<not> payload_started c" using order by simp
    then show ?thesis using None ib len assms(2) open_record nonneg
      by (simp add: unfolds cong: if_cong)
  next
    case (Some b)
    then have "\<not> outsize < inl" using room by (simp add: not_less)
    then show ?thesis
      using Some ib len assms(2) open_record nonneg scast_of_ucast_size [OF len]
      by (simp add: unfolds cong: if_cong)
  qed
qed

lemma update_cases:
  obtains
    (refused) r where "update_refusal c out outsize in_buf inl = Some r"
      "g301_cipher_update env (Some c) out (Some v) outsize in_buf inl =
         (False, Some (g301_raise_error c r), out, Some 0)"
  | (empty) "update_refusal c out outsize in_buf inl = None" "inl = 0"
      "g301_cipher_update env (Some c) out (Some v) outsize in_buf inl = (True, Some c, out, Some 0)"
  | (not_injected) "update_refusal c out outsize in_buf inl = None" "inl \<noteq> 0"
      "\<not> fst (g301_inject_manifest env c)"
      "g301_cipher_update env (Some c) out (Some v) outsize in_buf inl =
         (False, Some (snd (g301_inject_manifest env c)), out, Some 0)"
  | (failed) d out' where "update_refusal c out outsize in_buf inl = None" "inl \<noteq> 0"
      "fst (g301_inject_manifest env c)" "d = snd (g301_inject_manifest env c)"
      "\<not> data_taken d out in_buf inl" "out' = fst (snd (snd (caller_update d out in_buf inl)))"
      "g301_cipher_update env (Some c) out (Some v) outsize in_buf inl =
         (False, Some (g301_poison (d\<lparr>inner := fst (snd (caller_update d out in_buf inl))\<rparr>)), out', Some 0)
       \<or> g301_cipher_update env (Some c) out (Some v) outsize in_buf inl =
         (False, Some (g301_raise_error
            (g301_poison (d\<lparr>inner := fst (snd (caller_update d out in_buf inl))\<rparr>))
            G301_R_INTERNAL_ERROR), out', Some 0)"
  | (taken) d out' where "update_refusal c out outsize in_buf inl = None" "inl \<noteq> 0"
      "fst (g301_inject_manifest env c)" "d = snd (g301_inject_manifest env c)"
      "data_taken d out in_buf inl" "out' = fst (snd (snd (caller_update d out in_buf inl)))"
      "g301_cipher_update env (Some c) out (Some v) outsize in_buf inl =
         (True, Some (if out \<noteq> None
            then d\<lparr>inner := fst (snd (caller_update d out in_buf inl)), payload_started := True\<rparr>
            else d\<lparr>inner := fst (snd (caller_update d out in_buf inl))\<rparr>), out', Some inl)"
proof (cases "update_refusal c out outsize in_buf inl")
  case (Some r)
  then show ?thesis
    by (intro refused [of r])
       (auto simp: g301_cipher_update_def record_closed_iff update_refusal_def split: if_splits)
next
  case None
  show ?thesis
  proof (cases "inl = 0")
    case True
    with None show ?thesis
      by (intro empty)
         (auto simp: g301_cipher_update_def record_closed_iff update_refusal_def split: if_splits)
  next
    case inl: False
    let ?d = "snd (g301_inject_manifest env c)"
    note eq = update_path [OF None inl, of env v]
    show ?thesis
    proof (cases "fst (g301_inject_manifest env c)")
      case False
      then show ?thesis using None inl eq by (intro not_injected) simp_all
    next
      case inj: True
      show ?thesis
      proof (cases "data_taken ?d out in_buf inl")
        case True
        then show ?thesis
          using None inl inj eq by (intro taken) (simp_all add: data_taken_def)
      next
        case False
        then show ?thesis
          using None inl inj eq by (intro failed) (auto simp: data_taken_def)
      qed
    qed
  qed
qed


section \<open>The paths of final\<close>

text \<open>
  The inner call of an admitted \<open>final\<close>, and whether it succeeds; \<open>tag_stale\<close> is a
  decryption record whose tag is not current.
\<close>

definition tag_stale :: "('a, 'i, 'h) G301_CIPHER_CTX \<Rightarrow> bool" where
  "tag_stale c \<longleftrightarrow> \<not> encrypting c \<and> \<not> decrypt_tag_current c"

definition inner_final :: "('a, 'i, 'h) G301_CIPHER_CTX \<Rightarrow> bool \<times> 'i \<times> bytes option \<times> cint" where
  "inner_final d = final (ops d) (inner d) (Some (replicate 32 0)) 0"

definition final_taken :: "('a, 'i, 'h) G301_CIPHER_CTX \<Rightarrow> bool" where
  "final_taken d \<longleftrightarrow> fst (inner_final d) \<and> snd (snd (snd (inner_final d))) = 0"

definition after_final :: "('a, 'i, 'h) G301_CIPHER_CTX \<Rightarrow> ('a, 'i, 'h) G301_CIPHER_CTX" where
  "after_final d = d\<lparr>decrypt_tag_current := False, inner := fst (snd (inner_final d))\<rparr>"

lemma final_no_ctx [simp]: "g301_cipher_final env None out outl outsize = (False, None, outl)"
  by (simp add: g301_cipher_final_def)

lemma open_record_iff:
  "(\<not> needs_reinit c \<and> (phase c = G301_PHASE_MANIFEST_PENDING \<or> phase c = G301_PHASE_ACTIVE))
    = (\<not> record_closed c)"
  by (auto simp: record_closed_def record_open_def)

lemma final_no_outl:
  "g301_cipher_final env (Some c) out None outsize =
     (False, Some (g301_raise_error (if record_closed c then c else g301_poison c)
                     G301_R_INVALID_PARAMETER), None)"
  by (simp add: g301_cipher_final_def open_record_iff)

text \<open>An admitted \<open>final\<close>: the injection, the inner call and its check.\<close>

lemma final_path:
  fixes env :: crypto_env
  assumes "\<not> record_closed c" "\<not> tag_stale c"
  defines "d \<equiv> snd (g301_inject_manifest env c)"
  shows "g301_cipher_final env (Some c) out (Some v) outsize =
      (if \<not> fst (g301_inject_manifest env c) then (False, Some d, Some 0)
       else if \<not> fst (inner_final d) then (False, Some (g301_poison (after_final d)), Some 0)
       else if snd (snd (snd (inner_final d))) \<noteq> 0
       then (False, Some (g301_raise_error (g301_poison (after_final d)) G301_R_INTERNAL_ERROR), Some 0)
       else (True, Some ((after_final d)\<lparr>phase := G301_PHASE_FINALIZED\<rparr>), Some 0))"
proof -
  have u: "final (ops (d\<lparr>decrypt_tag_current := False\<rparr>)) (inner (d\<lparr>decrypt_tag_current := False\<rparr>))
      (Some (replicate 32 0)) 0 = inner_final d"
    by (simp add: inner_final_def)
  have guard: "(\<not> encrypting c \<and> \<not> decrypt_tag_current c) = False" "record_closed c = False"
    using assms(1,2) by (auto simp: tag_stale_def)
  show ?thesis
    unfolding g301_cipher_final_def option.case record_closed_iff guard if_False Let_def split_beta
      u [unfolded d_def] after_final_def d_def
    by (simp add: inner_final_def)
qed

lemma final_cases:
  obtains
    (refused) "record_closed c"
      "g301_cipher_final env (Some c) out (Some v) outsize =
         (False, Some (g301_raise_error c G301_R_INVALID_STATE), Some 0)"
  | (stale) "\<not> record_closed c" "tag_stale c"
      "g301_cipher_final env (Some c) out (Some v) outsize =
         (False, Some (g301_raise_error (g301_poison c) G301_R_INVALID_STATE), Some 0)"
  | (not_injected) "\<not> record_closed c" "\<not> tag_stale c" "\<not> fst (g301_inject_manifest env c)"
      "g301_cipher_final env (Some c) out (Some v) outsize =
         (False, Some (snd (g301_inject_manifest env c)), Some 0)"
  | (failed) d where "\<not> record_closed c" "\<not> tag_stale c" "fst (g301_inject_manifest env c)"
      "d = snd (g301_inject_manifest env c)" "\<not> final_taken d"
      "g301_cipher_final env (Some c) out (Some v) outsize =
         (False, Some (g301_poison (after_final d)), Some 0)
       \<or> g301_cipher_final env (Some c) out (Some v) outsize =
         (False, Some (g301_raise_error (g301_poison (after_final d)) G301_R_INTERNAL_ERROR), Some 0)"
  | (completed) d where "\<not> record_closed c" "\<not> tag_stale c" "fst (g301_inject_manifest env c)"
      "d = snd (g301_inject_manifest env c)" "final_taken d"
      "g301_cipher_final env (Some c) out (Some v) outsize =
         (True, Some ((after_final d)\<lparr>phase := G301_PHASE_FINALIZED\<rparr>), Some 0)"
proof (cases "record_closed c \<or> tag_stale c")
  case True
  then show ?thesis
    by (cases "record_closed c")
       (auto simp: g301_cipher_final_def record_closed_iff tag_stale_def intro: refused stale)
next
  case ready: False
  let ?d = "snd (g301_inject_manifest env c)"
  note eq = final_path [of c env out v outsize] ready
  show ?thesis
  proof (cases "fst (g301_inject_manifest env c)")
    case False
    then show ?thesis using ready eq by (intro not_injected) auto
  next
    case inj: True
    show ?thesis
    proof (cases "final_taken ?d")
      case True
      then show ?thesis using ready inj eq by (intro completed) (auto simp: final_taken_def)
    next
      case False
      then show ?thesis using ready inj eq by (intro failed) (auto simp: final_taken_def)
    qed
  qed
qed

section \<open>What both operations keep\<close>

lemma record_wf_update_done:
  assumes "record_wf d" "phase d = G301_PHASE_ACTIVE"
  shows "record_wf (d\<lparr>inner := i, payload_started := True\<rparr>)"
  using assms by (simp add: record_wf_def record_open_def record_injected_def)

lemma key_wf_payload [simp]: "key_wf (d\<lparr>inner := i, payload_started := b\<rparr>) = key_wf d"
  by (simp add: key_wf_def)

lemma usage_wf_payload [simp]: "usage_wf (d\<lparr>inner := i, payload_started := b\<rparr>) = usage_wf d"
  by (simp add: usage_wf_def)

lemma usage_wf_after_final [simp]:
  "usage_wf (after_final d) = usage_wf d"
  "usage_wf ((after_final d)\<lparr>phase := p\<rparr>) = usage_wf d"
  by (simp_all add: usage_wf_def after_final_def)

lemma ctx_wf_after_final:
  assumes "ctx_wf d" "phase d = G301_PHASE_ACTIVE"
  shows "ctx_wf (after_final d)" "ctx_wf ((after_final d)\<lparr>phase := G301_PHASE_FINALIZED\<rparr>)"
  using assms by (simp_all add: wf_defs after_final_def)

text \<open>The fields neither operation writes.\<close>

definition same_setup :: "('a, 'i, 'h) G301_CIPHER_CTX \<Rightarrow> ('a, 'i, 'h) G301_CIPHER_CTX \<Rightarrow> bool" where
  "same_setup c c' \<longleftrightarrow>
     ops c' = ops c \<and> core_new_error c' = core_new_error c
   \<and> core_set_error_debug c' = core_set_error_debug c \<and> core_vset_error c' = core_vset_error c
   \<and> encrypting c' = encrypting c \<and> direction_set c' = direction_set c
   \<and> key_valid c' = key_valid c \<and> current_key c' = current_key c \<and> usage_key c' = usage_key c
   \<and> record_limit c' = record_limit c \<and> current_key_valid c' = current_key_valid c
   \<and> current_key_changed c' = current_key_changed c \<and> usage_key_valid c' = usage_key_valid c"

lemma same_setup_refl [simp]: "same_setup c c"
  by (simp add: same_setup_def)

lemma same_setup_intros [simp]:
  "same_setup c (g301_raise_error d r) = same_setup c d"
  "same_setup c (g301_poison d) = same_setup c d"
  "same_setup c (d\<lparr>inner := i\<rparr>) = same_setup c d"
  "same_setup c (d\<lparr>inner := i, payload_started := b\<rparr>) = same_setup c d"
  "same_setup c (after_final d) = same_setup c d"
  "same_setup c ((after_final d)\<lparr>phase := p\<rparr>) = same_setup c d"
  "same_setup c (snd (g301_inject_manifest env d)) = same_setup c d"
  by (simp_all add: same_setup_def after_final_def)

lemma update_preserves:
  assumes "g301_cipher_update env (Some c) out outl outsize in_buf inl = (r, Some c', out', outl')"
  shows "same_setup c c'" and "ctx_wf c \<Longrightarrow> ctx_wf c'"
    and "usage_wf c \<Longrightarrow> atomic_documented env \<Longrightarrow> usage_wf c'"
proof -
  have "same_setup c c' \<and> (ctx_wf c \<longrightarrow> ctx_wf c')
      \<and> (usage_wf c \<longrightarrow> atomic_documented env \<longrightarrow> usage_wf c')"
  proof (cases outl)
    case None
    with assms show ?thesis by simp
  next
    case (Some v)
    note eq = assms [unfolded Some]
    note wf = ctx_wf_inject [of c env] usage_wf_inject [of c env]
    show ?thesis
    proof (cases rule: update_cases [of c out outsize in_buf inl env v])
      case refused
      with eq show ?thesis by auto
    next
      case empty
      with eq show ?thesis by auto
    next
      case not_injected
      with eq wf show ?thesis by auto
    next
      case (failed d)
      then have "\<exists>i. c' = g301_poison (d\<lparr>inner := i\<rparr>)
          \<or> c' = g301_raise_error (g301_poison (d\<lparr>inner := i\<rparr>)) G301_R_INTERNAL_ERROR"
        using eq by auto
      then show ?thesis using failed(4) wf by auto
    next
      case (taken d)
      have act: "phase d = G301_PHASE_ACTIVE" using inject_ok [OF taken(3)] taken(4) by simp
      have "\<exists>i. c' = d\<lparr>inner := i, payload_started := True\<rparr> \<or> c' = d\<lparr>inner := i\<rparr>"
        using eq taken(7) by (auto split: if_splits)
      then show ?thesis
        using taken(4) wf record_wf_update_done [OF _ act]
        by (elim exE disjE) (simp_all add: ctx_wf_def)
    qed
  qed
  then show "same_setup c c'" and "ctx_wf c \<Longrightarrow> ctx_wf c'"
    and "usage_wf c \<Longrightarrow> atomic_documented env \<Longrightarrow> usage_wf c'" by simp_all
qed

lemma final_preserves:
  assumes "g301_cipher_final env (Some c) out outl outsize = (r, Some c', outl')"
  shows "same_setup c c'" and "ctx_wf c \<Longrightarrow> ctx_wf c'"
    and "usage_wf c \<Longrightarrow> atomic_documented env \<Longrightarrow> usage_wf c'"
proof -
  have "same_setup c c' \<and> (ctx_wf c \<longrightarrow> ctx_wf c')
      \<and> (usage_wf c \<longrightarrow> atomic_documented env \<longrightarrow> usage_wf c')"
  proof (cases outl)
    case None
    with assms show ?thesis by (auto simp: final_no_outl)
  next
    case (Some v)
    note eq = assms [unfolded Some]
    note wf = ctx_wf_inject [of c env] usage_wf_inject [of c env]
    show ?thesis
    proof (cases rule: final_cases [of c env out v outsize])
      case refused
      with eq show ?thesis by auto
    next
      case stale
      with eq show ?thesis by auto
    next
      case not_injected
      with eq wf show ?thesis by auto
    next
      case (failed d)
      then have c': "c' = g301_poison (after_final d)
          \<or> c' = g301_raise_error (g301_poison (after_final d)) G301_R_INTERNAL_ERROR"
        using eq by auto
      have "phase d = G301_PHASE_ACTIVE" using inject_ok [OF failed(3)] failed(4) by simp
      then show ?thesis using failed(4) wf c' ctx_wf_after_final [of d] by auto
    next
      case (completed d)
      have "phase d = G301_PHASE_ACTIVE" using inject_ok [OF completed(3)] completed(4) by simp
      then show ?thesis using completed(4,6) eq wf ctx_wf_after_final [of d] by auto
    qed
  qed
  then show "same_setup c c'" and "ctx_wf c \<Longrightarrow> ctx_wf c'"
    and "usage_wf c \<Longrightarrow> atomic_documented env \<Longrightarrow> usage_wf c'" by simp_all
qed

lemma update_Some:
  "\<exists>r c' out' outl'.
     g301_cipher_update env (Some c) out outl outsize in_buf inl = (r, Some c', out', outl')"
proof (cases outl)
  case (Some v)
  then show ?thesis
    by (cases rule: update_cases [of c out outsize in_buf inl env v]) auto
qed auto

lemma final_Some:
  "\<exists>r c' outl'. g301_cipher_final env (Some c) out outl outsize = (r, Some c', outl')"
proof (cases outl)
  case None
  then show ?thesis by (auto simp: final_no_outl)
next
  case (Some v)
  then show ?thesis
    by (cases rule: final_cases [of c env out v outsize]) auto
qed

end
