(* ===== verification/Cipher_Params.thy ===== *)
theory Cipher_Params
  imports Cipher_Stream
begin

text \<open>
  The parameter operations of g301_cipher.c: the algorithm's parameters, the getters and
  setters of a context, and the private copy through which the tag of an encryption record
  is released. The lemmas describe each path: when the inner cipher is asked, what the
  caller's array holds afterwards and what happens to the currency of a decryption tag.
\<close>

section \<open>Writing requested parameters\<close>

text \<open>
  The pattern the getters repeat: locate a parameter, and if the caller asked for it, set
  it; the first setter that fails ends the call.
\<close>

definition set_if_requested ::
  "ossl_param_api \<Rightarrow> string \<Rightarrow> (ossl_param \<Rightarrow> bool \<times> ossl_param) \<Rightarrow> ossl_params \<Rightarrow> bool \<times> ossl_params" where
  "set_if_requested api name setter ps =
     (case OSSL_PARAM_locate api ps name of
        None \<Rightarrow> (True, ps)
      | Some i \<Rightarrow> (let (ok, p) = setter (ps ! i) in (ok, ps[i := p])))"

fun set_each ::
  "ossl_param_api \<Rightarrow> (string \<times> (ossl_param \<Rightarrow> bool \<times> ossl_param)) list \<Rightarrow> ossl_params
   \<Rightarrow> bool \<times> ossl_params" where
  "set_each api [] ps = (True, ps)"
| "set_each api ((name, setter) # rest) ps =
     (let (ok, ps) = set_if_requested api name setter ps in
      if \<not> ok then (False, ps) else set_each api rest ps)"

section \<open>Parameters of the algorithm\<close>

definition EVP_CIPH_GCM_MODE :: cint where
  "EVP_CIPH_GCM_MODE = 6"

text \<open>What \<open>g301_cipher_get_params\<close> answers, in the order of its tests.\<close>

definition g301_param_rows ::
  "ossl_param_api \<Rightarrow> (string \<times> (ossl_param \<Rightarrow> bool \<times> ossl_param)) list" where
  "g301_param_rows api =
    [(OSSL_CIPHER_PARAM_MODE, \<lambda>p. OSSL_PARAM_set_uint api p EVP_CIPH_GCM_MODE),
     (OSSL_CIPHER_PARAM_KEYLEN, \<lambda>p. OSSL_PARAM_set_size_t api p G301_KEY_LENGTH),
     (OSSL_CIPHER_PARAM_IVLEN, \<lambda>p. OSSL_PARAM_set_size_t api p G301_IV_LENGTH),
     (OSSL_CIPHER_PARAM_BLOCK_SIZE, \<lambda>p. OSSL_PARAM_set_size_t api p 1),
     (OSSL_CIPHER_PARAM_AEAD, \<lambda>p. OSSL_PARAM_set_int api p 1),
     (OSSL_CIPHER_PARAM_CUSTOM_IV, \<lambda>p. OSSL_PARAM_set_int api p 1)]"

definition g301_cipher_get_params ::
  "ossl_param_api \<Rightarrow> ossl_params option \<Rightarrow> bool \<times> ossl_params option" where
  "g301_cipher_get_params api params =
     (case params of None \<Rightarrow> (True, None)
      | Some ps \<Rightarrow>
      if g301_has_duplicate params OSSL_CIPHER_PARAM_MODE
       \<or> g301_has_duplicate params OSSL_CIPHER_PARAM_KEYLEN
       \<or> g301_has_duplicate params OSSL_CIPHER_PARAM_IVLEN
       \<or> g301_has_duplicate params OSSL_CIPHER_PARAM_BLOCK_SIZE
       \<or> g301_has_duplicate params OSSL_CIPHER_PARAM_AEAD
       \<or> g301_has_duplicate params OSSL_CIPHER_PARAM_CUSTOM_IV
      then (False, params)
      else
        let (ok, ps) = set_each api (g301_param_rows api) ps
        in (ok, Some ps))"

section \<open>Getting context parameters\<close>

text \<open>
  \<open>private_tag\<close> is what the private buffer holds after the inner call: the bytes behind the
  first inner parameter.
\<close>

definition g301_get_encryption_tag ::
  "ossl_param_api \<Rightarrow> ('a, 'i, 'h) G301_CIPHER_CTX \<Rightarrow> ossl_param
   \<Rightarrow> bool \<times> ('a, 'i, 'h) G301_CIPHER_CTX \<times> ossl_param" where
  "g301_get_encryption_tag api ctx param =
     (if data_type param \<noteq> OSSL_PARAM_OCTET_STRING
      then (False, g301_raise_error ctx G301_R_INVALID_PARAMETER, param)
      else case data param of
        None \<Rightarrow> (True, ctx, param\<lparr>return_size := G301_TAG_LENGTH\<rparr>)
      | Some buf \<Rightarrow>
      if data_size param \<noteq> G301_TAG_LENGTH
      then (False, g301_raise_error ctx G301_R_INVALID_PARAMETER,
            param\<lparr>return_size := G301_TAG_LENGTH\<rparr>)
      else
        let zero_tag = replicate (unat G301_TAG_LENGTH) 0;
            inner_param = OSSL_PARAM_construct_octet_string api OSSL_CIPHER_PARAM_AEAD_TAG
                            (Some zero_tag) G301_TAG_LENGTH;
            (ok, i, inner_params) = get_params (ops ctx) (inner ctx) [inner_param];
            ctx = ctx\<lparr>inner := i\<rparr>;
            inner_param = (case inner_params of [] \<Rightarrow> inner_param | p # _ \<Rightarrow> p);
            private_tag = (case data inner_param of None \<Rightarrow> zero_tag | Some t \<Rightarrow> t) in
        if \<not> ok then (False, g301_poison ctx, param)
        else if return_size inner_param \<noteq> G301_TAG_LENGTH
        then (False, g301_raise_error (g301_poison ctx) G301_R_INTERNAL_ERROR, param)
        else (True, ctx, param\<lparr>data := Some (memcpy buf private_tag (unat G301_TAG_LENGTH)),
                               return_size := G301_TAG_LENGTH\<rparr>))"

text \<open>The fixed lengths of a context, in the order of the tests.\<close>

definition g301_ctx_param_rows ::
  "ossl_param_api \<Rightarrow> (string \<times> (ossl_param \<Rightarrow> bool \<times> ossl_param)) list" where
  "g301_ctx_param_rows api =
    [(OSSL_CIPHER_PARAM_IVLEN, \<lambda>p. OSSL_PARAM_set_size_t api p G301_IV_LENGTH),
     (OSSL_CIPHER_PARAM_KEYLEN, \<lambda>p. OSSL_PARAM_set_size_t api p G301_KEY_LENGTH),
     (OSSL_CIPHER_PARAM_AEAD_TAGLEN, \<lambda>p. OSSL_PARAM_set_size_t api p G301_TAG_LENGTH)]"

definition g301_cipher_get_ctx_params ::
  "ossl_param_api \<Rightarrow> ('a, 'i, 'h) G301_CIPHER_CTX option \<Rightarrow> ossl_params option
   \<Rightarrow> bool \<times> ('a, 'i, 'h) G301_CIPHER_CTX option \<times> ossl_params option" where
  "g301_cipher_get_ctx_params api vctx params =
     (case params of None \<Rightarrow> (True, vctx, None)
      | Some ps \<Rightarrow>
     (case vctx of None \<Rightarrow> (False, None, params)
      | Some ctx \<Rightarrow>
      if g301_has_forbidden_legacy_param params \<or> g301_get_ctx_params_have_duplicates params
      then (False, Some (g301_raise_error ctx G301_R_INVALID_PARAMETER), params)
      else
        let (ok, ps) = set_each api (g301_ctx_param_rows api) ps in
        if \<not> ok then (False, Some (g301_raise_error ctx G301_R_INVALID_PARAMETER), Some ps)
        else case OSSL_PARAM_locate api ps OSSL_CIPHER_PARAM_AEAD_TAG of
          None \<Rightarrow> (True, Some ctx, Some ps)
        | Some n \<Rightarrow>
            if \<not> encrypting ctx \<or> phase ctx \<noteq> G301_PHASE_FINALIZED \<or> needs_reinit ctx
            then (False, Some (g301_raise_error ctx G301_R_INVALID_STATE), Some ps)
            else
              let (got, ctx, p) = g301_get_encryption_tag api ctx (ps ! n)
              in (got, Some ctx, Some (ps[n := p]))))"

section \<open>Setting context parameters\<close>

text \<open>Returns the result and \<open>*tag_param\<close>.\<close>

definition g301_validate_set_params ::
  "ossl_param_api \<Rightarrow> ('a, 'i, 'h) G301_CIPHER_CTX \<Rightarrow> ossl_params option \<Rightarrow> bool \<times> ossl_param option" where
  "g301_validate_set_params api ctx params =
     (case params of None \<Rightarrow> (True, None)
      | Some ps \<Rightarrow>
      if g301_init_params_have_duplicates params then (False, None)
      else if length_param_bad api ps OSSL_CIPHER_PARAM_KEYLEN G301_KEY_LENGTH then (False, None)
      else if length_param_bad api ps OSSL_CIPHER_PARAM_IVLEN G301_IV_LENGTH then (False, None)
      else if length_param_bad api ps OSSL_CIPHER_PARAM_AEAD_TAGLEN G301_TAG_LENGTH
      then (False, None)
      else case OSSL_PARAM_locate_const api ps OSSL_CIPHER_PARAM_AEAD_TAG of
        None \<Rightarrow> (True, None)
      | Some tp \<Rightarrow>
          if encrypting ctx \<or> needs_reinit ctx
           \<or> phase ctx \<noteq> G301_PHASE_MANIFEST_PENDING \<and> phase ctx \<noteq> G301_PHASE_ACTIVE
           \<or> \<not> tag_param_exact tp
          then (False, Some tp) else (True, Some tp))"

definition g301_cipher_set_ctx_params ::
  "ossl_param_api \<Rightarrow> ('a, 'i, 'h) G301_CIPHER_CTX option \<Rightarrow> ossl_params option
   \<Rightarrow> bool \<times> ('a, 'i, 'h) G301_CIPHER_CTX option" where
  "g301_cipher_set_ctx_params api vctx params =
     (case params of None \<Rightarrow> (True, vctx)
      | Some ps \<Rightarrow>
     (case vctx of None \<Rightarrow> (False, None)
      | Some ctx \<Rightarrow>
      let tag_param = OSSL_PARAM_locate_const api ps OSSL_CIPHER_PARAM_AEAD_TAG;
          ctx = (if tag_param \<noteq> None then ctx\<lparr>decrypt_tag_current := False\<rparr> else ctx) in
      if g301_has_forbidden_legacy_param params
      then (False, Some (g301_raise_error ctx G301_R_INVALID_PARAMETER))
      else
        let (valid, tag_param) = g301_validate_set_params api ctx params in
        if \<not> valid then (False, Some (g301_raise_error ctx G301_R_INVALID_PARAMETER))
        else
          let iv_param = OSSL_PARAM_locate_const api ps OSSL_CIPHER_PARAM_IVLEN in
          if tag_param = None then (True, Some ctx)
          else
            let (ok, i) = set_params (ops ctx) (inner ctx)
                            (filtered_init_params api iv_param tag_param);
                ctx = ctx\<lparr>inner := i\<rparr> in
            if \<not> ok then (False, Some (g301_poison ctx))
            else (True, Some (ctx\<lparr>decrypt_tag_current := True\<rparr>))))"

section \<open>What the getters write\<close>

lemma set_if_requested_keys:
  assumes "params_documented api" "\<And>p. key (snd (setter p)) = key p"
  shows "map key (snd (set_if_requested api name setter ps)) = map key ps"
proof (cases "index_of ps name")
  case None
  then show ?thesis by (simp add: set_if_requested_def params_documentedD(1) [OF assms(1)])
next
  case (Some n)
  have "n < length ps" using index_of_Some [OF Some] by simp
  then have "(map key ps)[n := key (ps ! n)] = map key ps" by (metis list_update_id nth_map)
  then show ?thesis using Some assms(2)
    by (simp add: set_if_requested_def params_documentedD(1) [OF assms(1)] split_beta map_update)
qed

lemma set_each_keys:
  assumes "params_documented api" "\<forall>row \<in> set rows. \<forall>p. key (snd (snd row p)) = key p"
  shows "map key (snd (set_each api rows ps)) = map key ps"
  using assms(2)
proof (induction rows arbitrary: ps)
  case Nil
  then show ?case by simp
next
  case (Cons row rows)
  obtain n s where row: "row = (n, s)" by (cases row)
  have "map key (snd (set_if_requested api n s ps)) = map key ps"
    by (rule set_if_requested_keys [OF assms(1)]) (use Cons.prems row in simp)
  then show ?case using row Cons.IH Cons.prems by (simp add: split_beta Let_def)
qed

lemma index_of_keys: "map key ps = map key qs \<Longrightarrow> index_of ps k = index_of qs k"
proof (induction ps arbitrary: qs)
  case Nil
  then show ?case by simp
next
  case (Cons p ps)
  then show ?case by (cases qs) auto
qed

section \<open>The paths of the tag getter\<close>

definition tag_request :: "ossl_param_api \<Rightarrow> ossl_param" where
  "tag_request api = OSSL_PARAM_construct_octet_string api OSSL_CIPHER_PARAM_AEAD_TAG
     (Some (replicate 16 0)) G301_TAG_LENGTH"

lemma get_tag_frame:
  assumes "g301_get_encryption_tag api c p = (r, c', p')"
  shows "same_setup c c'" and "usage_wf c' = usage_wf c" and "ctx_wf c \<Longrightarrow> ctx_wf c'"
    and "phase c' = phase c" and "key p' = key p"
    and "r \<Longrightarrow> needs_reinit c' = needs_reinit c"
  using assms
  by (auto simp: g301_get_encryption_tag_def Let_def split_beta
      split: if_splits option.splits list.splits)

text \<open>A failing call leaves the caller's buffer alone.\<close>

lemma get_tag_fail:
  assumes "g301_get_encryption_tag api c p = (False, c', p')"
  shows "data p' = data p"
  using assms
  by (auto simp: g301_get_encryption_tag_def Let_def split_beta
      split: if_splits option.splits list.splits)

lemma get_ctx_preserves:
  assumes "g301_cipher_get_ctx_params api (Some c) params = (r, Some c', ps')"
  shows "same_setup c c'" and "usage_wf c' = usage_wf c" and "ctx_wf c \<Longrightarrow> ctx_wf c'"
    and "phase c' = phase c"
proof -
  have "(\<exists>reason. c' = g301_raise_error c reason) \<or> c' = c
      \<or> (\<exists>p r' p'. g301_get_encryption_tag api c p = (r', c', p'))"
    using assms
    by (auto simp: g301_cipher_get_ctx_params_def Let_def split_beta prod_eq_iff
        split: option.splits if_splits)
  then have "same_setup c c' \<and> usage_wf c' = usage_wf c \<and> (ctx_wf c \<longrightarrow> ctx_wf c')
      \<and> phase c' = phase c"
    by (elim exE disjE) (auto dest: get_tag_frame)
  then show "same_setup c c'" and "usage_wf c' = usage_wf c" and "ctx_wf c \<Longrightarrow> ctx_wf c'"
    and "phase c' = phase c" by simp_all
qed

lemma get_ctx_Some:
  "\<exists>r c' ps'. g301_cipher_get_ctx_params api (Some c) params = (r, Some c', ps')"
  by (auto simp: g301_cipher_get_ctx_params_def Let_def split_beta split: option.splits)

text \<open>A tag request is only delegated for a completed encryption record.\<close>

definition tag_readable :: "('a, 'i, 'h) G301_CIPHER_CTX \<Rightarrow> bool" where
  "tag_readable c \<longleftrightarrow> encrypting c \<and> phase c = G301_PHASE_FINALIZED \<and> \<not> needs_reinit c"

lemma get_ctx_not_readable:
  assumes "\<not> tag_readable c"
    and "g301_cipher_get_ctx_params api (Some c) params = (r, Some c', ps')"
  shows "(c' = c \<or> (\<exists>reason. c' = g301_raise_error c reason))"
  using assms
  by (auto simp: g301_cipher_get_ctx_params_def tag_readable_def Let_def split_beta
      split: option.splits if_splits)

section \<open>The paths of the setter\<close>

definition set_accepts :: "ossl_param_api \<Rightarrow> ('a, 'i, 'h) G301_CIPHER_CTX \<Rightarrow> ossl_params \<Rightarrow> bool" where
  "set_accepts api c ps \<longleftrightarrow>
     \<not> g301_has_forbidden_legacy_param (Some ps)
   \<and> \<not> g301_init_params_have_duplicates (Some ps)
   \<and> \<not> length_param_bad api ps OSSL_CIPHER_PARAM_KEYLEN G301_KEY_LENGTH
   \<and> \<not> length_param_bad api ps OSSL_CIPHER_PARAM_IVLEN G301_IV_LENGTH
   \<and> \<not> length_param_bad api ps OSSL_CIPHER_PARAM_AEAD_TAGLEN G301_TAG_LENGTH
   \<and> (\<forall>tp. OSSL_PARAM_locate_const api ps OSSL_CIPHER_PARAM_AEAD_TAG = Some tp
        \<longrightarrow> \<not> encrypting c \<and> \<not> record_closed c \<and> tag_param_exact tp)"

definition stale_tag_ctx :: "('a, 'i, 'h) G301_CIPHER_CTX \<Rightarrow> bool \<Rightarrow> ('a, 'i, 'h) G301_CIPHER_CTX" where
  "stale_tag_ctx c has_tag = (if has_tag then c\<lparr>decrypt_tag_current := False\<rparr> else c)"

lemma stale_tag_frame [simp, frame_simps]:
  "encrypting (stale_tag_ctx c t) = encrypting c"
  "needs_reinit (stale_tag_ctx c t) = needs_reinit c"
  "phase (stale_tag_ctx c t) = phase c"
  "ops (stale_tag_ctx c t) = ops c"
  "inner (stale_tag_ctx c t) = inner c"
  "same_setup c (stale_tag_ctx c t)"
  "usage_wf (stale_tag_ctx c t) = usage_wf c"
  "ctx_wf c \<Longrightarrow> ctx_wf (stale_tag_ctx c t)"
  by (simp_all add: stale_tag_ctx_def same_setup_def)

lemma set_valid_iff:
  "\<not> g301_has_forbidden_legacy_param (Some ps) \<and>
     fst (g301_validate_set_params api (stale_tag_ctx c t) (Some ps)) \<longleftrightarrow> set_accepts api c ps"
proof -
  have "(phase c \<noteq> G301_PHASE_MANIFEST_PENDING \<and> phase c \<noteq> G301_PHASE_ACTIVE) = (\<not> record_open c)"
    by (simp add: record_open_def)
  then show ?thesis
    by (auto simp: set_accepts_def g301_validate_set_params_def record_closed_def
        split: option.splits)
qed

lemma set_valid_tag:
  "set_accepts api c ps \<Longrightarrow>
     g301_validate_set_params api (stale_tag_ctx c t) (Some ps)
     = (True, OSSL_PARAM_locate_const api ps OSSL_CIPHER_PARAM_AEAD_TAG)"
  by (auto simp: set_accepts_def g301_validate_set_params_def record_closed_def record_open_def
      split: option.splits)

definition tag_update ::
  "ossl_param_api \<Rightarrow> ('a, 'i, 'h) G301_CIPHER_CTX \<Rightarrow> ossl_params \<Rightarrow> bool \<times> 'i" where
  "tag_update api c ps = set_params (ops c) (inner c)
     (filtered_init_params api (OSSL_PARAM_locate_const api ps OSSL_CIPHER_PARAM_IVLEN)
        (OSSL_PARAM_locate_const api ps OSSL_CIPHER_PARAM_AEAD_TAG))"

definition has_tag :: "ossl_param_api \<Rightarrow> ossl_params \<Rightarrow> bool" where
  "has_tag api ps \<longleftrightarrow> OSSL_PARAM_locate_const api ps OSSL_CIPHER_PARAM_AEAD_TAG \<noteq> None"

lemma set_ctx_unfold:
  "g301_cipher_set_ctx_params api (Some c) (Some ps) =
     (if \<not> set_accepts api c ps
      then (False, Some (g301_raise_error (stale_tag_ctx c (has_tag api ps)) G301_R_INVALID_PARAMETER))
      else if \<not> has_tag api ps then (True, Some c)
      else if \<not> fst (tag_update api c ps)
      then (False, Some (g301_poison ((stale_tag_ctx c True)\<lparr>inner := snd (tag_update api c ps)\<rparr>)))
      else (True, Some (c\<lparr>inner := snd (tag_update api c ps), decrypt_tag_current := True\<rparr>)))"
proof -
  have stale: "(if OSSL_PARAM_locate_const api ps OSSL_CIPHER_PARAM_AEAD_TAG \<noteq> None
      then c\<lparr>decrypt_tag_current := False\<rparr> else c) = stale_tag_ctx c (has_tag api ps)"
    by (simp add: stale_tag_ctx_def has_tag_def)
  show ?thesis
  proof (cases "set_accepts api c ps")
    case True
    then have f: "\<not> g301_has_forbidden_legacy_param (Some ps)" by (simp add: set_accepts_def)
    show ?thesis
      unfolding g301_cipher_set_ctx_params_def option.case Let_def stale set_valid_tag [OF True]
      using True f
      by (auto simp: has_tag_def tag_update_def stale_tag_ctx_def split_beta)
  next
    case False
    then show ?thesis
      unfolding g301_cipher_set_ctx_params_def option.case Let_def stale
      using set_valid_iff [of ps api c "has_tag api ps"] by (auto simp: split_beta)
  qed
qed

lemma set_ctx_None [simp]:
  "g301_cipher_set_ctx_params api vctx None = (True, vctx)"
  by (simp add: g301_cipher_set_ctx_params_def)

lemma ctx_wf_fresh_tag:
  assumes "ctx_wf c" "\<not> encrypting c" "\<not> record_closed c"
  shows "ctx_wf (c\<lparr>inner := i, decrypt_tag_current := True\<rparr>)"
  using assms by (auto simp: wf_defs record_closed_def)

lemma set_ctx_preserves:
  assumes "g301_cipher_set_ctx_params api (Some c) params = (r, Some c')"
  shows "same_setup c c'" and "usage_wf c' = usage_wf c" and "ctx_wf c \<Longrightarrow> ctx_wf c'"
    and "phase c' = phase c"
proof -
  have "same_setup c c' \<and> usage_wf c' = usage_wf c \<and> (ctx_wf c \<longrightarrow> ctx_wf c')
      \<and> phase c' = phase c"
  proof (cases params)
    case None
    with assms show ?thesis by simp
  next
    case (Some ps)
    note eq = assms [unfolded Some set_ctx_unfold]
    consider (a) "\<not> set_accepts api c ps" | (b) "set_accepts api c ps" "\<not> has_tag api ps"
      | (c) "set_accepts api c ps" "has_tag api ps" "\<not> fst (tag_update api c ps)"
      | (d) "set_accepts api c ps" "has_tag api ps" "fst (tag_update api c ps)"
      by blast
    then show ?thesis
    proof cases
      case a
      then have "c' = g301_raise_error (stale_tag_ctx c (has_tag api ps)) G301_R_INVALID_PARAMETER"
        using eq by simp
      then show ?thesis by simp
    next
      case b
      then show ?thesis using eq by simp
    next
      case c
      then have "c' = g301_poison ((stale_tag_ctx c True)\<lparr>inner := snd (tag_update api c ps)\<rparr>)"
        using eq by simp
      then show ?thesis by simp
    next
      case d
      then have c': "c' = c\<lparr>inner := snd (tag_update api c ps), decrypt_tag_current := True\<rparr>"
        using eq by simp
      have "\<not> encrypting c" "\<not> record_closed c" using d by (auto simp: set_accepts_def has_tag_def)
      then show ?thesis
        using ctx_wf_fresh_tag unfolding c' by (auto simp: same_setup_def usage_wf_def)
    qed
  qed
  then show "same_setup c c'" and "usage_wf c' = usage_wf c" and "ctx_wf c \<Longrightarrow> ctx_wf c'"
    and "phase c' = phase c" by simp_all
qed

lemma set_ctx_Some:
  "\<exists>r c'. g301_cipher_set_ctx_params api (Some c) params = (r, Some c')"
  by (cases params) (auto simp: set_ctx_unfold)

end
