(* ===== verification/Cipher_Machine.thy ===== *)
theory Cipher_Machine
  imports Cipher_Params
begin

text \<open>
  The cipher context as a machine: the six operations of the dispatch table that take a
  live context are its calls, each made in an environment that fixes how the thread
  primitives answer. Every step keeps the context invariants, and the spending of the write
  key's budget is charged to steps; the interfaces of G301_Prelude lift both to runs.
\<close>

text \<open>
  The environment of a call is part of the event, so a run lets locks and atomic additions
  succeed and fail in any pattern. \<open>OSSL_FUNC_CIPHER_GET_PARAMS\<close> and the table functions
  have no context and are not steps.
\<close>

section \<open>Calls and steps\<close>

datatype cipher_call =
    Encrypt_init "bytes option" size "bytes option" size "ossl_params option"
  | Decrypt_init "bytes option" size "bytes option" size "ossl_params option"
  | Update "bytes option" "size option" size "bytes option" size
  | Final "bytes option" "size option" size
  | Get_ctx_params "ossl_params option"
  | Set_ctx_params "ossl_params option"

type_synonym cipher_event = "crypto_env \<times> cipher_call"

definition cipher_dispatch ::
  "ossl_param_api \<Rightarrow> ('a, 'i, 'h) G301_CIPHER_CTX \<Rightarrow> cipher_event
   \<Rightarrow> bool \<times> ('a, 'i, 'h) G301_CIPHER_CTX" where
  "cipher_dispatch api c e =
     (case e of (env, call) \<Rightarrow>
      (case call of
         Encrypt_init k keylen iv ivlen params \<Rightarrow>
           map_prod id the (g301_cipher_encrypt_init api env (Some c) k keylen iv ivlen params)
       | Decrypt_init k keylen iv ivlen params \<Rightarrow>
           map_prod id the (g301_cipher_decrypt_init api env (Some c) k keylen iv ivlen params)
       | Update out outl outsize in_buf inl \<Rightarrow>
           map_prod id (\<lambda>(vc, _). the vc)
             (g301_cipher_update env (Some c) out outl outsize in_buf inl)
       | Final out outl outsize \<Rightarrow>
           map_prod id (\<lambda>(vc, _). the vc) (g301_cipher_final env (Some c) out outl outsize)
       | Get_ctx_params params \<Rightarrow>
           map_prod id (\<lambda>(vc, _). the vc) (g301_cipher_get_ctx_params api (Some c) params)
       | Set_ctx_params params \<Rightarrow>
           map_prod id the (g301_cipher_set_ctx_params api (Some c) params)))"

definition cipher_step ::
  "ossl_param_api \<Rightarrow> ('a, 'i, 'h) G301_CIPHER_CTX \<Rightarrow> cipher_event \<Rightarrow> ('a, 'i, 'h) G301_CIPHER_CTX" where
  "cipher_step api c e = snd (cipher_dispatch api c e)"

text \<open>
  What a caller must provide: a key argument with as many bytes as announced; and the
  atomic counter of the environment must behave as documented.
\<close>

definition call_ok :: "cipher_event \<Rightarrow> bool" where
  "call_ok e = (case e of (env, call) \<Rightarrow>
     atomic_documented env
   \<and> (case call of
        Encrypt_init (Some kb) keylen _ _ _ \<Rightarrow> unat keylen \<le> length kb
      | Decrypt_init (Some kb) keylen _ _ _ \<Rightarrow> unat keylen \<le> length kb
      | _ \<Rightarrow> True))"

abbreviation good :: "('a, 'i, 'h) G301_CIPHER_CTX \<Rightarrow> bool" where
  "good c \<equiv> ctx_wf c \<and> usage_wf c"

text \<open>One rule for the six operations: what a step is, in terms of the function it calls.\<close>

lemma step_cases:
  obtains
    (initialise) k keylen iv ivlen params enc r where
      "g301_init api env (Some c) k keylen iv ivlen params enc = (r, Some (cipher_step api c (env, call)))"
      "call = (if enc then Encrypt_init k keylen iv ivlen params else Decrypt_init k keylen iv ivlen params)"
      "fst (cipher_dispatch api c (env, call)) = r"
  | (update) out outl outsize in_buf inl r out' outl' where
      "call = Update out outl outsize in_buf inl"
      "g301_cipher_update env (Some c) out outl outsize in_buf inl
        = (r, Some (cipher_step api c (env, call)), out', outl')"
      "fst (cipher_dispatch api c (env, call)) = r"
  | (final) out outl outsize r outl' where
      "call = Final out outl outsize"
      "g301_cipher_final env (Some c) out outl outsize
        = (r, Some (cipher_step api c (env, call)), outl')"
      "fst (cipher_dispatch api c (env, call)) = r"
  | (get_params) params r params' where
      "call = Get_ctx_params params"
      "g301_cipher_get_ctx_params api (Some c) params
        = (r, Some (cipher_step api c (env, call)), params')"
      "fst (cipher_dispatch api c (env, call)) = r"
  | (set_params) params r where
      "call = Set_ctx_params params"
      "g301_cipher_set_ctx_params api (Some c) params = (r, Some (cipher_step api c (env, call)))"
      "fst (cipher_dispatch api c (env, call)) = r"
proof (cases call)
  case (Encrypt_init k keylen iv ivlen params)
  obtain r c' where "g301_init api env (Some c) k keylen iv ivlen params True = (r, Some c')"
    using g301_init_Some by blast
  then show ?thesis
    using Encrypt_init initialise [of k keylen iv ivlen params True r]
    by (simp add: cipher_step_def cipher_dispatch_def g301_cipher_encrypt_init_def)
next
  case (Decrypt_init k keylen iv ivlen params)
  obtain r c' where "g301_init api env (Some c) k keylen iv ivlen params False = (r, Some c')"
    using g301_init_Some by blast
  then show ?thesis
    using Decrypt_init initialise [of k keylen iv ivlen params False r]
    by (simp add: cipher_step_def cipher_dispatch_def g301_cipher_decrypt_init_def)
next
  case (Update out outl outsize in_buf inl)
  obtain r c' out' outl' where
    "g301_cipher_update env (Some c) out outl outsize in_buf inl = (r, Some c', out', outl')"
    using update_Some by blast
  then show ?thesis
    using Update update [of out outl outsize in_buf inl r out' outl']
    by (simp add: cipher_step_def cipher_dispatch_def)
next
  case (Final out outl outsize)
  obtain r c' outl' where "g301_cipher_final env (Some c) out outl outsize = (r, Some c', outl')"
    using final_Some by blast
  then show ?thesis
    using Final final [of out outl outsize r outl']
    by (simp add: cipher_step_def cipher_dispatch_def)
next
  case (Get_ctx_params params)
  obtain r c' ps' where "g301_cipher_get_ctx_params api (Some c) params = (r, Some c', ps')"
    using get_ctx_Some by blast
  then show ?thesis
    using Get_ctx_params get_params [of params r ps']
    by (simp add: cipher_step_def cipher_dispatch_def)
next
  case (Set_ctx_params params)
  obtain r c' where "g301_cipher_set_ctx_params api (Some c) params = (r, Some c')"
    using set_ctx_Some by blast
  then show ?thesis
    using Set_ctx_params set_params [of params r]
    by (simp add: cipher_step_def cipher_dispatch_def)
qed

lemma call_ok_init_key:
  assumes "call_ok (env, if enc then Encrypt_init k keylen iv ivlen params
                         else Decrypt_init k keylen iv ivlen params)" "k = Some kb"
  shows "unat keylen \<le> length kb"
  using assms by (simp add: call_ok_def split: if_splits)

lemma step_good:
  assumes "good c" "call_ok e"
  shows "good (cipher_step api c e)"
proof -
  obtain env call where e: "e = (env, call)" by (cases e)
  have atom: "atomic_documented env" using assms(2) by (simp add: e call_ok_def)
  have "good (cipher_step api c (env, call))"
  proof (cases rule: step_cases [of api env c call])
    case (initialise k keylen iv ivlen params enc r)
    have "\<And>kb. k = Some kb \<Longrightarrow> unat keylen \<le> length kb"
      using call_ok_init_key [OF assms(2) [unfolded e initialise(2)]] .
    then show ?thesis using g301_init_preserves [OF _ _ initialise(1)] assms(1) by blast
  next
    case update
    show ?thesis using update_preserves [OF update(2)] assms(1) atom by blast
  next
    case final
    show ?thesis using final_preserves [OF final(2)] assms(1) atom by blast
  next
    case get_params
    show ?thesis using get_ctx_preserves [OF get_params(2)] assms(1) by blast
  next
    case set_params
    show ?thesis using set_ctx_preserves [OF set_params(2)] assms(1) by blast
  qed
  then show ?thesis by (simp add: e)
qed

section \<open>What no call changes\<close>

text \<open>The table of inner operations and the record limit are fixed when the context is made.\<close>

lemma init_fixed:
  assumes "g301_init api env (Some c) k keylen iv ivlen params e = (r, Some c')"
  shows "ops c' = ops c \<and> record_limit c' = record_limit c"
proof (cases "init_accepts api c k keylen iv ivlen params e")
  case True
  show ?thesis
    unfolding init_acceptedD(2) [OF assms True] accepted_commit_def by simp
next
  case False
  show ?thesis
    using assms False unfolding g301_init_unfold Let_def init_accepts_def
    by (auto split: if_splits)
qed

lemma step_fixed:
  "ops (cipher_step api c e) = ops c \<and> record_limit (cipher_step api c e) = record_limit c"
proof -
  have "ops (cipher_step api c (fst e, snd e)) = ops c
      \<and> record_limit (cipher_step api c (fst e, snd e)) = record_limit c"
    by (cases rule: step_cases [of api "fst e" c "snd e"])
       (auto dest: init_fixed update_preserves(1) final_preserves(1) get_ctx_preserves(1)
          set_ctx_preserves(1) simp: same_setup_def)
  then show ?thesis by simp
qed

lemma run_ops [simp]: "ops (run_steps (cipher_step api) c es) = ops c"
  by (induction es arbitrary: c) (simp_all add: step_fixed)

lemma run_limit [simp]: "record_limit (run_steps (cipher_step api) c es) = record_limit c"
  by (induction es arbitrary: c) (simp_all add: step_fixed)

section \<open>The budget of a write key\<close>

text \<open>The bookkeeping of the budget, compared between two contexts.\<close>

definition same_usage :: "('a, 'i, 'h) G301_CIPHER_CTX \<Rightarrow> ('a, 'i, 'h) G301_CIPHER_CTX \<Rightarrow> bool" where
  "same_usage c c' \<longleftrightarrow>
     encrypted_records c' = encrypted_records c \<and> usage_exhausted c' = usage_exhausted c
   \<and> record_reserved c' = record_reserved c \<and> record_limit c' = record_limit c"

lemma same_usage_refl [simp]: "same_usage c c"
  by (simp add: same_usage_def)

lemma same_usage_intros [simp]:
  "same_usage c (g301_raise_error d r) = same_usage c d"
  "same_usage c (g301_poison d) = same_usage c d"
  "same_usage c (g301_invalidate_record d) = same_usage c d"
  "same_usage c (d\<lparr>inner := i\<rparr>) = same_usage c d"
  "same_usage c (d\<lparr>inner := i, payload_started := b\<rparr>) = same_usage c d"
  "same_usage c (d\<lparr>inner := i, decrypt_tag_current := b\<rparr>) = same_usage c d"
  "same_usage c (after_final d) = same_usage c d"
  "same_usage c ((after_final d)\<lparr>phase := p\<rparr>) = same_usage c d"
  "same_usage c (stale_tag_ctx d t) = same_usage c d"
  "same_usage c (init_rejected_ctx d t hk ch) = same_usage c d"
  by (simp_all add: same_usage_def after_final_def stale_tag_ctx_def)

lemma update_usage:
  assumes "g301_cipher_update env (Some c) out outl outsize in_buf inl = (r, Some c', out', outl')"
  shows "same_usage c c' \<or> same_usage (snd (g301_inject_manifest env c)) c'"
proof (cases outl)
  case None
  with assms show ?thesis by simp
next
  case (Some v)
  show ?thesis
    using assms unfolding Some
    by (cases rule: update_cases [of c out outsize in_buf inl env v])
       (auto split: if_splits)
qed

lemma final_usage:
  assumes "g301_cipher_final env (Some c) out outl outsize = (r, Some c', outl')"
  shows "same_usage c c' \<or> same_usage (snd (g301_inject_manifest env c)) c'"
proof (cases outl)
  case None
  with assms show ?thesis by (auto simp: final_no_outl)
next
  case (Some v)
  show ?thesis
    using assms unfolding Some
    by (cases rule: final_cases [of c env out v outsize]) auto
qed

lemma get_tag_usage:
  assumes "g301_get_encryption_tag api c p = (r, c', p')"
  shows "same_usage c c'"
  using assms
  by (auto simp: g301_get_encryption_tag_def Let_def split_beta
      split: if_splits option.splits list.splits)

lemma get_ctx_usage:
  assumes "g301_cipher_get_ctx_params api (Some c) params = (r, Some c', ps')"
  shows "same_usage c c'"
proof -
  have "(\<exists>reason. c' = g301_raise_error c reason) \<or> c' = c
      \<or> (\<exists>p r' p'. g301_get_encryption_tag api c p = (r', c', p'))"
    using assms
    by (auto simp: g301_cipher_get_ctx_params_def Let_def split_beta prod_eq_iff
        split: option.splits if_splits)
  then show ?thesis by (elim exE disjE) (auto dest: get_tag_usage)
qed

lemma set_ctx_usage:
  assumes "g301_cipher_set_ctx_params api (Some c) params = (r, Some c')"
  shows "same_usage c c'"
  using assms by (cases params) (auto simp: set_ctx_unfold split: if_splits)

text \<open>
  How much of the budget is spent, counting an exhausted budget as spent in full; and
  whether a step spends: it makes a reservation the context did not hold.
\<close>

definition usage_rank :: "('a, 'i, 'h) G301_CIPHER_CTX \<Rightarrow> int" where
  "usage_rank c = (if usage_exhausted c then sint (record_limit c) else sint (encrypted_records c))"

definition reserves_record :: "ossl_param_api \<Rightarrow> ('a, 'i, 'h) G301_CIPHER_CTX \<Rightarrow> cipher_event \<Rightarrow> bool" where
  "reserves_record api c e \<longleftrightarrow> \<not> record_reserved c \<and> record_reserved (cipher_step api c e)"

text \<open>The installed write key stays the same over a step.\<close>

definition same_install :: "ossl_param_api \<Rightarrow> ('a, 'i, 'h) G301_CIPHER_CTX \<Rightarrow> cipher_event \<Rightarrow> bool" where
  "same_install api c e \<longleftrightarrow>
     usage_key_valid c \<and> usage_key (cipher_step api c e) = usage_key c"

lemma usage_rank_cong:
  "same_usage c c' \<Longrightarrow> usage_rank c' = usage_rank c \<and> record_reserved c' = record_reserved c"
  by (simp add: same_usage_def usage_rank_def)

lemma usage_rank_le: "usage_wf c \<Longrightarrow> usage_rank c \<le> sint (record_limit c)"
  by (simp add: usage_wf_def usage_rank_def split: if_splits)

lemma usage_rank_nonneg: "usage_wf c \<Longrightarrow> 0 \<le> usage_rank c"
  by (simp add: usage_wf_def usage_rank_def split: if_splits)

lemma reserve_rank:
  assumes "usage_wf c" "atomic_documented env"
  shows "usage_rank (snd (g301_reserve_encryption_record env c)) = usage_rank c +
     (if \<not> record_reserved c \<and> record_reserved (snd (g301_reserve_encryption_record env c))
      then 1 else 0)"
proof (cases "record_reserved c")
  case True
  then show ?thesis by (simp add: reserve_already)
next
  case nres: False
  show ?thesis
  proof (cases "fst (g301_reserve_encryption_record env c)")
    case True
    note k = reserve_counts [OF assms nres True]
    show ?thesis unfolding k(1) using k nres by (simp add: usage_rank_def)
  next
    case False
    have nores: "\<not> record_reserved (snd (g301_reserve_encryption_record env c))"
      using reserve_refuses [OF False] by blast
    consider "\<not> usage_key_valid c \<or> usage_exhausted c \<or> CRYPTO_atomic_add env (encrypted_records c) 1 = None"
      | r where "usage_key_valid c" "\<not> usage_exhausted c"
          "CRYPTO_atomic_add env (encrypted_records c) 1 = Some r"
      by blast
    then have "usage_rank (snd (g301_reserve_encryption_record env c)) = usage_rank c"
    proof cases
      case 1
      then show ?thesis
        using nres by (auto simp: g301_reserve_encryption_record_def usage_rank_def)
    next
      case 2
      have r: "r = encrypted_records c + 1" using assms(2) 2(3) by (rule atomic_documentedD)
      have lt: "sint (encrypted_records c) < INT_MAX"
        and le: "sint (encrypted_records c) \<le> sint (record_limit c)"
        using assms(1) 2(2) by (simp_all add: usage_wf_def)
      have "\<not> sint r \<le> sint (record_limit c)"
        using False nres 2 by (simp add: g301_reserve_encryption_record_def Let_def split: if_splits)
      then have "sint (encrypted_records c) = sint (record_limit c)"
        using le sint_cint_Suc [OF lt] by (simp add: r)
      then show ?thesis
        using nres 2 False
        by (auto simp: g301_reserve_encryption_record_def usage_rank_def Let_def)
    qed
    then show ?thesis using nores by simp
  qed
qed

lemma inject_rank:
  assumes "usage_wf c" "atomic_documented env"
  shows "usage_rank (snd (g301_inject_manifest env c)) = usage_rank c +
     (if \<not> record_reserved c \<and> record_reserved (snd (g301_inject_manifest env c)) then 1 else 0)"
proof -
  note r = reserve_rank [OF assms]
  have p: "usage_rank (d\<lparr>phase := q\<rparr>) = usage_rank d" "usage_rank (g301_poison d) = usage_rank d"
    "usage_rank (g301_raise_error d n) = usage_rank d" "usage_rank (d\<lparr>inner := i\<rparr>) = usage_rank d"
    for d :: "('a, 'b, 'c) G301_CIPHER_CTX" and q n i
    by (simp_all add: usage_rank_def)
  have a: "usage_rank (after_manifest env c) = usage_rank c +
     (if \<not> record_reserved c \<and> record_reserved (after_manifest env c) then 1 else 0)"
    unfolding after_manifest_def p by (cases "encrypting c") (simp_all add: reserved_ctx_def r)
  show ?thesis
    using a r by (cases rule: inject_cases [of c env]) (auto simp: p)
qed

text \<open>What an initialisation does to the bookkeeping.\<close>

definition usage_kept :: "('a, 'i, 'h) G301_CIPHER_CTX \<Rightarrow> ('a, 'i, 'h) G301_CIPHER_CTX \<Rightarrow> bool" where
  "usage_kept c c' \<longleftrightarrow>
     usage_key_valid c' = usage_key_valid c \<and> usage_key c' = usage_key c
   \<and> encrypted_records c' = encrypted_records c \<and> usage_exhausted c' = usage_exhausted c
   \<and> record_limit c' = record_limit c \<and> (record_reserved c' \<longrightarrow> record_reserved c)"

definition usage_restarted :: "('a, 'i, 'h) G301_CIPHER_CTX \<Rightarrow> ('a, 'i, 'h) G301_CIPHER_CTX \<Rightarrow> bool" where
  "usage_restarted c c' \<longleftrightarrow>
     (\<not> usage_key_valid c \<or> usage_key c \<noteq> usage_key c') \<and> usage_key_valid c'
   \<and> usage_key c' = current_key c'
   \<and> encrypted_records c' = 0 \<and> \<not> usage_exhausted c' \<and> \<not> record_reserved c'
   \<and> record_limit c' = record_limit c"

lemma begin_usage:
  assumes "key_wf c"
  shows "usage_kept c (snd (g301_init_begin env c hk hi t e))
    \<or> hi \<and> e \<and> fst (g301_init_begin env c hk hi t e)
      \<and> usage_restarted c (snd (g301_init_begin env c hk hi t e))"
proof (cases "hi \<and> e \<and> fst (g301_init_begin env c hk hi t e)")
  case True
  then have f: "fst (g301_init_begin env c hk True t True)" by auto
  have "current_key_valid c" using f by (simp add: begin_result begin_possible_def)
  then show ?thesis
    using True begin_iv_encrypt [OF assms f]
    by (auto simp: usage_kept_def usage_restarted_def split: if_splits)
next
  case False
  then show ?thesis
    using begin_usage_unchanged [OF False] by (auto simp: usage_kept_def)
qed

lemma commit_usage:
  assumes "key_wf c" "\<And>kb. k = Some kb \<Longrightarrow> 32 \<le> length kb"
  shows "usage_kept c (snd (g301_init_commit env c k iv fp t e))
    \<or> iv \<noteq> None \<and> e \<and> fst (g301_init_commit env c k iv fp t e)
      \<and> usage_restarted c (snd (g301_init_commit env c k iv fp t e))"
proof (cases "commit_delegated env c k iv fp e")
  case True
  note wf = key_wf_commit_ctx(1) [OF assms(1) True assms(2)]
  have s: "usage_kept (commit_ctx env c k iv fp e) d = usage_kept c d"
    "usage_restarted (commit_ctx env c k iv fp e) d = usage_restarted c d" for d
    by (simp_all add: usage_kept_def usage_restarted_def)
  show ?thesis
    unfolding commit_delegates [OF True]
    using begin_usage [OF wf, unfolded s] by blast
next
  case False
  from commit_refused(2) [OF False, of t] have "usage_kept c (snd (g301_init_commit env c k iv fp t e))"
    by (elim exE conjE disjE) (simp_all add: usage_kept_def)
  then show ?thesis ..
qed

lemma init_usage:
  assumes "ctx_wf c" "\<And>kb. k = Some kb \<Longrightarrow> unat keylen \<le> length kb"
    and "g301_init api env (Some c) k keylen iv ivlen params e = (r, Some c')"
  shows "usage_kept c c' \<or> iv \<noteq> None \<and> e \<and> r \<and> usage_restarted c c'"
proof (cases "init_accepts api c k keylen iv ivlen params e")
  case True
  have wf: "key_wf c" using assms(1) by (simp add: ctx_wf_def)
  note k = accepted_key_length [OF True assms(2)]
  have s: "usage_kept (init_entry_ctx c t hk ch) d = usage_kept c d"
    "usage_restarted (init_entry_ctx c t hk ch) d = usage_restarted c d" for t hk ch d
    by (simp_all add: usage_kept_def usage_restarted_def)
  show ?thesis
    unfolding init_acceptedD [OF assms(3) True] accepted_commit_def
    using commit_usage [OF init_entry_key_wf [OF wf], of k, unfolded s] k by blast
next
  case False
  have "record_wf c" using assms(1) by (simp add: ctx_wf_def)
  then show ?thesis
    using init_rejectedD(2) [OF assms(3) False] by (simp add: usage_kept_def)
qed

lemma step_rank:
  assumes "good c" "call_ok e" "same_install api c e"
  shows "usage_rank c + (if reserves_record api c e then 1 else 0) \<le> usage_rank (cipher_step api c e)"
proof -
  obtain env call where e: "e = (env, call)" by (cases e)
  have atom: "atomic_documented env" using assms(2) by (simp add: e call_ok_def)
  note inj = inject_rank [OF _ atom, of c]
  let ?c' = "cipher_step api c (env, call)"
  have main: "usage_rank c + (if \<not> record_reserved c \<and> record_reserved ?c' then 1 else 0) \<le> usage_rank ?c'"
  proof (cases rule: step_cases [of api env c call])
    case (initialise k keylen iv ivlen params enc r)
    have "\<And>kb. k = Some kb \<Longrightarrow> unat keylen \<le> length kb"
      using call_ok_init_key [OF assms(2) [unfolded e initialise(2)]] .
    then have "usage_kept c ?c' \<or> usage_restarted c ?c'"
      using init_usage [OF _ _ initialise(1)] assms(1) by blast
    moreover have "\<not> usage_restarted c ?c'"
      using assms(3) by (auto simp: usage_restarted_def same_install_def e)
    ultimately show ?thesis by (auto simp: usage_kept_def usage_rank_def)
  next
    case update
    show ?thesis
      using update_usage [OF update(2)] inj assms(1)
      by (auto dest!: usage_rank_cong)
  next
    case final
    show ?thesis
      using final_usage [OF final(2)] inj assms(1)
      by (auto dest!: usage_rank_cong)
  next
    case get_params
    show ?thesis
      using get_ctx_usage [OF get_params(2)] by (auto dest!: usage_rank_cong)
  next
    case set_params
    show ?thesis
      using set_ctx_usage [OF set_params(2)] by (auto dest!: usage_rank_cong)
  qed
  then show ?thesis by (simp add: e reserves_record_def)
qed

interpretation good_steps: step_invariant "cipher_step api" call_ok good
  by unfold_locales (rule step_good)

interpretation budget: charged_steps "cipher_step api" call_ok good usage_rank
    "\<lambda>c e. if reserves_record api c e then 1 else 0" "same_install api"
  by unfold_locales (rule step_rank)

end
