(* ===== verification/Cipher_Contract.thy ===== *)
theory Cipher_Contract
  imports Cipher_Machine
begin

text \<open>
  The state contract of docs/G301_DRAFT.md as an abstract machine, and the proof that
  g301_cipher.c refines it: every call of every run does what the contract allows a call
  with that result to do. Facts about records (final once, no AAD after payload, poison
  until reinitialisation) are then facts about the small machine.
\<close>

section \<open>The contract\<close>

text \<open>
  \<open>Associated\<close> and \<open>Payload\<close> are the document's \<open>ACTIVE\<close>, before and after the first
  payload byte; \<open>Poisoned\<close> is a context that needs reinitialisation.
\<close>

datatype contract = Idle | Pending | Associated | Payload | Finalized | Poisoned

definition open_state :: "contract \<Rightarrow> bool" where
  "open_state s \<longleftrightarrow> s \<in> {Pending, Associated, Payload}"

definition drop_record :: "contract \<Rightarrow> contract" where
  "drop_record s = (if s = Poisoned then Poisoned else Idle)"

fun is_init :: "cipher_call \<Rightarrow> bool" where
  "is_init (Encrypt_init _ _ _ _ _) = True"
| "is_init (Decrypt_init _ _ _ _ _) = True"
| "is_init _ = False"

fun has_iv :: "cipher_call \<Rightarrow> bool" where
  "has_iv (Encrypt_init _ _ iv _ _) = (iv \<noteq> None)"
| "has_iv (Decrypt_init _ _ iv _ _) = (iv \<noteq> None)"
| "has_iv _ = False"

inductive contract_step :: "contract \<Rightarrow> cipher_call \<Rightarrow> bool \<Rightarrow> contract \<Rightarrow> bool" where
  begin_record: "is_init call \<Longrightarrow> has_iv call \<Longrightarrow> contract_step s call True Pending"
| key_only: "is_init call \<Longrightarrow> \<not> has_iv call \<Longrightarrow> contract_step s call True (drop_record s)"
| init_rejected: "is_init call \<Longrightarrow> s' = s \<or> s' = drop_record s \<Longrightarrow> contract_step s call False s'"
| init_failed: "is_init call \<Longrightarrow> contract_step s call False Poisoned"
| associated_data: "s = Pending \<or> s = Associated \<Longrightarrow> inl \<noteq> 0
    \<Longrightarrow> contract_step s (Update None (Some v) outsize (Some in_buf) inl) True Associated"
| payload_data: "open_state s \<Longrightarrow> inl \<noteq> 0 \<Longrightarrow> inl \<le> outsize
    \<Longrightarrow> contract_step s (Update (Some out) (Some v) outsize (Some in_buf) inl) True Payload"
| empty_data: "open_state s \<Longrightarrow> contract_step s (Update out (Some v) outsize in_buf 0) True s"
| data_refused: "contract_step s (Update out outl outsize in_buf inl) False s"
| data_failed: "open_state s \<Longrightarrow> contract_step s (Update out (Some v) outsize in_buf inl) False Poisoned"
| finish: "open_state s \<Longrightarrow> contract_step s (Final out (Some v) outsize) True Finalized"
| finish_failed: "open_state s \<Longrightarrow> contract_step s (Final out outl outsize) False Poisoned"
| finish_refused: "\<not> open_state s \<Longrightarrow> contract_step s (Final out outl outsize) False s"
| query: "contract_step s (Get_ctx_params params) r s"
| tag_failed: "contract_step Finalized (Get_ctx_params (Some ps)) False Poisoned"
| tag_set: "contract_step s (Set_ctx_params params) r s"
| tag_set_failed: "open_state s \<Longrightarrow> contract_step s (Set_ctx_params (Some ps)) False Poisoned"

inductive_cases update_stepE: "contract_step s (Update out outl outsize in_buf inl) r s'"
inductive_simps final_True_step: "contract_step s (Final out outl outsize) True s'"

section \<open>The implementation in the terms of the contract\<close>

definition contract_of :: "('a, 'i, 'h) G301_CIPHER_CTX \<Rightarrow> contract" where
  "contract_of c =
     (if needs_reinit c then Poisoned
      else case phase c of
        G301_PHASE_NO_RECORD \<Rightarrow> Idle
      | G301_PHASE_MANIFEST_PENDING \<Rightarrow> Pending
      | G301_PHASE_ACTIVE \<Rightarrow> (if payload_started c then Payload else Associated)
      | G301_PHASE_FINALIZED \<Rightarrow> Finalized)"

lemma contract_of_frame [simp, frame_simps]:
  "contract_of (g301_raise_error c r) = contract_of c"
  "contract_of (g301_poison c) = Poisoned"
  "contract_of (c\<lparr>inner := i\<rparr>) = contract_of c"
  "contract_of (c\<lparr>decrypt_tag_current := b\<rparr>) = contract_of c"
  "contract_of (c\<lparr>inner := i, decrypt_tag_current := b\<rparr>) = contract_of c"
  "contract_of (stale_tag_ctx c b) = contract_of c"
  "contract_of (after_final c) = contract_of c"
  "contract_of (g301_invalidate_record c) = drop_record (contract_of c)"
  by (simp_all add: contract_of_def stale_tag_ctx_def after_final_def drop_record_def
      split: G301_PHASE.split)

lemma open_state_closed: "open_state (contract_of c) = (\<not> record_closed c)"
  by (cases "phase c") (simp_all add: open_state_def contract_of_def record_closed_def record_open_def)

lemma contract_of_poisoned_iff: "contract_of c = Poisoned \<longleftrightarrow> needs_reinit c"
  by (cases "phase c") (simp_all add: contract_of_def)

lemma contract_of_no_record:
  "phase c' = G301_PHASE_NO_RECORD \<Longrightarrow> needs_reinit c' = needs_reinit c
   \<Longrightarrow> contract_of c' = drop_record (contract_of c)"
  by (simp add: drop_record_def contract_of_poisoned_iff) (simp add: contract_of_def)

lemma contract_of_poisoned: "needs_reinit c \<Longrightarrow> contract_of c = Poisoned"
  by (simp add: contract_of_def)

lemma contract_of_injected:
  assumes "record_wf c" "\<not> record_closed c" "fst (g301_inject_manifest env c)"
  shows "contract_of (snd (g301_inject_manifest env c))
       = (if contract_of c = Pending then Associated else contract_of c)"
proof -
  have "\<not> needs_reinit c" "phase c = G301_PHASE_MANIFEST_PENDING \<or> phase c = G301_PHASE_ACTIVE"
    using assms(2) by (auto simp: record_closed_def record_open_def)
  moreover have "phase c = G301_PHASE_MANIFEST_PENDING \<Longrightarrow> \<not> payload_started c"
    using assms(1) by (auto simp: record_wf_def record_injected_def)
  ultimately show ?thesis
    using inject_ok [OF assms(3)] by (auto simp: contract_of_def)
qed

lemma contract_of_not_injected:
  assumes "\<not> record_closed c" "\<not> fst (g301_inject_manifest env c)"
  shows "contract_of (snd (g301_inject_manifest env c)) = Poisoned"
  using inject_fail [OF assms(2)] assms(1) by (auto simp: contract_of_poisoned record_closed_def)

section \<open>Each operation refines the contract\<close>

lemma init_call_iff [simp]:
  "is_init (if e then Encrypt_init k kl iv il ps else Decrypt_init k kl iv il ps)"
  "has_iv (if e then Encrypt_init k kl iv il ps else Decrypt_init k kl iv il ps) = (iv \<noteq> None)"
  by simp_all

lemma init_refines:
  assumes "ctx_wf c" "is_init call" "has_iv call = (iv \<noteq> None)"
    and "g301_init api env (Some c) k keylen iv ivlen params e = (r, Some c')"
  shows "contract_step (contract_of c) call r (contract_of c')"
proof (cases "init_accepts api c k keylen iv ivlen params e")
  case True
  let ?d = "init_entry_ctx c (init_has_tag api params) (k \<noteq> None) (direction_change c e)"
  let ?fp = "filtered_init_params api (locate_opt api params OSSL_CIPHER_PARAM_IVLEN)
     (locate_opt api params OSSL_CIPHER_PARAM_AEAD_TAG)"
  let ?m = "g301_init_commit env ?d k iv ?fp (init_has_tag api params) e"
  have r: "r = fst ?m" and c': "c' = snd ?m"
    using init_acceptedD [OF assms(4) True] by (simp_all add: accepted_commit_def)
  show ?thesis
  proof (cases r)
    case False
    then have "contract_of c' = Poisoned"
      using commit_fail [of env ?d k iv ?fp "init_has_tag api params" e] r c'
      by (simp add: contract_of_poisoned)
    then show ?thesis using False assms(2) by (simp add: init_failed)
  next
    case ok: True
    show ?thesis
    proof (cases iv)
      case None
      have "contract_of c' = drop_record (contract_of c)"
        using commit_ok_no_iv [of env ?d k ?fp "init_has_tag api params" e] ok r None
        by (intro contract_of_no_record) (simp_all add: c')
      then show ?thesis using ok assms(2,3) None by (simp add: key_only)
    next
      case (Some n)
      have "contract_of c' = Pending"
        using commit_ok_iv [of env ?d k n ?fp "init_has_tag api params" e] ok r Some
        by (simp add: c' contract_of_def)
      then show ?thesis using ok assms(2,3) Some by (simp add: begin_record)
    qed
  qed
next
  case False
  have "record_wf c" using assms(1) by (simp add: ctx_wf_def)
  note init_rejectedD [OF assms(4) False this]
  then show ?thesis
    using assms(2) by (auto simp: init_rejected_ctx_def intro!: init_rejected)
qed

lemma update_refusal_closed:
  "update_refusal c out outsize in_buf inl = None \<Longrightarrow> \<not> record_closed c"
  by (auto simp: update_refusal_def)

lemma update_admitted:
  assumes "update_refusal c out outsize in_buf inl = None" "inl \<noteq> 0"
  shows "in_buf \<noteq> None" "uint inl \<le> INT_MAX" "out \<noteq> None \<Longrightarrow> inl \<le> outsize"
    "out = None \<Longrightarrow> \<not> payload_started c"
  using assms by (auto simp: update_refusal_def not_less split: if_splits)

lemma update_refines:
  assumes "ctx_wf c"
    and "g301_cipher_update env (Some c) out outl outsize in_buf inl = (r, Some c', out', outl')"
  shows "contract_step (contract_of c) (Update out outl outsize in_buf inl) r (contract_of c')"
proof (cases outl)
  case None
  with assms(2) show ?thesis by (auto intro: data_refused)
next
  case (Some v)
  have wf: "record_wf c" using assms(1) by (simp add: ctx_wf_def)
  note eq = assms(2) [unfolded Some]
  show ?thesis
  proof (cases rule: update_cases [of c out outsize in_buf inl env v])
    case refused
    with eq show ?thesis by (auto intro: data_refused)
  next
    case empty
    then show ?thesis
      using eq update_refusal_closed [OF empty(1)] Some
      by (auto intro: empty_data simp: open_state_closed)
  next
    case not_injected
    note cl = update_refusal_closed [OF not_injected(1)]
    have "\<not> r" "contract_of c' = Poisoned"
      using eq not_injected contract_of_not_injected [OF cl not_injected(3)] by auto
    then show ?thesis using cl Some by (auto intro: data_failed simp: open_state_closed)
  next
    case (failed d)
    note cl = update_refusal_closed [OF failed(1)]
    have "\<not> r" "contract_of c' = Poisoned" using eq failed(7) by auto
    then show ?thesis using cl Some by (auto intro: data_failed simp: open_state_closed)
  next
    case (taken d)
    note cl = update_refusal_closed [OF taken(1)]
    have r: r using eq taken(7) by simp
    have act: "phase d = G301_PHASE_ACTIVE" "\<not> needs_reinit d"
      using inject_ok [OF taken(3)] taken(4) cl by (auto simp: record_closed_def)
    note adm = update_admitted [OF taken(1,2)]
    obtain ib where ib: "in_buf = Some ib" using adm(1) by blast
    show ?thesis
    proof (cases out)
      case None
      have c': "contract_of c' = contract_of d" using eq taken(7) None by auto
      have st: "contract_of c = Pending \<or> contract_of c = Associated"
        using cl adm(4) [OF None] by (auto simp: contract_of_def record_closed_def record_open_def)
      have "contract_of d = Associated"
        using contract_of_injected [OF wf cl taken(3)] taken(4) st by auto
      then show ?thesis
        using st taken(2) r c' by (auto simp: None Some ib intro: associated_data)
    next
      case (Some ob)
      have "contract_of c' = Payload" using eq taken(7) Some act by (auto simp: contract_of_def)
      then show ?thesis
        using cl taken(2) r adm(3) by (auto simp: Some \<open>outl = Some v\<close> ib open_state_closed
            intro: payload_data)
    qed
  qed
qed

lemma final_refines:
  assumes "ctx_wf c"
    and "g301_cipher_final env (Some c) out outl outsize = (r, Some c', outl')"
  shows "contract_step (contract_of c) (Final out outl outsize) r (contract_of c')"
proof (cases outl)
  case None
  with assms(2) have "\<not> r" "c' = g301_raise_error (if record_closed c then c else g301_poison c)
      G301_R_INVALID_PARAMETER"
    by (auto simp: final_no_outl)
  then show ?thesis
    using open_state_closed [of c] by (auto intro: finish_failed finish_refused)
next
  case (Some v)
  note eq = assms(2) [unfolded Some]
  show ?thesis
  proof (cases rule: final_cases [of c env out v outsize])
    case refused
    then show ?thesis
      using eq open_state_closed [of c] by (auto intro: finish_refused)
  next
    case stale
    then show ?thesis
      using eq open_state_closed [of c] by (auto intro: finish_failed)
  next
    case not_injected
    then show ?thesis
      using eq open_state_closed [of c] contract_of_not_injected [OF not_injected(1,3)]
      by (auto intro: finish_failed)
  next
    case failed
    then have "\<not> r" "contract_of c' = Poisoned" using eq by auto
    then show ?thesis
      using failed(1) open_state_closed [of c] by (auto intro: finish_failed)
  next
    case (completed d)
    have "\<not> needs_reinit d" using inject_ok [OF completed(3)] completed(1,4)
      by (simp add: record_closed_def)
    then have "contract_of c' = Finalized"
      using eq completed(6) by (auto simp: contract_of_def after_final_def)
    then show ?thesis
      using eq completed(1,6) open_state_closed [of c] Some by (auto intro: finish)
  qed
qed

lemma get_tag_poison:
  assumes "g301_get_encryption_tag api c p = (r, c', p')"
  shows "contract_of c' = contract_of c \<or> \<not> r \<and> contract_of c' = Poisoned"
  using assms
  by (auto simp: g301_get_encryption_tag_def Let_def split_beta
      split: if_splits option.splits list.splits)

lemma get_ctx_refines:
  assumes "g301_cipher_get_ctx_params api (Some c) params = (r, Some c', ps')"
  shows "contract_step (contract_of c) (Get_ctx_params params) r (contract_of c')"
proof (cases "contract_of c' = contract_of c")
  case True
  then show ?thesis by (simp add: query)
next
  case False
  have "tag_readable c"
  proof (rule ccontr)
    assume "\<not> tag_readable c"
    from get_ctx_not_readable [OF this assms] False show False by auto
  qed
  then have fin: "contract_of c = Finalized" by (simp add: tag_readable_def contract_of_def)
  obtain ps where ps: "params = Some ps"
    using assms False by (cases params) (auto simp: g301_cipher_get_ctx_params_def)
  have "(\<exists>reason. c' = g301_raise_error c reason) \<or> c' = c
      \<or> (\<exists>p p'. g301_get_encryption_tag api c p = (r, c', p'))"
    using assms
    by (auto simp: g301_cipher_get_ctx_params_def Let_def split_beta prod_eq_iff
        split: option.splits if_splits)
  then have "\<not> r \<and> contract_of c' = Poisoned"
    using False by (elim exE disjE) (auto dest: get_tag_poison)
  then show ?thesis using fin ps by (simp add: tag_failed)
qed

lemma set_ctx_refines:
  assumes "g301_cipher_set_ctx_params api (Some c) params = (r, Some c')"
  shows "contract_step (contract_of c) (Set_ctx_params params) r (contract_of c')"
proof (cases params)
  case None
  with assms show ?thesis by (auto intro: tag_set)
next
  case (Some ps)
  note eq = assms [unfolded Some set_ctx_unfold]
  show ?thesis
  proof (cases "set_accepts api c ps \<and> has_tag api ps \<and> \<not> fst (tag_update api c ps)")
    case True
    then have "\<not> record_closed c" by (auto simp: set_accepts_def has_tag_def)
    moreover have "\<not> r" "contract_of c' = Poisoned" using eq True by auto
    ultimately show ?thesis
      using Some open_state_closed [of c] by (auto intro: tag_set_failed)
  next
    case False
    then have "contract_of c' = contract_of c" using eq by (auto split: if_splits)
    then show ?thesis by (simp add: tag_set)
  qed
qed

lemma step_refines:
  assumes "ctx_wf c"
  shows "contract_step (contract_of c) call (fst (cipher_dispatch api c (env, call)))
           (contract_of (cipher_step api c (env, call)))"
proof (cases rule: step_cases [of api env c call])
  case (initialise k keylen iv ivlen params enc r)
  then show ?thesis
    using init_refines [OF assms _ _ initialise(1), of call] by simp
next
  case update
  then show ?thesis using update_refines [OF assms update(2)] by simp
next
  case final
  then show ?thesis using final_refines [OF assms final(2)] by simp
next
  case get_params
  then show ?thesis using get_ctx_refines [OF get_params(2)] by simp
next
  case set_params
  then show ?thesis using set_ctx_refines [OF set_params(2)] by simp
qed

section \<open>Runs\<close>

text \<open>What a caller sees of a run: each call with its return value.\<close>

definition cipher_trace ::
  "ossl_param_api \<Rightarrow> ('a, 'i, 'h) G301_CIPHER_CTX \<Rightarrow> cipher_event list \<Rightarrow> (cipher_call \<times> bool) list" where
  "cipher_trace api c es =
     observations (cipher_step api) snd (\<lambda>c e. fst (cipher_dispatch api c e)) c es"

interpretation contract: refinement "cipher_step api" call_ok good snd
    "\<lambda>c e. fst (cipher_dispatch api c e)" contract_of contract_step
proof unfold_locales
  fix c :: "('a, 'b, 'c) G301_CIPHER_CTX" and e
  assume "good c" "call_ok e"
  then show "contract_step (contract_of c) (snd e) (fst (cipher_dispatch api c e))
      (contract_of (cipher_step api c e))"
    using step_refines [of c "snd e" api "fst e"] by simp
qed

lemma trace_contract:
  assumes "good c" "list_all call_ok es"
  shows "abs_run contract_step (contract_of c) (cipher_trace api c es)
           (contract_of (run_steps (cipher_step api) c es))"
  unfolding cipher_trace_def by (rule contract.run_simulated [OF assms])

text \<open>A successful IV-bearing initialisation, and the calls that work on a record.\<close>

fun begins_record :: "cipher_call \<times> bool \<Rightarrow> bool" where
  "begins_record (call, r) \<longleftrightarrow> r \<and> is_init call \<and> has_iv call"

fun uses_record :: "cipher_call \<Rightarrow> bool" where
  "uses_record (Update _ _ _ _ _) = True"
| "uses_record (Final _ _ _) = True"
| "uses_record _ = False"

fun adds_associated :: "cipher_call \<Rightarrow> bool" where
  "adds_associated (Update out _ _ _ inl) = (out = None \<and> inl \<noteq> 0)"
| "adds_associated _ = False"

fun adds_payload :: "cipher_call \<Rightarrow> bool" where
  "adds_payload (Update out _ _ _ inl) = (out \<noteq> None \<and> inl \<noteq> 0)"
| "adds_payload _ = False"

fun finishes :: "cipher_call \<Rightarrow> bool" where
  "finishes (Final _ _ _) = True"
| "finishes _ = False"

lemma init_calls:
  "is_init call \<Longrightarrow> \<not> uses_record call" "is_init call \<Longrightarrow> \<not> adds_associated call"
  by (cases call; simp)+

lemma closed_step:
  assumes "contract_step s call r t" "\<not> open_state s" "\<not> begins_record (call, r)"
  shows "\<not> open_state t \<and> (uses_record call \<longrightarrow> \<not> r) \<and> (s = Poisoned \<longrightarrow> t = Poisoned)"
  using assms
  by (cases rule: contract_step.cases)
     (auto simp: open_state_def drop_record_def init_calls split: if_splits)

lemma closed_run:
  assumes "abs_run contract_step s ls t" "\<not> open_state s" "\<forall>x \<in> set ls. \<not> begins_record x"
  shows "\<not> open_state t \<and> (\<forall>(call, r) \<in> set ls. uses_record call \<longrightarrow> \<not> r)
    \<and> (s = Poisoned \<longrightarrow> t = Poisoned)"
  using assms
proof (induction ls arbitrary: s)
  case Nil
  then show ?case by simp
next
  case (Cons x ls)
  obtain call r where x: "x = (call, r)" by (cases x)
  with Cons.prems obtain s' where st: "contract_step s call r s'" and run: "abs_run contract_step s' ls t"
    by (auto simp: abs_run_Cons_iff)
  have "\<not> begins_record (call, r)" using Cons.prems(3) x by simp
  note step = closed_step [OF st Cons.prems(2) this]
  with Cons.IH [OF run] Cons.prems(3) x show ?case by simp
qed

lemma finish_step: "contract_step s call True t \<Longrightarrow> finishes call \<Longrightarrow> t = Finalized"
  by (cases call) (auto simp: final_True_step)

lemma payload_step: "contract_step s call True t \<Longrightarrow> adds_payload call \<Longrightarrow> t = Payload"
  by (cases call) (auto elim: update_stepE)

lemma after_payload_step:
  assumes "contract_step s call r t" "s = Payload \<or> \<not> open_state s" "\<not> begins_record (call, r)"
  shows "(t = Payload \<or> \<not> open_state t) \<and> (adds_associated call \<longrightarrow> \<not> r)"
  using assms
  by (cases rule: contract_step.cases)
     (auto simp: open_state_def drop_record_def init_calls split: if_splits)

lemma after_payload_run:
  assumes "abs_run contract_step s ls t" "s = Payload \<or> \<not> open_state s"
    "\<forall>x \<in> set ls. \<not> begins_record x"
  shows "\<forall>(call, r) \<in> set ls. adds_associated call \<longrightarrow> \<not> r"
  using assms
proof (induction ls arbitrary: s)
  case Nil
  then show ?case by simp
next
  case (Cons x ls)
  obtain call r where x: "x = (call, r)" by (cases x)
  with Cons.prems obtain s' where st: "contract_step s call r s'" and run: "abs_run contract_step s' ls t"
    by (auto simp: abs_run_Cons_iff)
  have "\<not> begins_record (call, r)" using Cons.prems(3) x by simp
  note step = after_payload_step [OF st Cons.prems(2) this]
  with Cons.IH [OF run] Cons.prems(3) x show ?case by simp
qed

lemma trace_append:
  "cipher_trace api c (es @ fs)
   = cipher_trace api c es @ cipher_trace api (run_steps (cipher_step api) c es) fs"
  by (simp add: cipher_trace_def observations_append)

section \<open>The order of the states\<close>

text \<open>
  The states in the order a record goes through them, with \<open>Poisoned\<close> as the last: the rank
  makes them a linear order.
\<close>

fun stage :: "contract \<Rightarrow> nat" where
  "stage Idle = 0" | "stage Pending = 1" | "stage Associated = 2"
| "stage Payload = 3" | "stage Finalized = 4" | "stage Poisoned = 5"

lemma stage_inject: "stage s = stage t \<Longrightarrow> s = t"
  by (cases s; cases t) simp_all

instantiation contract :: linorder
begin

definition less_eq_contract :: "contract \<Rightarrow> contract \<Rightarrow> bool" where
  "s \<le> t \<longleftrightarrow> stage s \<le> stage t"

definition less_contract :: "contract \<Rightarrow> contract \<Rightarrow> bool" where
  "s < t \<longleftrightarrow> stage s < stage t"

instance
  by standard (auto simp: less_eq_contract_def less_contract_def intro: stage_inject)

end

text \<open>Only an initialisation goes back; every other call stays or moves forward.\<close>

lemma contract_forward:
  assumes "contract_step s call r s'" "\<not> is_init call"
  shows "s \<le> s'"
  using assms by (cases rule: contract_step.cases) (auto simp: less_eq_contract_def open_state_def)

lemma contract_run_forward:
  assumes "abs_run contract_step s tr s'" "list_all (\<lambda>(call, r). \<not> is_init call) tr"
  shows "s \<le> s'"
  using assms
proof (induction rule: abs_run.induct)
  case (abs_run_Cons s call r t tr u)
  then have "s \<le> t" "t \<le> u" using contract_forward by auto
  then show ?case by (rule order_trans)
qed simp

lemma trace_calls: "map fst (cipher_trace api c es) = map snd es"
  by (induction es arbitrary: c) (simp_all add: cipher_trace_def)

end
