(* ===== verification/Sample_Cipher.thy ===== *)
theory Sample_Cipher
  imports Cipher_Contract
begin

text \<open>
  Concrete instances of everything the model takes as a parameter, for the witnesses:
  \<open>OSSL_PARAM\<close> functions with the documented behaviour, environments, and a small
  authenticated cipher behind the table of inner operations, with the keys and data of
  tests/test_state_machine.c. No property of the provider depends on this theory.
\<close>

section \<open>Parameters as libcrypto implements them\<close>

text \<open>
  An instance of the documented behaviour of the \<open>OSSL_PARAM\<close> functions on a 64-bit
  little-endian machine, with exactly sized integers.
\<close>

fun le_bytes :: "nat \<Rightarrow> size \<Rightarrow> bytes" where
  "le_bytes 0 v = []"
| "le_bytes (Suc n) v = ucast v # le_bytes n (drop_bit 8 v)"

fun le_value :: "bytes \<Rightarrow> size" where
  "le_value [] = 0"
| "le_value (b # bs) = Bit_Operations.or (ucast b) (push_bit 8 (le_value bs))"

lemma le_value_bytes: "le_value (le_bytes n v) = take_bit (8 * n) v"
proof (induction n arbitrary: v)
  case 0
  then show ?case by simp
next
  case (Suc n)
  have "Bit_Operations.or (ucast (ucast v :: byte)) (push_bit 8 (take_bit (8 * n) (drop_bit 8 v)))
      = take_bit (8 + 8 * n) v"
    by (rule bit_word_eqI) (auto simp: bit_simps)
  then show ?case using Suc.IH by simp
qed

lemma le_bytes_length [simp]: "length (le_bytes n v) = n"
  by (induction n arbitrary: v) simp_all

definition write_value :: "ossl_param_type \<Rightarrow> nat \<Rightarrow> ossl_param \<Rightarrow> size \<Rightarrow> bool \<times> ossl_param" where
  "write_value t n p v =
     (case data p of
        None \<Rightarrow> (True, p\<lparr>return_size := of_nat n\<rparr>)
      | Some b \<Rightarrow>
          if data_type p = t \<and> data_size p = of_nat n
          then (True, p\<lparr>data := Some (memcpy b (le_bytes n v) n), return_size := of_nat n\<rparr>)
          else (False, p))"

definition libcrypto_params :: ossl_param_api where
  "libcrypto_params =
    \<lparr>OSSL_PARAM_locate = index_of,
     OSSL_PARAM_locate_const = (\<lambda>ps k. List.find (\<lambda>p. key p = k) ps),
     OSSL_PARAM_get_size_t = (\<lambda>p.
        case data p of None \<Rightarrow> None
        | Some b \<Rightarrow> if data_type p = OSSL_PARAM_UNSIGNED_INTEGER \<and> data_size p = 8
                   then Some (le_value (take 8 b)) else None),
     OSSL_PARAM_set_size_t = write_value OSSL_PARAM_UNSIGNED_INTEGER 8,
     OSSL_PARAM_set_uint = (\<lambda>p v. write_value OSSL_PARAM_UNSIGNED_INTEGER 4 p (ucast v)),
     OSSL_PARAM_set_int = (\<lambda>p v. write_value OSSL_PARAM_INTEGER 4 p (ucast v)),
     OSSL_PARAM_set_utf8_ptr = (\<lambda>p s.
        (data_type p = OSSL_PARAM_UTF8_PTR,
         p\<lparr>data := Some (map of_char s), return_size := of_nat (length s)\<rparr>)),
     OSSL_PARAM_construct_size_t = (\<lambda>k v.
        \<lparr>key = k, data_type = OSSL_PARAM_UNSIGNED_INTEGER, data = Some (le_bytes 8 v),
         data_size = 8, return_size = OSSL_PARAM_UNMODIFIED\<rparr>),
     OSSL_PARAM_construct_octet_string = (\<lambda>k d n.
        \<lparr>key = k, data_type = OSSL_PARAM_OCTET_STRING, data = d, data_size = n,
         return_size = OSSL_PARAM_UNMODIFIED\<rparr>)\<rparr>"

lemma libcrypto_params_sel [simp]:
  "OSSL_PARAM_locate libcrypto_params = index_of"
  "OSSL_PARAM_locate_const libcrypto_params ps k = List.find (\<lambda>p. key p = k) ps"
  "OSSL_PARAM_construct_octet_string libcrypto_params k d n =
     \<lparr>key = k, data_type = OSSL_PARAM_OCTET_STRING, data = d, data_size = n,
      return_size = OSSL_PARAM_UNMODIFIED\<rparr>"
  "OSSL_PARAM_set_size_t libcrypto_params = write_value OSSL_PARAM_UNSIGNED_INTEGER 8"
  by (simp_all add: libcrypto_params_def)

lemma write_value_key [simp]: "key (snd (write_value t n p v)) = key p"
  by (simp add: write_value_def split: option.split)

lemma params_documented_libcrypto [simp]: "params_documented libcrypto_params"
proof -
  have "le_value (take 8 (le_bytes 8 v)) = v" for v :: size
    using take_bit_length_eq [of v] by (simp add: le_value_bytes)
  then show ?thesis by (simp add: params_documented_def libcrypto_params_def)
qed

section \<open>Environments\<close>

definition ready_env :: crypto_env where
  "ready_env = \<lparr>record_key_write_lock = True, install_key_write_lock = True,
                CRYPTO_atomic_add = (\<lambda>v a. Some (v + a))\<rparr>"

lemma ready_env_sel [simp]:
  "record_key_write_lock ready_env" "install_key_write_lock ready_env"
  "CRYPTO_atomic_add ready_env v a = Some (v + a)" "atomic_documented ready_env"
  by (simp_all add: ready_env_def atomic_documented_def)

definition ready_alloc :: alloc_env where
  "ready_alloc = \<lparr>OPENSSL_zalloc_ok = True, CRYPTO_THREAD_lock_new_ok = True\<rparr>"

section \<open>An inner cipher\<close>

text \<open>
  A complete, if cryptographically worthless, AEAD behind the table of inner operations:
  the payload is XORed with a byte of the key, the tag is 16 copies of a checksum.
\<close>

record sample_cipher =
  sc_key :: bytes
  sc_iv :: bytes
  sc_encrypt :: bool
  sc_aad :: bytes
  sc_plain :: bytes
  sc_tag :: bytes

definition sample_mask :: "bytes \<Rightarrow> bytes \<Rightarrow> bytes" where
  "sample_mask k d = map (Bit_Operations.xor (fold Bit_Operations.xor k 0)) d"

definition sample_checksum :: "bytes \<Rightarrow> bytes \<Rightarrow> bytes \<Rightarrow> bytes \<Rightarrow> bytes" where
  "sample_checksum k n a p = replicate 16 (fold (\<lambda>b s. 3 * s + b) (k @ n @ a @ p) 0)"

definition sample_tag_param :: "ossl_params \<Rightarrow> bytes \<Rightarrow> bytes" where
  "sample_tag_param ps old =
     (case List.find (\<lambda>p. key p = OSSL_CIPHER_PARAM_AEAD_TAG) ps of
        Some p \<Rightarrow> (case data p of Some t \<Rightarrow> t | None \<Rightarrow> old)
      | None \<Rightarrow> old)"

definition sample_tag :: "sample_cipher \<Rightarrow> bytes" where
  "sample_tag i = sample_checksum (sc_key i) (sc_iv i) (sc_aad i) (sc_plain i)"

definition sample_ops :: "(unit, sample_cipher) G301_INNER_OPS" where
  "sample_ops =
    \<lparr>newctx = (\<lambda>_ l. (Some \<lparr>sc_key = [], sc_iv = [], sc_encrypt = False, sc_aad = [],
                            sc_plain = [], sc_tag = []\<rparr>, add_mset R_inner_ctx l)),
     freectx = (\<lambda>i l. release i R_inner_ctx l),
     init = (\<lambda>i k n e ps.
        (True, i\<lparr>sc_key := (case k of None \<Rightarrow> sc_key i | Some kb \<Rightarrow> kb),
                 sc_iv := (case n of None \<Rightarrow> sc_iv i | Some nb \<Rightarrow> nb),
                 sc_encrypt := e, sc_aad := [], sc_plain := [],
                 sc_tag := sample_tag_param ps (sc_tag i)\<rparr>)),
     update = (\<lambda>i out outl in_buf inl.
        case out of
          None \<Rightarrow> (True, i\<lparr>sc_aad := sc_aad i @ the in_buf\<rparr>, None, inl)
        | Some b \<Rightarrow>
            let d = the in_buf; r = sample_mask (sc_key i) d in
            (True, i\<lparr>sc_plain := sc_plain i @ (if sc_encrypt i then d else r)\<rparr>,
             Some (memcpy b r (length r)), inl)),
     final = (\<lambda>i out outl. (sc_encrypt i \<or> sc_tag i = sample_tag i, i, out, 0)),
     get_params = (\<lambda>i ps. (True, i, map (\<lambda>p.
        if key p = OSSL_CIPHER_PARAM_AEAD_TAG
        then p\<lparr>data := Some (sample_tag i), return_size := 16\<rparr> else p) ps)),
     set_params = (\<lambda>i ps. (True, i\<lparr>sc_tag := sample_tag_param ps (sc_tag i)\<rparr>))\<rparr>"

definition sample_provider :: "(unit, sample_cipher, nat) G301_PROVIDER_CTX" where
  "sample_provider =
    \<lparr>child_libctx = None, inner_ops = Some sample_ops, inner_arg = (), prov_handle = 0,
     prov_core_new_error = Some (\<lambda>_. 0), prov_core_set_error_debug = Some (\<lambda>h. h),
     prov_core_vset_error = Some (\<lambda>_ reason. reason)\<rparr>"

definition sample_ctx :: "(unit, sample_cipher, nat) G301_CIPHER_CTX" where
  "sample_ctx = the (fst (g301_cipher_newctx ready_alloc (Some sample_provider) {#}))"

definition key_a :: bytes where "key_a = 1 # replicate 31 0"
definition key_b :: bytes where "key_b = 2 # replicate 31 0"
definition iv_a :: bytes where "iv_a = 3 # replicate 11 0"
definition aad :: bytes where "aad = [0x17, 0x03, 0x03, 0x00, 0x20]"
definition payload :: bytes where "payload = [7, 8, 9, 10]"

definition begin_encrypt :: "bytes \<Rightarrow> cipher_event" where
  "begin_encrypt k = (ready_env, Encrypt_init (Some k) 32 (Some iv_a) 12 None)"

definition send_payload :: cipher_event where
  "send_payload = (ready_env, Update (Some (replicate 4 0)) (Some 0) 4 (Some payload) 4)"

definition send_aad :: cipher_event where
  "send_aad = (ready_env, Update None (Some 0) 0 (Some aad) 5)"

definition finish_record :: cipher_event where
  "finish_record = (ready_env, Final None (Some 0) 0)"

lemma sample_ctx_eq:
  "sample_ctx = \<lparr>ops = sample_ops,
     inner = \<lparr>sc_key = [], sc_iv = [], sc_encrypt = False, sc_aad = [], sc_plain = [], sc_tag = []\<rparr>,
     handle = 0, core_new_error = Some (\<lambda>_. 0), core_set_error_debug = Some (\<lambda>h. h),
     core_vset_error = Some (\<lambda>_ reason. reason),
     phase = G301_PHASE_NO_RECORD, encrypting = False, direction_set = False, key_valid = False,
     needs_reinit = False, decrypt_tag_current = False, payload_started = False,
     current_key = replicate 32 0, usage_key = replicate 32 0, encrypted_records = 0,
     record_limit = 23680450, current_key_valid = False, current_key_changed = False,
     usage_key_valid = False, usage_exhausted = False, record_reserved = False\<rparr>"
  by (simp add: sample_ctx_def g301_cipher_newctx_def ready_alloc_def sample_provider_def
      sample_ops_def G301_ENCRYPT_RECORD_LIMIT_def)

lemma sample_good [simp]: "good sample_ctx"
  by (simp add: sample_ctx_eq wf_defs usage_wf_def)

end
