(* ===== verification/Write_Key_Budget.thy ===== *)
theory Write_Key_Budget
  imports Sample_Cipher
begin

text \<open>
  The write-key usage limit: how many encryption records can start under one installed
  key, when the budget restarts, and what an exhausted budget refuses. The one-step facts
  are in Cipher_Machine; here they are lifted to runs from a fresh context and stated as
  properties of the API.
\<close>

section \<open>Counting records\<close>

text \<open>
  An encryption record starts when the step takes it out of \<open>Pending\<close> successfully: the
  inner cipher has accepted the manifest.
\<close>

definition starts_encryption :: "ossl_param_api \<Rightarrow> ('a, 'i, 'h) G301_CIPHER_CTX \<Rightarrow> cipher_event \<Rightarrow> bool" where
  "starts_encryption api c e \<longleftrightarrow>
     encrypting c \<and> contract_of c = Pending
   \<and> contract_of (cipher_step api c e) \<in> {Associated, Payload, Finalized}"

definition records_started ::
  "ossl_param_api \<Rightarrow> ('a, 'i, 'h) G301_CIPHER_CTX \<Rightarrow> cipher_event list \<Rightarrow> int" where
  "records_started api c es =
     total_charge (cipher_step api) (\<lambda>c e. if starts_encryption api c e then 1 else 0) c es"

definition one_install ::
  "ossl_param_api \<Rightarrow> ('a, 'i, 'h) G301_CIPHER_CTX \<Rightarrow> cipher_event list \<Rightarrow> bool" where
  "one_install api c es \<longleftrightarrow>
     (\<forall>n < length es. same_install api (run_steps (cipher_step api) c (take n es)) (es ! n))"

lemma pending_step_encrypting:
  assumes "contract_of c = Pending"
    and "contract_of (cipher_step api c (env, call)) \<in> {Associated, Payload, Finalized}"
    and "ctx_wf c"
  shows "encrypting (cipher_step api c (env, call)) = encrypting c"
proof (cases rule: step_cases [of api env c call])
  case (initialise k keylen iv ivlen params enc r)
  have "contract_step Pending call r (contract_of (cipher_step api c (env, call)))"
    using step_refines [OF assms(3), of call api env] assms(1) initialise(3) by simp
  moreover have "is_init call" using initialise(2) by simp
  ultimately have "contract_of (cipher_step api c (env, call)) \<in> {Pending, Idle, Poisoned}"
    by (cases rule: contract_step.cases) (auto simp: drop_record_def)
  with assms(2) show ?thesis by auto
next
  case update
  show ?thesis using update_preserves(1) [OF update(2)] by (simp add: same_setup_def)
next
  case final
  show ?thesis using final_preserves(1) [OF final(2)] by (simp add: same_setup_def)
next
  case get_params
  show ?thesis using get_ctx_preserves(1) [OF get_params(2)] by (simp add: same_setup_def)
next
  case set_params
  show ?thesis using set_ctx_preserves(1) [OF set_params(2)] by (simp add: same_setup_def)
qed

lemma contract_of_injectedD:
  "contract_of c \<in> {Associated, Payload, Finalized} \<Longrightarrow> record_injected c"
  by (cases "phase c") (auto simp: contract_of_def record_injected_def split: if_splits)

lemma contract_of_pendingD:
  "contract_of c = Pending \<Longrightarrow> phase c = G301_PHASE_MANIFEST_PENDING \<and> \<not> needs_reinit c"
  by (cases "phase c") (auto simp: contract_of_def split: if_splits)

text \<open>A record that starts was reserved by the same step.\<close>

lemma starts_reserves:
  assumes "good c" "call_ok e" "starts_encryption api c e"
  shows "reserves_record api c e"
proof -
  let ?c' = "cipher_step api c e"
  have wf: "record_wf c" "record_wf ?c'" using step_good [OF assms(1,2)] assms(1)
    by (simp_all add: ctx_wf_def)
  have "\<not> record_reserved c"
    using wf(1) assms(3) contract_of_pendingD [of c]
    by (auto simp: starts_encryption_def record_wf_def)
  moreover have "encrypting ?c'"
    using pending_step_encrypting [of c api "fst e" "snd e"] assms(1,3)
    by (simp add: starts_encryption_def)
  then have "record_reserved ?c'"
    using wf(2) contract_of_injectedD [of ?c'] assms(3)
    by (auto simp: starts_encryption_def record_wf_def)
  ultimately show ?thesis by (simp add: reserves_record_def)
qed

lemma step_rank_started:
  assumes "good c" "call_ok e" "same_install api c e"
  shows "usage_rank c + (if starts_encryption api c e then 1 else 0) \<le> usage_rank (cipher_step api c e)"
  using step_rank [OF assms] starts_reserves [OF assms(1,2), of api] by (auto split: if_splits)

interpretation started: charged_steps "cipher_step api" call_ok good usage_rank
    "\<lambda>c e. if starts_encryption api c e then 1 else 0" "same_install api"
  by unfold_locales (rule step_rank_started)

section \<open>A fresh context\<close>

lemma newctx_fields:
  assumes "g301_cipher_newctx aenv (Some p) l = (Some c, l')"
  shows "phase c = G301_PHASE_NO_RECORD" "\<not> needs_reinit c" "\<not> decrypt_tag_current c"
    "\<not> payload_started c" "\<not> key_valid c" "\<not> direction_set c" "\<not> current_key_valid c"
    "\<not> usage_key_valid c" "\<not> usage_exhausted c" "encrypted_records c = 0"
    "record_limit c = 23680450" "length (current_key c) = 32" "length (usage_key c) = 32"
    "\<not> record_reserved c"
  using assms
  by (auto simp: g301_cipher_newctx_def Let_def split_beta G301_ENCRYPT_RECORD_LIMIT_def
      split: option.splits if_splits)

lemma newctx_good:
  assumes "g301_cipher_newctx aenv (Some p) l = (Some c, l')"
  shows "good c"
  using newctx_fields [OF assms] by (simp add: wf_defs usage_wf_def)

lemma started_le_remaining:
  assumes "good c" "list_all call_ok es" "one_install api c es"
  shows "records_started api c es \<le> sint (record_limit c) - usage_rank c"
proof -
  let ?d = "run_steps (cipher_step api) c es"
  have "usage_rank c + records_started api c es \<le> usage_rank ?d"
    unfolding records_started_def
    using started.run_charge [OF assms(1,2)] assms(3) by (simp add: one_install_def)
  moreover have "good ?d" by (rule good_steps.run_inv [OF assms(1,2)])
  then have "usage_rank ?d \<le> sint (record_limit c)"
    using usage_rank_le [of ?d] by (simp add: run_limit)
  ultimately show ?thesis by simp
qed

section \<open>The properties of the budget\<close>

text \<open>
  C2: the write-key usage limit. In a context made by \<open>g301_cipher_newctx\<close>, after any history
  \<open>pre\<close> of API calls, any further run \<open>es\<close> over which the installed write key is not replaced
  starts at most 23,680,450 encryption records, whatever the calls, their arguments, the
  inner cipher and the outcomes of locks and atomic additions.
\<close>

theorem record_limit_enforced:
  assumes "g301_cipher_newctx aenv (Some p) l = (Some c, l')"
    and "list_all call_ok (pre @ es)"
    and "one_install api (run_steps (cipher_step api) c pre) es"
  shows "records_started api (run_steps (cipher_step api) c pre) es \<le> 23680450"
proof -
  let ?d = "run_steps (cipher_step api) c pre"
  have g: "good ?d" using good_steps.run_inv [OF newctx_good [OF assms(1)]] assms(2) by simp
  have "records_started api ?d es \<le> sint (record_limit ?d) - usage_rank ?d"
    using started_le_remaining [OF g _ assms(3)] assms(2) by simp
  moreover have "sint (record_limit ?d) = 23680450"
    using newctx_fields(11) [OF assms(1)] by (simp add: run_limit)
  moreover have "0 \<le> usage_rank ?d" using usage_rank_nonneg g by blast
  ultimately show ?thesis by simp
qed

lemma sample_newctx:
  "g301_cipher_newctx ready_alloc (Some sample_provider) {#}
     = (Some sample_ctx, {# R_inner_ctx, R_usage_lock, R_outer_ctx #})"
  by (simp add: sample_ctx_def g301_cipher_newctx_def ready_alloc_def sample_provider_def
      sample_ops_def add_mset_commute)

lemma sample_calls_ok [simp]:
  "call_ok (begin_encrypt key_a)" "call_ok (begin_encrypt key_b)"
  "call_ok send_aad" "call_ok send_payload" "call_ok finish_record"
  by (simp_all add: call_ok_def begin_encrypt_def send_aad_def send_payload_def finish_record_def
      key_a_def key_b_def)

theorem record_limit_enforced_witness:
  "records_started libcrypto_params
     (run_steps (cipher_step libcrypto_params) sample_ctx [begin_encrypt key_a])
     [send_aad, send_payload, finish_record, begin_encrypt key_a, send_payload] \<le> 23680450
   \<and> records_started libcrypto_params
     (run_steps (cipher_step libcrypto_params) sample_ctx [begin_encrypt key_a])
     [send_aad, send_payload, finish_record, begin_encrypt key_a, send_payload] = 2"
proof
  let ?es = "[send_aad, send_payload, finish_record, begin_encrypt key_a, send_payload]"
  let ?d = "run_steps (cipher_step libcrypto_params) sample_ctx [begin_encrypt key_a]"
  have "one_install libcrypto_params ?d ?es" by code_simp
  then show "records_started libcrypto_params ?d ?es \<le> 23680450"
    by (intro record_limit_enforced [OF sample_newctx]) simp_all
  show "records_started libcrypto_params ?d ?es = 2" by code_simp
qed

section \<open>An exhausted budget\<close>

lemma reserve_at_limit:
  assumes "usage_wf c" "atomic_documented env" "\<not> record_reserved c"
    and "usage_rank c = sint (record_limit c)"
  shows "\<not> fst (g301_reserve_encryption_record env c)"
  using reserve_counts [OF assms(1-3)] assms(4) by (auto simp: usage_rank_def)

lemma inject_at_limit:
  assumes "good c" "atomic_documented env" "usage_rank c = sint (record_limit c)"
    and "encrypting c" "contract_of c = Pending"
  shows "g301_inject_manifest env c = (False, snd (g301_reserve_encryption_record env c))"
    and "\<not> fst (g301_reserve_encryption_record env c)"
    and "\<not> record_closed c"
proof -
  have pend: "phase c = G301_PHASE_MANIFEST_PENDING" "\<not> needs_reinit c"
    using contract_of_pendingD [OF assms(5)] by simp_all
  have "\<not> record_reserved c" using assms(1,4) pend by (auto simp: ctx_wf_def record_wf_def)
  then show no: "\<not> fst (g301_reserve_encryption_record env c)"
    using reserve_at_limit [OF _ assms(2) _ assms(3)] assms(1) by blast
  show "g301_inject_manifest env c = (False, snd (g301_reserve_encryption_record env c))"
    using no assms(4) pend by (simp add: g301_inject_manifest_def split_beta)
  show "\<not> record_closed c" using pend by (simp add: record_closed_def record_open_def)
qed

text \<open>
  C9: an exhausted budget is enforced before the inner cipher is touched. With the budget
  spent, the first non-empty \<open>update\<close> of an encryption record and a \<open>final\<close> on it both
  fail: nothing is reported as written, the output buffer and the inner cipher are as
  before, and the record is gone and the context poisoned.
\<close>

theorem exhausted_budget_refuses:
  assumes "good c" "atomic_documented env" "usage_rank c = sint (record_limit c)"
    and "encrypting c" "contract_of c = Pending"
    and "inl \<noteq> 0" "update_refusal c out outsize in_buf inl = None"
  shows "(\<exists>c'. g301_cipher_update env (Some c) out (Some v) outsize in_buf inl
                 = (False, Some c', out, Some 0)
             \<and> inner c' = inner c \<and> phase c' = G301_PHASE_NO_RECORD \<and> needs_reinit c')
    \<and> (\<exists>c'. g301_cipher_final env (Some c) out' (Some v) outsize' = (False, Some c', Some 0)
             \<and> inner c' = inner c \<and> phase c' = G301_PHASE_NO_RECORD \<and> needs_reinit c')"
proof -
  let ?d = "snd (g301_reserve_encryption_record env c)"
  note inj = inject_at_limit [OF assms(1-5)]
  note d = reserve_refuses [OF inj(2)]
  have u: "g301_cipher_update env (Some c) out (Some v) outsize in_buf inl = (False, Some ?d, out, Some 0)"
    using assms(6,7) inj(1)
    by (cases rule: update_cases [of c out outsize in_buf inl env v]) simp_all
  have f: "g301_cipher_final env (Some c) out' (Some v) outsize' = (False, Some ?d, Some 0)"
    using inj(1,3) assms(4)
    by (cases rule: final_cases [of c env out' v outsize']) (simp_all add: tag_stale_def)
  show ?thesis using u f d by simp
qed

definition spent_ctx :: "(unit, sample_cipher, nat) G301_CIPHER_CTX" where
  "spent_ctx = (cipher_step libcrypto_params sample_ctx (begin_encrypt key_a))
     \<lparr>encrypted_records := 23680450\<rparr>"

lemma spent_ctx_facts:
  "encrypting spent_ctx" "contract_of spent_ctx = Pending" "record_limit spent_ctx = 23680450"
  "encrypted_records spent_ctx = 23680450" "\<not> usage_exhausted spent_ctx"
  "usage_rank spent_ctx = sint (record_limit spent_ctx)"
  "update_refusal spent_ctx (Some (replicate 4 0)) 4 (Some payload) 4 = None"
  by code_simp+

lemma spent_flags: "usage_key_valid spent_ctx" "\<not> record_reserved spent_ctx"
  by code_simp+

lemma spent_good: "good spent_ctx"
proof -
  have "ctx_wf (cipher_step libcrypto_params sample_ctx (begin_encrypt key_a))"
    using step_good [OF sample_good] by simp
  then have "ctx_wf spent_ctx" by (simp add: spent_ctx_def wf_defs)
  then show ?thesis using spent_ctx_facts by (simp add: usage_wf_def)
qed

theorem exhausted_budget_refuses_witness:
  "(\<exists>c'. g301_cipher_update ready_env (Some spent_ctx) (Some (replicate 4 0)) (Some 9) 4 (Some payload) 4
           = (False, Some c', Some (replicate 4 0), Some 0)
       \<and> inner c' = inner spent_ctx \<and> phase c' = G301_PHASE_NO_RECORD \<and> needs_reinit c')
   \<and> (\<exists>c'. g301_cipher_final ready_env (Some spent_ctx) None (Some 9) 0 = (False, Some c', Some 0)
       \<and> inner c' = inner spent_ctx \<and> phase c' = G301_PHASE_NO_RECORD \<and> needs_reinit c')"
  by (rule exhausted_budget_refuses [OF spent_good ready_env_sel(4) spent_ctx_facts(6,1,2)])
     (simp_all add: spent_ctx_facts)

section \<open>What restarts the budget\<close>

lemma commit_install:
  assumes "key_wf c" "\<And>kb. k = Some kb \<Longrightarrow> 32 \<le> length kb"
    and "fst (g301_init_commit env c k (Some iv) fp t True)"
  defines "c' \<equiv> snd (g301_init_commit env c k (Some iv) fp t True)"
  shows "usage_key_valid c'" "\<not> record_reserved c'"
    and "usage_key c' = (case k of None \<Rightarrow> current_key c | Some kb \<Rightarrow> take 32 kb)"
    and "if usage_key_valid c \<and> usage_key c = usage_key c'
         then encrypted_records c' = encrypted_records c \<and> usage_exhausted c' = usage_exhausted c
         else encrypted_records c' = 0 \<and> \<not> usage_exhausted c'"
proof -
  let ?d = "commit_ctx env c k (Some iv) fp True"
  have del: "commit_delegated env c k (Some iv) fp True" by (rule commit_ok_delegated [OF assms(3)])
  note wf = key_wf_commit_ctx(1) [OF assms(1) del assms(2)]
  have f: "fst (g301_init_begin env ?d (k \<noteq> None) True t True)"
    using assms(3) unfolding commit_delegates [OF del] by simp
  have c': "c' = snd (g301_init_begin env ?d (k \<noteq> None) True t True)"
    unfolding c'_def commit_delegates [OF del] by simp
  have same: "key_wf (c\<lparr>inner := i\<rparr>)" for i using assms(1) by simp
  have cur: "current_key ?d = (case k of None \<Rightarrow> current_key c | Some kb \<Rightarrow> take 32 kb)"
  proof (cases k)
    case None
    then show ?thesis by (simp add: commit_ctx_def)
  next
    case (Some kb)
    have "record_key_write_lock env" using del Some by (simp add: commit_delegated_def)
    then show ?thesis
      using Some record_current_key_ok(1) [OF same assms(2) [OF Some]]
      by (simp add: commit_ctx_def)
  qed
  note b = begin_iv_encrypt [OF wf f]
  show "usage_key_valid c'" "\<not> record_reserved c'"
    and "usage_key c' = (case k of None \<Rightarrow> current_key c | Some kb \<Rightarrow> take 32 kb)"
    and "if usage_key_valid c \<and> usage_key c = usage_key c'
         then encrypted_records c' = encrypted_records c \<and> usage_exhausted c' = usage_exhausted c
         else encrypted_records c' = 0 \<and> \<not> usage_exhausted c'"
    using b unfolding c' by (simp_all add: cur cong: if_cong)
qed

text \<open>The same for a whole initialisation.\<close>

lemma init_install:
  assumes "good c" "\<And>kb. k = Some kb \<Longrightarrow> unat keylen \<le> length kb"
    and "g301_cipher_encrypt_init api env (Some c) k keylen (Some iv) ivlen params = (True, Some c')"
  shows "usage_key_valid c' \<and> \<not> record_reserved c'
    \<and> usage_key c' = (case k of None \<Rightarrow> current_key c | Some kb \<Rightarrow> take 32 kb)
    \<and> (if usage_key_valid c \<and> usage_key c = usage_key c'
       then encrypted_records c' = encrypted_records c \<and> usage_exhausted c' = usage_exhausted c
       else encrypted_records c' = 0 \<and> \<not> usage_exhausted c')"
proof -
  have eq: "g301_init api env (Some c) k keylen (Some iv) ivlen params True = (True, Some c')"
    using assms(3) by (simp add: g301_cipher_encrypt_init_def)
  have wf: "key_wf c" "record_wf c" using assms(1) by (simp_all add: ctx_wf_def)
  have acc: "init_accepts api c k keylen (Some iv) ivlen params True"
    using init_rejectedD(1) [OF eq _ wf(2)] by blast
  note k = accepted_key_length [OF acc assms(2)]
  note r = init_acceptedD [OF eq acc, unfolded accepted_commit_def]
  show ?thesis
    unfolding r(2)
    using commit_install [OF init_entry_key_wf [OF wf(1)], of k env] k r(1)
    by (simp cong: if_cong option.case_cong)
qed

text \<open>
  C13: what installing a write key does. A successful IV-bearing encryption initialisation
  installs the key it brings, or without one the current key. The counter continues
  exactly if that key was the installed one; any other key, including an earlier one
  (A-B-A), starts a fresh budget.
\<close>

theorem write_key_installation:
  assumes "good c" "\<And>kb. k = Some kb \<Longrightarrow> unat keylen \<le> length kb"
    and "g301_cipher_encrypt_init api env (Some c) k keylen (Some iv) ivlen params = (True, Some c')"
  shows "usage_key_valid c' \<and> \<not> record_reserved c'
    \<and> usage_key c' = (case k of None \<Rightarrow> current_key c | Some kb \<Rightarrow> take 32 kb)
    \<and> (if usage_key_valid c \<and> usage_key c = usage_key c'
       then encrypted_records c' = encrypted_records c \<and> usage_exhausted c' = usage_exhausted c
       else encrypted_records c' = 0 \<and> \<not> usage_exhausted c')"
  by (rule init_install [OF assms])

theorem write_key_installation_witness:
  "usage_key (snd (cipher_dispatch libcrypto_params spent_ctx (begin_encrypt key_b))) = key_b
   \<and> encrypted_records (snd (cipher_dispatch libcrypto_params spent_ctx (begin_encrypt key_b))) = 0"
proof -
  let ?r = "g301_cipher_encrypt_init libcrypto_params ready_env (Some spent_ctx) (Some key_b) 32
    (Some iv_a) 12 None"
  have d: "snd (cipher_dispatch libcrypto_params spent_ctx (begin_encrypt key_b)) = the (snd ?r)"
    by (simp add: cipher_dispatch_def begin_encrypt_def)
  have "fst ?r" by code_simp
  moreover have "snd ?r = Some (the (snd ?r))"
    using g301_init_Some [of libcrypto_params ready_env spent_ctx "Some key_b" 32 "Some iv_a" 12 None True]
    by (auto simp: g301_cipher_encrypt_init_def)
  ultimately have r: "?r = (True, Some (the (snd ?r)))" by (simp add: prod_eq_iff)
  have k: "usage_key spent_ctx \<noteq> key_b" "take 32 key_b = key_b" "length key_b = 32" by code_simp+
  then show ?thesis
    unfolding d
    using write_key_installation [OF spent_good _ r] by (simp cong: if_cong)
qed

text \<open>
  C10: nothing else restarts it. If a call leaves less of the budget spent than before, it
  was a successful IV-bearing encryption initialisation that installed a different key.
  Retries, failed or key-only initialisations, decryption and reinstalling the same key
  never give budget back.
\<close>

theorem budget_restart:
  assumes "good c" "call_ok (env, call)" "usage_key_valid c"
    and "usage_rank (cipher_step api c (env, call)) < usage_rank c"
  shows "(\<exists>k keylen iv ivlen params. call = Encrypt_init k keylen (Some iv) ivlen params)
    \<and> fst (cipher_dispatch api c (env, call))
    \<and> usage_key (cipher_step api c (env, call)) \<noteq> usage_key c"
proof -
  let ?c' = "cipher_step api c (env, call)"
  have key: "usage_key ?c' \<noteq> usage_key c"
    using step_rank [OF assms(1,2), of api] assms(3,4)
    by (auto simp: same_install_def split: if_splits)
  show ?thesis
  proof (cases rule: step_cases [of api env c call])
    case (initialise k keylen iv ivlen params enc r)
    have "usage_kept c ?c' \<or> iv \<noteq> None \<and> enc \<and> r \<and> usage_restarted c ?c'"
      using init_usage [OF _ call_ok_init_key [OF assms(2) [unfolded initialise(2)]] initialise(1)]
        assms(1) by blast
    with key have "iv \<noteq> None" enc r by (auto simp: usage_kept_def)
    then show ?thesis using key initialise(2,3) by auto
  next
    case update
    show ?thesis using key update_preserves(1) [OF update(2)] by (simp add: same_setup_def)
  next
    case final
    show ?thesis using key final_preserves(1) [OF final(2)] by (simp add: same_setup_def)
  next
    case get_params
    show ?thesis using key get_ctx_preserves(1) [OF get_params(2)] by (simp add: same_setup_def)
  next
    case set_params
    show ?thesis using key set_ctx_preserves(1) [OF set_params(2)] by (simp add: same_setup_def)
  qed
qed

lemma spent_restart_facts:
  "usage_key_valid spent_ctx"
  "usage_rank (cipher_step libcrypto_params spent_ctx (begin_encrypt key_b)) < usage_rank spent_ctx"
  by code_simp+

theorem budget_restart_witness:
  "usage_key (cipher_step libcrypto_params spent_ctx (begin_encrypt key_b)) \<noteq> usage_key spent_ctx"
  using budget_restart [OF spent_good, of ready_env "snd (begin_encrypt key_b)" libcrypto_params]
    sample_calls_ok(2) spent_restart_facts
  by (simp add: begin_encrypt_def)

text \<open>
  C20: the context invariant holds in every reachable state: after any run of API calls on a
  context from \<open>g301_cipher_newctx\<close>, a record presupposes key and direction, an encryption
  record runs under the installed write key and is counted exactly when its manifest is
  in, a current tag belongs to an open decryption record, and the counter lies between 0
  and one above the limit, so that the signed 32-bit addition never overflows.
\<close>

theorem reachable_invariant:
  assumes "g301_cipher_newctx aenv (Some p) l = (Some c0, l')" "list_all call_ok es"
  shows "ctx_wf (run_steps (cipher_step api) c0 es)
    \<and> 0 \<le> sint (encrypted_records (run_steps (cipher_step api) c0 es))
    \<and> sint (encrypted_records (run_steps (cipher_step api) c0 es)) \<le> 23680451"
proof -
  let ?c = "run_steps (cipher_step api) c0 es"
  have g: "good ?c" by (rule good_steps.run_inv [OF newctx_good [OF assms(1)] assms(2)])
  have "sint (record_limit ?c) = 23680450"
    using newctx_fields(11) [OF assms(1)] by (simp add: run_limit)
  then show ?thesis using g by (auto simp: usage_wf_def split: if_splits)
qed

theorem reachable_invariant_witness:
  "ctx_wf (run_steps (cipher_step libcrypto_params) sample_ctx [begin_encrypt key_a, send_payload])"
  using reachable_invariant [OF sample_newctx, of "[begin_encrypt key_a, send_payload]" libcrypto_params]
  by simp

fun is_encrypt_init :: "cipher_call \<Rightarrow> bool" where
  "is_encrypt_init (Encrypt_init _ _ _ _ _) = True"
| "is_encrypt_init _ = False"

text \<open>
  The budget of the write key as a context holds it, apart from the reservation of a record.
\<close>

definition same_budget :: "('a, 'i, 'h) G301_CIPHER_CTX \<Rightarrow> ('a, 'i, 'h) G301_CIPHER_CTX \<Rightarrow> bool" where
  "same_budget c c' \<longleftrightarrow>
     usage_key_valid c' = usage_key_valid c \<and> usage_key c' = usage_key c
   \<and> encrypted_records c' = encrypted_records c \<and> usage_exhausted c' = usage_exhausted c
   \<and> record_limit c' = record_limit c"

lemma decrypt_init_keeps:
  assumes "good c" "\<not> encrypting c" "\<And>kb. k = Some kb \<Longrightarrow> unat keylen \<le> length kb"
    and "g301_init api env (Some c) k keylen iv ivlen params False = (r, Some c')"
  shows "same_budget c c' \<and> \<not> encrypting c'"
proof -
  have "\<not> encrypting c'"
  proof (cases "init_accepts api c k keylen iv ivlen params False")
    case True
    let ?d = "init_entry_ctx c (init_has_tag api params) (k \<noteq> None) (direction_change c False)"
    let ?fp = "filtered_init_params api (locate_opt api params OSSL_CIPHER_PARAM_IVLEN)
       (locate_opt api params OSSL_CIPHER_PARAM_AEAD_TAG)"
    have d: "\<not> encrypting ?d" using assms(2) by (simp add: init_entry_ctx_def Let_def)
    show ?thesis
    proof (cases "commit_delegated env ?d k iv ?fp False")
      case True
      then show ?thesis
        unfolding init_acceptedD(2) [OF assms(4) \<open>init_accepts _ _ _ _ _ _ _ _\<close>] accepted_commit_def
        by (simp add: commit_delegates)
    next
      case False
      then show ?thesis
        using commit_refused(2) [OF False, of "init_has_tag api params"] d
        unfolding init_acceptedD(2) [OF assms(4) \<open>init_accepts _ _ _ _ _ _ _ _\<close>] accepted_commit_def
        by (elim exE conjE disjE) simp_all
    qed
  next
    case False
    then show ?thesis
      using init_rejectedD(2) [OF assms(4) False] assms(1,2)
      by (simp add: ctx_wf_def init_rejected_ctx_def)
  qed
  moreover have "usage_kept c c'"
    using init_usage [OF _ assms(3,4)] assms(1) by simp
  ultimately show ?thesis by (simp add: usage_kept_def same_budget_def)
qed

lemma decryption_step:
  assumes "good c" "\<not> encrypting c" "call_ok (env, call)" "\<not> is_encrypt_init call"
  shows "same_budget c (cipher_step api c (env, call)) \<and> \<not> encrypting (cipher_step api c (env, call))"
proof -
  let ?c' = "cipher_step api c (env, call)"
  have "reserved_ctx env c = c" using assms(2) by (simp add: reserved_ctx_def)
  then have inj: "same_usage c (snd (g301_inject_manifest env c))"
    using assms(2)
    by (cases rule: inject_cases [of c env]) (auto simp: after_manifest_def same_usage_def)
  have b: "same_budget c ?c' \<and> \<not> encrypting ?c'"
    if "same_setup c ?c'" "same_usage c ?c' \<or> same_usage (snd (g301_inject_manifest env c)) ?c'"
    using that inj assms(2) by (auto simp: same_budget_def same_usage_def same_setup_def)
  show ?thesis
  proof (cases rule: step_cases [of api env c call])
    case (initialise k keylen iv ivlen params enc r)
    then have e: "\<not> enc" using assms(4) by (cases enc) simp_all
    have "\<And>kb. k = Some kb \<Longrightarrow> unat keylen \<le> length kb"
      using call_ok_init_key [OF assms(3) [unfolded initialise(2)]] .
    then show ?thesis
      using decrypt_init_keeps [OF assms(1,2), where k = k and keylen = keylen] initialise(1) e by simp
  next
    case update
    show ?thesis using b [OF update_preserves(1) [OF update(2)]] update_usage [OF update(2)] by blast
  next
    case final
    show ?thesis using b [OF final_preserves(1) [OF final(2)]] final_usage [OF final(2)] by blast
  next
    case get_params
    show ?thesis
      using b [OF get_ctx_preserves(1) [OF get_params(2)]] get_ctx_usage [OF get_params(2)] by blast
  next
    case set_params
    show ?thesis
      using b [OF set_ctx_preserves(1) [OF set_params(2)]] set_ctx_usage [OF set_params(2)] by blast
  qed
qed

interpretation decrypting: step_invariant "cipher_step api"
    "\<lambda>e. call_ok e \<and> \<not> is_encrypt_init (snd e)"
    "\<lambda>c. good c \<and> same_budget b c \<and> \<not> encrypting c"
proof unfold_locales
  fix c :: "('a, 'b, 'c) G301_CIPHER_CTX" and e
  assume c: "good c \<and> same_budget b c \<and> \<not> encrypting c" and e: "call_ok e \<and> \<not> is_encrypt_init (snd e)"
  have "same_budget c (cipher_step api c e) \<and> \<not> encrypting (cipher_step api c e)"
    using decryption_step [of c "fst e" "snd e" api] c e by simp
  then show "good (cipher_step api c e) \<and> same_budget b (cipher_step api c e)
      \<and> \<not> encrypting (cipher_step api c e)"
    using step_good [of c e api] c e by (auto simp: same_budget_def)
qed

text \<open>
  C35: decryption is free. While a context that is not encrypting is given no encryption
  initialisation, nothing touches the budget of its write key: over any run of decryption
  initialisations, updates, finals and parameter calls, with any keys and any failures, the
  installed key, the counter and the exhaustion flag stay as they are, so the context can go
  back to sealing under that key where it left off.
\<close>

theorem decryption_is_free:
  assumes "good c" "\<not> encrypting c" "list_all call_ok es"
    and "list_all (\<lambda>e. \<not> is_encrypt_init (snd e)) es"
    and "d = run_steps (cipher_step api) c es"
  shows "usage_key_valid d = usage_key_valid c \<and> usage_key d = usage_key c
    \<and> encrypted_records d = encrypted_records c \<and> usage_exhausted d = usage_exhausted c
    \<and> \<not> encrypting d"
proof -
  have "list_all (\<lambda>e. call_ok e \<and> \<not> is_encrypt_init (snd e)) es"
    using assms(3,4) by (simp add: list_all_iff)
  moreover have "good c \<and> same_budget c c \<and> \<not> encrypting c"
    using assms(1,2) by (simp add: same_budget_def)
  ultimately have "same_budget c d \<and> \<not> encrypting d"
    unfolding assms(5) using decrypting.run_inv by blast
  then show ?thesis by (simp add: same_budget_def)
qed


definition begin_decrypt :: "bytes \<Rightarrow> cipher_event" where
  "begin_decrypt k = (ready_env, Decrypt_init (Some k) 32 (Some iv_a) 12 None)"

theorem decryption_is_free_witness:
  "encrypted_records (run_steps (cipher_step libcrypto_params)
     (run_steps (cipher_step libcrypto_params) sample_ctx
        [begin_encrypt key_a, send_payload, finish_record, begin_decrypt key_b])
     [send_payload, finish_record, begin_decrypt key_a, send_payload]) = 1"
proof -
  let ?pre = "[begin_encrypt key_a, send_payload, finish_record, begin_decrypt key_b]"
  let ?es = "[send_payload, finish_record, begin_decrypt key_a, send_payload]"
  let ?c = "run_steps (cipher_step libcrypto_params) sample_ctx ?pre"
  have ok: "list_all call_ok ?pre" "list_all call_ok ?es"
    by (simp_all add: begin_encrypt_def begin_decrypt_def send_payload_def finish_record_def
        call_ok_def key_a_def key_b_def)
  have g: "good ?c" by (rule good_steps.run_inv [OF sample_good ok(1)])
  have c: "\<not> encrypting ?c" "encrypted_records ?c = 1" by code_simp+
  have "list_all (\<lambda>e. \<not> is_encrypt_init (snd e)) ?es"
    by (simp add: begin_decrypt_def send_payload_def finish_record_def)
  then show ?thesis using decryption_is_free [OF g c(1) ok(2) _ refl] c(2) by simp
qed

lemma inject_reserved:
  assumes "record_wf c" "encrypting c" "fst (g301_inject_manifest env c)"
  shows "record_reserved (snd (g301_inject_manifest env c))"
proof -
  have "record_wf (snd (g301_inject_manifest env c))" by (rule record_wf_inject [OF assms(1)])
  then show ?thesis using inject_ok [OF assms(3)] assms(2)
    by (simp add: record_wf_def record_injected_def)
qed

lemma inject_inner_reserved:
  assumes "encrypting c" "inner (snd (g301_inject_manifest env c)) \<noteq> inner c"
  shows "record_reserved (snd (g301_inject_manifest env c))"
  using assms
  by (cases rule: inject_cases [of c env]) (auto simp: after_manifest_def reserved_ctx_ok)

lemma update_inner:
  assumes "g301_cipher_update env (Some c) out outl outsize in_buf inl = (r, Some c', out', outl')"
  shows "inner c' = inner c \<or> same_usage (snd (g301_inject_manifest env c)) c'
     \<and> (fst (g301_inject_manifest env c) \<or> inner c' = inner (snd (g301_inject_manifest env c)))"
proof (cases outl)
  case (Some v)
  show ?thesis
    using assms unfolding Some
    by (cases rule: update_cases [of c out outsize in_buf inl env v]) (auto split: if_splits)
qed (use assms in simp)

lemma final_inner:
  assumes "g301_cipher_final env (Some c) out outl outsize = (r, Some c', outl')"
  shows "inner c' = inner c \<or> same_usage (snd (g301_inject_manifest env c)) c'
     \<and> (fst (g301_inject_manifest env c) \<or> inner c' = inner (snd (g301_inject_manifest env c)))"
proof (cases outl)
  case (Some v)
  show ?thesis
    using assms unfolding Some
    by (cases rule: final_cases [of c env out v outsize]) auto
qed (use assms in \<open>auto simp: final_no_outl split: if_splits\<close>)

lemma uses_record_inner:
  assumes "uses_record call" "inner (cipher_step api c (env, call)) \<noteq> inner c"
  shows "same_usage (snd (g301_inject_manifest env c)) (cipher_step api c (env, call))
    \<and> (fst (g301_inject_manifest env c)
       \<or> inner (snd (g301_inject_manifest env c)) \<noteq> inner c)"
  using assms
  by (cases rule: step_cases [of api env c call])
     (auto dest!: update_inner final_inner split: if_splits)

text \<open>
  C16: the inner cipher only works on an encryption record that has been counted: whenever
  \<open>update\<close> or \<open>final\<close> of an encryption context changes the inner cipher, the context holds a
  reservation afterwards.
\<close>

theorem encryption_is_counted:
  assumes "ctx_wf c" "encrypting c" "uses_record call"
    and "inner (cipher_step api c (env, call)) \<noteq> inner c"
  shows "record_reserved (cipher_step api c (env, call))"
proof -
  have "record_wf c" using assms(1) by (simp add: ctx_wf_def)
  then have "record_reserved (snd (g301_inject_manifest env c))"
    using uses_record_inner [OF assms(3,4)] inject_reserved [of c env] assms(2)
      inject_inner_reserved [of c env] by blast
  then show ?thesis
    using uses_record_inner [OF assms(3,4)] by (simp add: same_usage_def)
qed

theorem encryption_is_counted_witness:
  "record_reserved (cipher_step libcrypto_params
     (cipher_step libcrypto_params sample_ctx (begin_encrypt key_a)) (ready_env, snd send_payload))"
proof (rule encryption_is_counted)
  show "ctx_wf (cipher_step libcrypto_params sample_ctx (begin_encrypt key_a))"
    using step_good [OF sample_good] by simp
qed code_simp+

text \<open>
  C37: the bound on the limit itself is one too weak. The assertion on
  \<open>G301_ENCRYPT_RECORD_LIMIT\<close> and the check of the test hook admit \<open>INT_MAX\<close>; at that limit
  the attempt after the last permitted record overflows the counter to the least integer,
  compares below the limit and is let through, instead of exhausting the budget.
\<close>

theorem record_limit_int_max_wraps:
  assumes "usage_key_valid c" "\<not> usage_exhausted c" "\<not> record_reserved c"
    and "atomic_documented env" "CRYPTO_atomic_add env (encrypted_records c) 1 \<noteq> None"
    and "g301_test_cipher_set_record_limit (Some c) 2147483647 = (True, Some d)"
    and "sint (encrypted_records c) = INT_MAX"
  shows "fst (g301_reserve_encryption_record env d)
    \<and> sint (encrypted_records (snd (g301_reserve_encryption_record env d))) = - 2147483648"
proof -
  have d: "d = c\<lparr>record_limit := 2147483647\<rparr>"
    using assms(6) by (simp add: g301_test_cipher_set_record_limit_def)
  have e: "encrypted_records c = 2147483647"
    using arg_cong [OF assms(7), of "word_of_int :: int \<Rightarrow> cint"] by simp
  obtain r where r: "CRYPTO_atomic_add env (encrypted_records c) 1 = Some r"
    using assms(5) by blast
  have "r = encrypted_records c + 1" by (rule atomic_documentedD [OF assms(4) r])
  then have "r = 2147483648" by (simp add: e)
  then show ?thesis
    using assms(1-3) r by (simp add: d g301_reserve_encryption_record_def Let_def)
qed

theorem record_limit_int_max_wraps_witness:
  "fst (g301_reserve_encryption_record ready_env
       (spent_ctx\<lparr>encrypted_records := 2147483647, record_limit := 2147483647\<rparr>))"
  using record_limit_int_max_wraps [of "spent_ctx\<lparr>encrypted_records := 2147483647\<rparr>" ready_env
      "spent_ctx\<lparr>encrypted_records := 2147483647, record_limit := 2147483647\<rparr>"]
  by (simp add: g301_test_cipher_set_record_limit_def spent_ctx_facts spent_flags)

end
