(* ===== verification/Record_Lifecycle.thy ===== *)
theory Record_Lifecycle
  imports Write_Key_Budget
begin

text \<open>
  What holds of a record from its initialisation to its end, as properties of the API: the
  refinement of the contract over runs and its consequences, the results of \<open>update\<close> and
  \<open>final\<close> on every path, and the effect of accepted and rejected initialisations.
\<close>

section \<open>Refinement of the contract\<close>

text \<open>
  C4: the state contract. Along every run of API calls from a well-formed context, the calls
  and their return values are a run of the contract machine, from the state the context
  stands for to the state it ends in.
\<close>

theorem contract_refinement:
  assumes "good c" "list_all call_ok es"
  shows "abs_run contract_step (contract_of c) (cipher_trace api c es)
           (contract_of (run_steps (cipher_step api) c es))"
  by (rule trace_contract [OF assms])

definition sample_run :: "cipher_event list" where
  "sample_run = [begin_encrypt key_a, send_aad, send_payload, finish_record]"

theorem contract_refinement_witness:
  "abs_run contract_step Idle
     [(snd (begin_encrypt key_a), True), (snd send_aad, True), (snd send_payload, True),
      (snd finish_record, True)] Finalized"
proof -
  have "contract_of sample_ctx = Idle"
    and "contract_of (run_steps (cipher_step libcrypto_params) sample_ctx sample_run) = Finalized"
    and "map snd (cipher_trace libcrypto_params sample_ctx sample_run) = [True, True, True, True]"
    by code_simp+
  then show ?thesis
    using contract_refinement [OF sample_good, of sample_run libcrypto_params]
    by (simp add: sample_run_def cipher_trace_def)
qed

section \<open>Records end\<close>

text \<open>
  C8: a record ends with its final. After a successful \<open>final\<close>, no \<open>update\<close> and no second
  \<open>final\<close> succeeds until an initialisation with an IV has succeeded.
\<close>

theorem nothing_after_final:
  assumes "good c" "call_ok fin" "list_all call_ok es"
    and "finishes (snd fin)" "fst (cipher_dispatch api c fin)"
    and "\<forall>x \<in> set (cipher_trace api (cipher_step api c fin) es). \<not> begins_record x"
  shows "\<forall>(call, r) \<in> set (cipher_trace api (cipher_step api c fin) es). uses_record call \<longrightarrow> \<not> r"
proof -
  let ?d = "cipher_step api c fin"
  have "contract_step (contract_of c) (snd fin) True (contract_of ?d)"
    using step_refines [of c "snd fin" api "fst fin"] assms(1,5) by simp
  then have "contract_of ?d = Finalized" using assms(4) by (rule finish_step)
  then have "\<not> open_state (contract_of ?d)" by (simp add: open_state_def)
  then show ?thesis
    using closed_run [OF trace_contract [OF step_good [OF assms(1,2)] assms(3)] _ assms(6)] by blast
qed

definition sample_finished :: "(unit, sample_cipher, nat) G301_CIPHER_CTX" where
  "sample_finished = run_steps (cipher_step libcrypto_params) sample_ctx
     [begin_encrypt key_a, send_aad, send_payload]"

lemma sample_finished_good [simp]: "good sample_finished"
  unfolding sample_finished_def by (rule good_steps.run_inv) simp_all

theorem nothing_after_final_witness:
  "list_all (\<lambda>(call, r). \<not> (uses_record call \<and> r)) (cipher_trace libcrypto_params
      (cipher_step libcrypto_params sample_finished finish_record) [finish_record, send_payload])"
proof -
  have "\<forall>(call, r) \<in> set (cipher_trace libcrypto_params
      (cipher_step libcrypto_params sample_finished finish_record) [finish_record, send_payload]).
     uses_record call \<longrightarrow> \<not> r"
    by (rule nothing_after_final) (simp_all, code_simp+)
  then show ?thesis by (auto simp: list_all_iff)
qed

text \<open>
  C7: poison lasts until reinitialisation. In a poisoned context, whatever is called, as long
  as no initialisation with an IV succeeds the context stays poisoned and no \<open>update\<close> or
  \<open>final\<close> succeeds.
\<close>

theorem poison_until_reinit:
  assumes "good c" "needs_reinit c" "list_all call_ok es"
    and "\<forall>x \<in> set (cipher_trace api c es). \<not> begins_record x"
  shows "needs_reinit (run_steps (cipher_step api) c es)
    \<and> (\<forall>(call, r) \<in> set (cipher_trace api c es). uses_record call \<longrightarrow> \<not> r)"
proof -
  have p: "contract_of c = Poisoned" using assms(2) by (rule contract_of_poisoned)
  then have o': "\<not> open_state (contract_of c)" by (simp add: open_state_def)
  show ?thesis
    using closed_run [OF trace_contract [OF assms(1,3)] o' assms(4)] p
    by (simp add: contract_of_poisoned_iff)
qed

theorem poison_until_reinit_witness:
  "needs_reinit (run_steps (cipher_step libcrypto_params) (g301_poison sample_finished)
     [send_payload, finish_record])"
proof -
  have "good (g301_poison sample_finished)" using sample_finished_good by simp
  moreover have "\<forall>x \<in> set (cipher_trace libcrypto_params (g301_poison sample_finished)
      [send_payload, finish_record]). \<not> begins_record x"
    by code_simp
  ultimately show ?thesis
    using poison_until_reinit [of "g301_poison sample_finished" "[send_payload, finish_record]"
        libcrypto_params] by simp
qed

text \<open>
  C15: associated data comes first. Once payload has been processed, no further non-empty
  AAD update succeeds for the rest of the record.
\<close>

theorem no_aad_after_payload:
  assumes "good c" "call_ok pl" "list_all call_ok es"
    and "adds_payload (snd pl)" "fst (cipher_dispatch api c pl)"
    and "\<forall>x \<in> set (cipher_trace api (cipher_step api c pl) es). \<not> begins_record x"
  shows "\<forall>(call, r) \<in> set (cipher_trace api (cipher_step api c pl) es). adds_associated call \<longrightarrow> \<not> r"
proof -
  let ?d = "cipher_step api c pl"
  have "contract_step (contract_of c) (snd pl) True (contract_of ?d)"
    using step_refines [of c "snd pl" api "fst pl"] assms(1,5) by simp
  then have "contract_of ?d = Payload" using payload_step assms(4) by blast
  then show ?thesis
    using after_payload_run [OF trace_contract [OF step_good [OF assms(1,2)] assms(3)] _ assms(6)]
    by blast
qed

theorem no_aad_after_payload_witness:
  "list_all (\<lambda>(call, r). \<not> (adds_associated call \<and> r)) (cipher_trace libcrypto_params
      (cipher_step libcrypto_params sample_finished send_payload) [send_aad, send_payload, send_aad])"
proof -
  have "\<forall>(call, r) \<in> set (cipher_trace libcrypto_params
      (cipher_step libcrypto_params sample_finished send_payload) [send_aad, send_payload, send_aad]).
     adds_associated call \<longrightarrow> \<not> r"
    by (rule no_aad_after_payload) (simp_all, code_simp+)
  then show ?thesis by (auto simp: list_all_iff)
qed

section \<open>Results of the record operations\<close>

text \<open>
  C14: a record only goes forward. Over any calls other than initialisations, whatever they
  return, the state of the record never moves back in the order without record, pending,
  AAD, payload, finalized, poisoned; so a record is never reopened and poison never lifted
  except by initialising again.
\<close>

theorem record_progress:
  assumes "good c" "list_all call_ok es" "list_all (\<lambda>e. \<not> is_init (snd e)) es"
  shows "contract_of c \<le> contract_of (run_steps (cipher_step api) c es)"
proof (rule contract_run_forward [OF trace_contract [OF assms(1,2)]])
  have "\<not> is_init call" if "(call, r) \<in> set (cipher_trace api c es)" for call r
  proof -
    have "call \<in> set (map snd es)"
      unfolding trace_calls [of api c es, symmetric] using that by force
    then show ?thesis using assms(3) by (auto simp: list_all_iff)
  qed
  then show "list_all (\<lambda>(call, r). \<not> is_init call) (cipher_trace api c es)"
    by (auto simp: list_all_iff)
qed

theorem record_progress_witness:
  "contract_of sample_finished = Payload
   \<and> Payload \<le> contract_of (run_steps (cipher_step libcrypto_params) sample_finished [send_aad, finish_record])"
proof -
  have p: "contract_of sample_finished = Payload" by code_simp
  have "list_all (\<lambda>e. \<not> is_init (snd e)) [send_aad, finish_record]"
    by (simp add: send_aad_def finish_record_def)
  then show ?thesis
    using record_progress [of sample_finished "[send_aad, finish_record]" libcrypto_params] p by simp
qed

text \<open>
  C21: what \<open>update\<close> does, path by path. On success \<open>*outl\<close> is the input length, which is
  within \<open>INT_MAX\<close> and within the output buffer; on failure it is 0. A refusal leaves output
  buffer and context as they were, apart from the raised error, and so does an empty update,
  without error. If the manifest cannot be injected the call fails and the output buffer is
  untouched. Only then is the inner cipher given the caller's data: the output buffer holds
  what the inner cipher left in it, the call succeeds exactly if the inner cipher took the
  whole chunk, and payload has started from then on if there was an output buffer. Every
  failure after the refusals poisons.
\<close>

theorem update_result:
  "\<exists>r c' out' n. g301_cipher_update env (Some c) out (Some v) outsize in_buf inl = (r, Some c', out', Some n)
    \<and> n = (if r then inl else 0)
    \<and> (r \<longrightarrow> uint inl \<le> INT_MAX \<and> (out \<noteq> None \<longrightarrow> inl \<le> outsize \<or> inl = 0) \<and> \<not> needs_reinit c')
    \<and> (\<forall>reason. update_refusal c out outsize in_buf inl = Some reason
         \<longrightarrow> \<not> r \<and> out' = out \<and> c' = g301_raise_error c reason)
    \<and> (\<not> r \<and> update_refusal c out outsize in_buf inl = None \<longrightarrow> needs_reinit c')
    \<and> (update_refusal c out outsize in_buf inl = None \<longrightarrow>
         (let d = snd (g301_inject_manifest env c); call = caller_update d out in_buf inl in
          if inl = 0 then r \<and> out' = out \<and> c' = c
          else if \<not> fst (g301_inject_manifest env c) then \<not> r \<and> out' = out \<and> c' = d
          else r = data_taken d out in_buf inl
             \<and> out' = fst (snd (snd call)) \<and> inner c' = fst (snd call)
             \<and> (r \<longrightarrow> payload_started c' = (payload_started c \<or> out \<noteq> None))))"
proof (cases rule: update_cases [of c out outsize in_buf inl env v])
  case refused
  then show ?thesis by auto
next
  case empty
  then show ?thesis
    using update_refusal_closed [OF empty(1)] by (auto simp: record_closed_def)
next
  case not_injected
  have "record_open c"
    using update_refusal_closed [OF not_injected(1)] by (simp add: record_closed_def)
  then show ?thesis using not_injected inject_fail [OF not_injected(3)] by auto
next
  case (failed d)
  then show ?thesis by (elim disjE) (auto simp: Let_def)
next
  case (taken d)
  have "\<not> needs_reinit d" "payload_started d = payload_started c"
    using inject_ok [OF taken(3)] taken(4) update_refusal_closed [OF taken(1)]
    by (simp_all add: record_closed_def)
  then show ?thesis
    using taken(2-7) update_admitted [OF taken(1,2)] taken(1)
    by (intro exI [of _ True]) (cases out; simp add: Let_def)
qed

text \<open>
  C17: a decryption record is only finalised under a tag set for it: \<open>final\<close> without a current
  tag fails without asking the inner cipher and poisons the record, and whatever \<open>final\<close>
  does, the tag is used up.
\<close>

theorem final_needs_current_tag:
  assumes "ctx_wf c" "\<not> encrypting c"
    and "g301_cipher_final env (Some c) out outl outsize = (r, Some c', outl')"
  shows "(r \<longrightarrow> decrypt_tag_current c)
    \<and> (\<not> decrypt_tag_current c \<longrightarrow> inner c' = inner c \<and> (record_closed c \<or> needs_reinit c'))
    \<and> \<not> decrypt_tag_current c'"
proof (cases outl)
  case None
  have "record_closed c \<Longrightarrow> \<not> decrypt_tag_current c"
    using assms(1) by (auto simp: ctx_wf_def record_wf_def record_closed_def)
  then show ?thesis using None assms(3) by (auto simp: final_no_outl split: if_splits)
next
  case (Some v)
  have cl: "record_closed c \<Longrightarrow> \<not> decrypt_tag_current c"
    using assms(1) by (auto simp: ctx_wf_def record_wf_def record_closed_def)
  show ?thesis
  proof (cases rule: final_cases [of c env out v outsize])
    case refused
    then show ?thesis using Some assms(3) cl by auto
  next
    case stale
    then show ?thesis using Some assms(3) by (auto simp: tag_stale_def)
  next
    case not_injected
    have "record_open c" using not_injected(1) by (simp add: record_closed_def)
    then show ?thesis
      using Some assms(2,3) not_injected inject_fail [OF not_injected(3)] by (auto simp: tag_stale_def)
  next
    case (failed d)
    then have "\<not> r \<and> \<not> decrypt_tag_current c'" using Some assms(3) by auto
    then show ?thesis using failed(2) assms(2) by (auto simp: tag_stale_def)
  next
    case (completed d)
    then have "\<not> decrypt_tag_current c'" using Some assms(3) by (auto simp: after_final_def)
    then show ?thesis using completed(2) assms(2) by (auto simp: tag_stale_def)
  qed
qed

text \<open>
  C22: a failed \<open>final\<close> poisons the record it was called on; called where there is no open
  record, including on one that is already finalised, it changes nothing but the core's
  error state.
\<close>

theorem failed_final:
  assumes "g301_cipher_final env (Some c) out outl outsize = (False, Some c', outl')"
  shows "if record_closed c then \<exists>reason. c' = g301_raise_error c reason
         else needs_reinit c' \<and> \<not> decrypt_tag_current c'"
proof (cases outl)
  case None
  then show ?thesis using assms by (auto simp: final_no_outl)
next
  case (Some v)
  show ?thesis
  proof (cases rule: final_cases [of c env out v outsize])
    case not_injected
    have "record_open c" using not_injected(1) by (simp add: record_closed_def)
    then show ?thesis
      using Some assms not_injected inject_fail [OF not_injected(3)] by auto
  qed (use Some assms in \<open>auto\<close>)
qed

section \<open>Witnesses for the results of the record operations\<close>

definition sample_decrypting :: "(unit, sample_cipher, nat) G301_CIPHER_CTX" where
  "sample_decrypting = cipher_step libcrypto_params sample_ctx
     (ready_env, Decrypt_init (Some key_a) 32 (Some iv_a) 12 None)"

lemma sample_decrypting_good [simp]: "good sample_decrypting"
proof -
  have "call_ok (ready_env, Decrypt_init (Some key_a) 32 (Some iv_a) 12 None)"
    by (simp add: call_ok_def key_a_def)
  then show ?thesis unfolding sample_decrypting_def by (intro step_good sample_good)
qed

theorem final_needs_current_tag_witness:
  "fst (snd (g301_cipher_final ready_env (Some sample_decrypting) None (Some 7) 0)) \<noteq> None
   \<and> \<not> fst (g301_cipher_final ready_env (Some sample_decrypting) None (Some 7) 0)"
proof -
  obtain r c' n where f: "g301_cipher_final ready_env (Some sample_decrypting) None (Some 7) 0
      = (r, Some c', n)"
    using final_Some by blast
  have d: "\<not> encrypting sample_decrypting" "\<not> decrypt_tag_current sample_decrypting"
    by code_simp+
  have "ctx_wf sample_decrypting" using sample_decrypting_good by blast
  then have "\<not> r" using final_needs_current_tag [OF _ d(1) f] d(2) by blast
  then show ?thesis by (simp add: f)
qed

theorem failed_final_witness:
  "needs_reinit (the (fst (snd (g301_cipher_final ready_env (Some sample_decrypting) None (Some 7) 0))))"
proof -
  let ?f = "g301_cipher_final ready_env (Some sample_decrypting) None (Some 7) 0"
  obtain r c' n where f: "?f = (r, Some c', n)" using final_Some by blast
  have "\<not> fst ?f" "\<not> record_closed sample_decrypting" by code_simp+
  then show ?thesis
    using failed_final [of ready_env sample_decrypting None "Some 7" 0 c' n] f by simp
qed

section \<open>Initialisation\<close>

text \<open>
  C23: a rejected initialisation does not reach the inner cipher and changes no key, direction,
  counter or poison. It can only take away: a tag in its parameters, or a change of
  direction, makes the current tag stale, and a tag that came with a key or another
  direction drops the record.
\<close>

theorem rejected_init:
  assumes "record_wf c" "\<not> init_accepts api c k keylen iv ivlen params e"
    and "g301_init api env (Some c) k keylen iv ivlen params e = (r, Some c')"
  shows "\<not> r \<and> inner c' = inner c \<and> same_setup c c' \<and> same_usage c c'
    \<and> needs_reinit c' = needs_reinit c
    \<and> phase c' = (if init_has_tag api params \<and> (k \<noteq> None \<or> direction_change c e)
                 then G301_PHASE_NO_RECORD else phase c)
    \<and> (decrypt_tag_current c'
        \<longleftrightarrow> decrypt_tag_current c \<and> \<not> init_has_tag api params \<and> \<not> direction_change c e)"
  using init_rejectedD [OF assms(3,2,1)]
  by (auto simp: same_setup_def same_usage_def init_rejected_ctx_def)

theorem rejected_init_witness:
  "\<not> fst (g301_init libcrypto_params ready_env (Some sample_finished) (Some key_a) 31 None 0 None True)"
proof -
  obtain r c' where i: "g301_init libcrypto_params ready_env (Some sample_finished) (Some key_a) 31
      None 0 None True = (r, Some c')"
    using g301_init_Some by blast
  have "\<not> init_accepts libcrypto_params sample_finished (Some key_a) 31 None 0 None True"
    by (simp add: init_accepts_def init_lengths_ok_def G301_KEY_LENGTH_def)
  moreover have "record_wf sample_finished"
    using sample_finished_good by (simp add: ctx_wf_def)
  ultimately show ?thesis using rejected_init [OF _ _ i] i by simp
qed

text \<open>
  C24: a successful initialisation was accepted, and the initialisation of the inner cipher
  with the caller's key and IV and the sanitised parameters has succeeded. With an IV a fresh record is open, not poisoned, without payload,
  with a current tag exactly if the call brought one for decryption; without an IV there is
  no record and a poisoned context stays poisoned.
\<close>

theorem successful_init:
  assumes "record_wf c"
    and "g301_init api env (Some c) k keylen iv ivlen params e = (True, Some c')"
  shows "init_accepts api c k keylen iv ivlen params e
    \<and> init (ops c) (inner c) k iv e
        (filtered_init_params api (locate_opt api params OSSL_CIPHER_PARAM_IVLEN)
           (locate_opt api params OSSL_CIPHER_PARAM_AEAD_TAG)) = (True, inner c')
    \<and> (if iv \<noteq> None
       then phase c' = G301_PHASE_MANIFEST_PENDING \<and> \<not> needs_reinit c' \<and> \<not> payload_started c'
          \<and> encrypting c' = e \<and> (decrypt_tag_current c' \<longleftrightarrow> \<not> e \<and> init_has_tag api params)
       else phase c' = G301_PHASE_NO_RECORD \<and> needs_reinit c' = needs_reinit c)"
proof -
  have acc: "init_accepts api c k keylen iv ivlen params e"
    using init_rejectedD(1) [OF assms(2) _ assms(1)] by blast
  note r = init_acceptedD [OF assms(2) acc]
  have del: "fst (init (ops c) (inner c) k iv e
        (filtered_init_params api (locate_opt api params OSSL_CIPHER_PARAM_IVLEN)
           (locate_opt api params OSSL_CIPHER_PARAM_AEAD_TAG)))"
    using commit_ok_delegated [OF r(1) [unfolded accepted_commit_def, THEN iffD1, OF TrueI]]
    by (simp add: commit_delegated_def)
  show ?thesis
  proof (cases iv)
    case None
    show ?thesis
      using commit_ok_no_iv [OF r(1) [unfolded accepted_commit_def None, THEN iffD1, OF TrueI]]
        acc del
      unfolding r(2) accepted_commit_def None by (simp add: prod_eq_iff)
  next
    case (Some n)
    show ?thesis
      using commit_ok_iv [OF r(1) [unfolded accepted_commit_def Some, THEN iffD1, OF TrueI]]
        acc del
      unfolding r(2) accepted_commit_def Some by (simp add: prod_eq_iff)
  qed
qed

theorem successful_init_witness:
  "phase (cipher_step libcrypto_params sample_ctx (begin_encrypt key_a)) = G301_PHASE_MANIFEST_PENDING"
proof -
  let ?i = "g301_init libcrypto_params ready_env (Some sample_ctx) (Some key_a) 32 (Some iv_a) 12 None True"
  obtain r c' where i: "?i = (r, Some c')" using g301_init_Some by blast
  have "fst ?i" by code_simp
  then have "?i = (True, Some c')" using i by simp
  moreover have "record_wf sample_ctx" using sample_good by (simp add: ctx_wf_def)
  ultimately show ?thesis
    using successful_init [of sample_ctx libcrypto_params ready_env "Some key_a" 32 "Some iv_a" 12 None True c']
    by (simp add: cipher_step_def cipher_dispatch_def begin_encrypt_def g301_cipher_encrypt_init_def)
qed

theorem update_result_witness:
  "\<exists>n. g301_cipher_update ready_env (Some sample_finished) (Some [0, 0]) (Some 7) 2 (Some payload) 4
     = (False, Some (g301_raise_error sample_finished G301_R_OUTPUT_BUFFER_TOO_SMALL), Some [0, 0], Some n)
     \<and> n = 0"
proof -
  have "update_refusal sample_finished (Some [0, 0]) 2 (Some payload) 4
      = Some G301_R_OUTPUT_BUFFER_TOO_SMALL"
    by code_simp
  then show ?thesis
    using update_result [of ready_env sample_finished "Some [0, 0]" 7 2 "Some payload" 4] by force
qed

end
