(* ===== verification/Parameter_Properties.thy ===== *)
theory Parameter_Properties
  imports Record_Lifecycle
begin

text \<open>
  The parameter interface of the cipher, as properties of the API: which arrays are refused,
  what the getters write, what is passed on to the inner cipher, and when the tag of an
  encryption record is released or that of a decryption record accepted.
\<close>

section \<open>The parameter policy\<close>

text \<open>
  C26: legacy TLS parameters are refused everywhere. If any parameter of the array is on the
  denylist, an initialisation, a getter and a setter call all fail and the inner cipher is
  not asked; the getter writes nothing.
\<close>

theorem forbidden_params_rejected:
  assumes "record_wf c" "p \<in> set ps" "key p \<in> set forbidden"
  shows "(\<exists>c'. g301_init api env (Some c) k keylen iv ivlen (Some ps) e = (False, Some c')
            \<and> inner c' = inner c)
    \<and> (\<exists>c'. g301_cipher_get_ctx_params api (Some c) (Some ps) = (False, Some c', Some ps)
            \<and> inner c' = inner c)
    \<and> (\<exists>c'. g301_cipher_set_ctx_params api (Some c) (Some ps) = (False, Some c')
            \<and> inner c' = inner c)"
proof -
  have f: "g301_has_forbidden_legacy_param (Some ps)"
    using assms(2,3) by (auto simp: g301_has_forbidden_Some)
  have "\<not> init_params_ok api c k iv (Some ps) e"
    using f by (simp add: init_params_ok_def g301_validate_init_params_def Let_def)
  then have "\<not> init_accepts api c k keylen iv ivlen (Some ps) e" by (simp add: init_accepts_def)
  then show ?thesis
    using g301_init_rejected [OF assms(1)] f
    by (simp add: g301_cipher_get_ctx_params_def set_ctx_unfold set_accepts_def)
qed

theorem forbidden_params_rejected_witness:
  "\<not> fst (g301_cipher_set_ctx_params libcrypto_params (Some sample_finished)
        (Some [param_row ''tlsaad'' OSSL_PARAM_OCTET_STRING 0]))"
proof -
  let ?p = "param_row ''tlsaad'' OSSL_PARAM_OCTET_STRING 0"
  have "key ?p \<in> set forbidden" by code_simp
  moreover have "record_wf sample_finished" using sample_finished_good by (simp add: ctx_wf_def)
  ultimately obtain c' where
    "g301_cipher_set_ctx_params libcrypto_params (Some sample_finished) (Some [?p]) = (False, Some c')"
    using forbidden_params_rejected [of sample_finished ?p "[?p]" libcrypto_params ready_env
        None 0 None 0 True] by auto
  then show ?thesis by simp
qed

text \<open>
  C27: the validation of initialisation parameters decides exactly the documented policy: no
  denylisted name, no handled name twice, every length parameter present reads as the one
  permitted size, and a tag only for a new decryption record, as a complete 16-byte octet
  string.
\<close>

theorem init_param_policy:
  assumes "params_documented api"
  shows "fst (g301_validate_init_params api (Some ps) encrypt new_record)
     \<longleftrightarrow> init_params_acceptable api ps encrypt new_record"
  by (rule validate_init_iff [OF assms])

theorem init_param_policy_witness:
  "fst (g301_validate_init_params libcrypto_params (Some []) True True)"
  by (simp add: init_param_policy init_params_acceptable_def sole_def)

text \<open>
  Only sanitised parameters reach the inner cipher. Whatever array the caller passed,
  the one built for the delegated call holds at most an IV length, which reads as 12, and a
  tag, which is an octet string of size 16 over the caller's bytes.
\<close>

lemma delegated_params_sanitised:
  assumes "params_documented api"
    and "q \<in> set (filtered_init_params api iv_param tag_param)"
  shows "(key q = OSSL_CIPHER_PARAM_IVLEN \<and> iv_param \<noteq> None \<and> OSSL_PARAM_get_size_t api q = Some 12)
    \<or> (key q = OSSL_CIPHER_PARAM_AEAD_TAG \<and> data_type q = OSSL_PARAM_OCTET_STRING
       \<and> data_size q = 16 \<and> (\<exists>tp. tag_param = Some tp \<and> data q = data tp))"
  using assms(2) params_documentedD(7,8,9) [OF assms(1)]
  by (auto simp: filtered_init_params_def length_defs split: option.splits)

section \<open>Reading parameters\<close>

lemma set_if_requested_other:
  assumes "params_documented api" "n < length ps" "key (ps ! n) \<noteq> name"
  shows "snd (set_if_requested api name setter ps) ! n = ps ! n"
proof (cases "index_of ps name")
  case None
  then show ?thesis by (simp add: set_if_requested_def params_documentedD(1) [OF assms(1)])
next
  case (Some i)
  then have "i \<noteq> n" using assms(3) index_of_Some [OF Some] by auto
  then show ?thesis
    by (simp add: set_if_requested_def params_documentedD(1) [OF assms(1)] Some split_beta)
qed

definition key_preserving :: "(string \<times> (ossl_param \<Rightarrow> bool \<times> ossl_param)) list \<Rightarrow> bool" where
  "key_preserving rows \<longleftrightarrow> (\<forall>row \<in> set rows. \<forall>p. key (snd (snd row p)) = key p)"

lemma key_preserving_Cons:
  "key_preserving ((n, s) # rows) \<longleftrightarrow> (\<forall>p. key (snd (s p)) = key p) \<and> key_preserving rows"
  by (simp add: key_preserving_def)

lemma set_each_other:
  assumes "params_documented api" "key_preserving rows" "n < length ps"
    and "key (ps ! n) \<notin> fst ` set rows"
  shows "snd (set_each api rows ps) ! n = ps ! n"
  using assms(2-4)
proof (induction rows arbitrary: ps)
  case Nil
  then show ?case by simp
next
  case (Cons row rows)
  obtain name s where row: "row = (name, s)" by (cases row)
  let ?qs = "snd (set_if_requested api name s ps)"
  have kp: "\<forall>p. key (snd (s p)) = key p" and rest: "key_preserving rows"
    using Cons.prems(1) row by (simp_all add: key_preserving_Cons)
  have keys: "map key ?qs = map key ps" using set_if_requested_keys [OF assms(1)] kp by simp
  have len: "length ?qs = length ps" using keys by (rule map_eq_imp_length_eq)
  have eq: "?qs ! n = ps ! n"
    using set_if_requested_other [OF assms(1) Cons.prems(2), of name s] Cons.prems(3) row by simp
  have "snd (set_each api rows ?qs) ! n = ?qs ! n"
    using Cons.IH [OF rest, of ?qs] Cons.prems(2,3) row eq len by simp
  then show ?case using eq row by (simp add: split_beta Let_def)
qed

text \<open>A requested parameter is set by its row, if the whole call succeeds.\<close>

lemma set_each_requested:
  assumes "params_documented api" "key_preserving rows" "distinct (map fst rows)"
    and "(name, s) \<in> set rows" "index_of ps name = Some n" "fst (set_each api rows ps)"
  shows "fst (s (ps ! n)) \<and> snd (set_each api rows ps) ! n = snd (s (ps ! n))"
  using assms(2-6)
proof (induction rows arbitrary: ps)
  case Nil
  then show ?case by simp
next
  case (Cons row rows)
  obtain nm t where row: "row = (nm, t)" by (cases row)
  let ?qs = "snd (set_if_requested api nm t ps)"
  have kp: "\<forall>p. key (snd (t p)) = key p" and rest: "key_preserving rows"
    using Cons.prems(1) row by (simp_all add: key_preserving_Cons)
  have keys: "map key ?qs = map key ps" using set_if_requested_keys [OF assms(1)] kp by simp
  have len: "length ?qs = length ps" using keys by (rule map_eq_imp_length_eq)
  have n: "n < length ps" "key (ps ! n) = name" using index_of_Some [OF Cons.prems(4)] by simp_all
  have ok: "fst (set_if_requested api nm t ps)" "fst (set_each api rows ?qs)"
    using Cons.prems(5) row by (simp_all add: split_beta Let_def split: if_splits)
  have tail: "snd (set_each api (row # rows) ps) = snd (set_each api rows ?qs)"
    using ok(1) row by (simp add: split_beta Let_def)
  show ?case
  proof (cases "nm = name")
    case True
    have q: "fst (t (ps ! n))" "?qs = ps[n := snd (t (ps ! n))]"
      using ok(1) Cons.prems(4) True
      by (simp_all add: set_if_requested_def params_documentedD(1) [OF assms(1)] split_beta)
    have s: "s = t" using Cons.prems(2,3) row True by (auto simp: image_iff)
    have "snd (set_each api rows ?qs) ! n = ?qs ! n"
    proof (rule set_each_other [OF assms(1) rest])
      show "n < length ?qs" using n len by simp
      have "key (?qs ! n) = name" using n q(2) kp by simp
      then show "key (?qs ! n) \<notin> fst ` set rows" using Cons.prems(2) row True by auto
    qed
    then show ?thesis using q n s by (simp add: tail)
  next
    case False
    have eq: "?qs ! n = ps ! n"
      using set_if_requested_other [OF assms(1) n(1), of nm t] n(2) False by simp
    have "index_of ?qs name = Some n"
      using Cons.prems(4) index_of_keys [OF keys] by simp
    then have "fst (s (?qs ! n)) \<and> snd (set_each api rows ?qs) ! n = snd (s (?qs ! n))"
      using Cons.IH [OF rest] Cons.prems(2,3) row False ok(2) by auto
    then show ?thesis by (simp add: tail eq)
  qed
qed

lemma param_rows_keys:
  assumes "params_documented api"
  shows "key_preserving (g301_param_rows api)" and "key_preserving (g301_ctx_param_rows api)"
  using params_documentedD(3-5) [OF assms]
  by (simp_all add: key_preserving_def g301_param_rows_def g301_ctx_param_rows_def)

text \<open>
  What a table of rows answers for one parameter of the caller's array. In the array the
  first parameter of a name is the one that is answered; the call succeeds if every setter
  it reaches does, and then each of these parameters holds its answer and no other has
  changed.
\<close>

definition answer ::
  "(string \<times> (ossl_param \<Rightarrow> bool \<times> ossl_param)) list \<Rightarrow> ossl_param \<Rightarrow> bool \<times> ossl_param" where
  "answer rows p = (case map_of rows (key p) of None \<Rightarrow> (True, p) | Some s \<Rightarrow> s p)"

definition first_of_name :: "ossl_params \<Rightarrow> nat \<Rightarrow> bool" where
  "first_of_name ps n \<longleftrightarrow> index_of ps (key (ps ! n)) = Some n"

lemma set_each_answers:
  assumes "params_documented api" "key_preserving rows" "distinct (map fst rows)"
  shows "fst (set_each api rows ps)
      \<longleftrightarrow> (\<forall>n < length ps. first_of_name ps n \<longrightarrow> fst (answer rows (ps ! n)))"
    and "fst (set_each api rows ps) \<Longrightarrow> n < length ps \<Longrightarrow> snd (set_each api rows ps) ! n
       = (if first_of_name ps n then snd (answer rows (ps ! n)) else ps ! n)"
proof -
  have "(fst (set_each api rows ps)
        \<longleftrightarrow> (\<forall>n < length ps. first_of_name ps n \<longrightarrow> fst (answer rows (ps ! n))))
    \<and> (fst (set_each api rows ps) \<longrightarrow> (\<forall>n < length ps. snd (set_each api rows ps) ! n
       = (if first_of_name ps n then snd (answer rows (ps ! n)) else ps ! n)))"
    using assms(2,3)
  proof (induction rows arbitrary: ps)
    case Nil
    then show ?case by (simp add: answer_def)
  next
    case (Cons row rows)
    obtain name s where row: "row = (name, s)" by (cases row)
    have kp: "\<forall>p. key (snd (s p)) = key p" and rest: "key_preserving rows" "distinct (map fst rows)"
      and nr: "map_of rows name = None"
      using Cons.prems row by (simp_all add: key_preserving_Cons map_of_eq_None_iff)
    have loc: "OSSL_PARAM_locate api ps name = index_of ps name"
      using params_documentedD(1) [OF assms(1)] .
    show ?case
    proof (cases "index_of ps name")
      case None
      have "answer (row # rows) (ps ! n) = answer rows (ps ! n)" if "n < length ps" for n
        using None that row by (simp add: index_of_None answer_def)
      then show ?thesis
        using Cons.IH [OF rest, of ps] None row by (simp add: set_if_requested_def loc)
    next
      case (Some j)
      let ?qs = "ps[j := snd (s (ps ! j))]"
      have j: "j < length ps" "key (ps ! j) = name" using index_of_Some [OF Some] by simp_all
      have keys: "map key ?qs = map key ps"
        using kp j by (simp add: map_update list_update_same_conv)
      have first: "first_of_name ?qs n = first_of_name ps n" if "n < length ps" for n
        using index_of_keys [OF keys] kp that by (cases "n = j") (simp_all add: first_of_name_def)
      have aj: "answer (row # rows) (ps ! j) = s (ps ! j)" "answer rows (?qs ! j) = (True, ?qs ! j)"
        "first_of_name ps j"
        using j kp nr row Some by (simp_all add: answer_def first_of_name_def)
      have an: "answer (row # rows) (ps ! n) = answer rows (?qs ! n)"
        if "n < length ps" "n \<noteq> j" "first_of_name ps n" for n
        using that j Some row by (auto simp: answer_def first_of_name_def)
      show ?thesis
      proof (cases "fst (s (ps ! j))")
        case False
        then show ?thesis
          using aj j(1) Some row by (auto simp: set_if_requested_def loc split_beta Let_def)
      next
        case True
        have eq: "set_each api (row # rows) ps = set_each api rows ?qs"
          using True Some row by (simp add: set_if_requested_def loc split_beta Let_def)
        have "(\<forall>n < length ps. first_of_name ps n \<longrightarrow> fst (answer rows (?qs ! n)))
            \<longleftrightarrow> (\<forall>n < length ps. first_of_name ps n \<longrightarrow> fst (answer (row # rows) (ps ! n)))"
          using an aj True by (metis fst_conv)
        moreover have "(if first_of_name ?qs n then snd (answer rows (?qs ! n)) else ?qs ! n)
            = (if first_of_name ps n then snd (answer (row # rows) (ps ! n)) else ps ! n)"
          if "n < length ps" for n
          using an [OF that] aj first [OF that] j(1) by (cases "n = j") simp_all
        ultimately show ?thesis
          using Cons.IH [OF rest, of ?qs] first unfolding eq by simp
      qed
    qed
  qed
  then show "fst (set_each api rows ps)
      \<longleftrightarrow> (\<forall>n < length ps. first_of_name ps n \<longrightarrow> fst (answer rows (ps ! n)))"
    and "fst (set_each api rows ps) \<Longrightarrow> n < length ps \<Longrightarrow> snd (set_each api rows ps) ! n
       = (if first_of_name ps n then snd (answer rows (ps ! n)) else ps ! n)"
    by blast+
qed

text \<open>Without duplicates every parameter is the first of its name.\<close>

lemma sole_first:
  assumes "length (filter (\<lambda>p. key p = name) ps) \<le> 1" "n < length ps" "key (ps ! n) = name"
  shows "first_of_name ps n"
proof -
  have "index_of ps name \<noteq> None" using assms(2,3) by (auto simp: index_of_None)
  then obtain i where i: "index_of ps name = Some i" by auto
  have "i < length ps" "key (ps ! i) = name" using index_of_Some [OF i] by simp_all
  have "i = n"
  proof (rule ccontr)
    assume "i \<noteq> n"
    then have "card {i, n} \<le> card {m. m < length ps \<and> key (ps ! m) = name}"
      using \<open>i < length ps\<close> \<open>key (ps ! i) = name\<close> assms(2,3) by (intro card_mono) auto
    then show False using \<open>i \<noteq> n\<close> assms(1) by (simp add: length_filter_conv_card)
  qed
  then show ?thesis using i assms(3) by (simp add: first_of_name_def)
qed

lemma answer_other: "key p \<notin> fst ` set rows \<Longrightarrow> answer rows p = (True, p)"
  by (simp add: answer_def flip: map_of_eq_None_iff)

lemma set_each_sole:
  assumes "params_documented api" "key_preserving rows" "distinct (map fst rows)"
    and "\<forall>name \<in> fst ` set rows. length (filter (\<lambda>p. key p = name) ps) \<le> 1"
  shows "fst (set_each api rows ps) \<longleftrightarrow> list_all (\<lambda>p. fst (answer rows p)) ps"
    and "fst (set_each api rows ps) \<Longrightarrow> snd (set_each api rows ps) = map (\<lambda>p. snd (answer rows p)) ps"
proof -
  have first: "first_of_name ps n \<or> answer rows (ps ! n) = (True, ps ! n)" if "n < length ps" for n
    using sole_first [OF _ that refl] assms(4) answer_other [of "ps ! n" rows] by blast
  show "fst (set_each api rows ps) \<longleftrightarrow> list_all (\<lambda>p. fst (answer rows p)) ps"
    unfolding set_each_answers(1) [OF assms(1-3)] list_all_length using first by fastforce
  assume ok: "fst (set_each api rows ps)"
  have "map key (snd (set_each api rows ps)) = map key ps"
    by (rule set_each_keys [OF assms(1,2) [unfolded key_preserving_def]])
  then have "length (snd (set_each api rows ps)) = length ps" by (rule map_eq_imp_length_eq)
  then show "snd (set_each api rows ps) = map (\<lambda>p. snd (answer rows p)) ps"
    using set_each_answers(2) [OF assms(1-3) ok] first by (intro nth_equalityI) fastforce+
qed

text \<open>
  C32: the algorithm's parameters, for any array of the caller. \<open>g301_cipher_get_params\<close>
  succeeds exactly if none of its six parameters is asked for twice and each setter accepts
  the caller's buffer; then every one that was asked for holds its value, which is GCM mode,
  key length 32, IV length 12, block size 1 and the AEAD and custom-IV flags 1, and every
  other parameter is as the caller passed it. The latter are left alone by a failure, too.
\<close>

theorem algorithm_getter:
  assumes "params_documented api" "g301_cipher_get_params api (Some ps) = (r, Some qs)"
  defines "reply \<equiv> answer
      [(''mode'', \<lambda>p. OSSL_PARAM_set_uint api p 6), (''keylen'', \<lambda>p. OSSL_PARAM_set_size_t api p 32),
       (''ivlen'', \<lambda>p. OSSL_PARAM_set_size_t api p 12), (''blocksize'', \<lambda>p. OSSL_PARAM_set_size_t api p 1),
       (''aead'', \<lambda>p. OSSL_PARAM_set_int api p 1), (''custom-iv'', \<lambda>p. OSSL_PARAM_set_int api p 1)]"
    and "names \<equiv> [''mode'', ''keylen'', ''ivlen'', ''blocksize'', ''aead'', ''custom-iv'']"
  shows "(r \<longleftrightarrow> list_all (\<lambda>name. length (filter (\<lambda>p. key p = name) ps) \<le> 1) names
           \<and> list_all (\<lambda>p. fst (reply p)) ps)
    \<and> (r \<longrightarrow> qs = map (\<lambda>p. snd (reply p)) ps)
    \<and> (\<forall>n < length ps. key (ps ! n) \<notin> set names \<longrightarrow> qs ! n = ps ! n)"
proof -
  let ?rows = "g301_param_rows api"
  have reply: "reply = answer ?rows" and names: "names = map fst ?rows"
    by (simp_all add: reply_def names_def g301_param_rows_def EVP_CIPH_GCM_MODE_def length_defs)
  have kp: "key_preserving ?rows" by (rule param_rows_keys(1) [OF assms(1)])
  have d: "distinct (map fst ?rows)" by (simp add: g301_param_rows_def)
  have sole: "list_all (\<lambda>name. length (filter (\<lambda>p. key p = name) ps) \<le> 1) names
      \<longleftrightarrow> (\<forall>name \<in> fst ` set ?rows. length (filter (\<lambda>p. key p = name) ps) \<le> 1)"
    by (simp add: names list_all_iff)
  have eq: "(r, qs) = (if list_all (\<lambda>name. length (filter (\<lambda>p. key p = name) ps) \<le> 1) names
      then set_each api ?rows ps else (False, ps))"
    using assms(2)
    by (auto simp: g301_cipher_get_params_def g301_has_duplicate_Some names_def split_beta Let_def
        not_less prod_eq_iff split: if_splits)
  note e = set_each_sole [OF assms(1) kp d]
  have o: "snd (set_each api ?rows ps) ! n = ps ! n" if "n < length ps" "key (ps ! n) \<notin> set names" for n
    using set_each_other [OF assms(1) kp that(1)] that(2) by (simp add: names)
  show ?thesis
    using eq e sole o unfolding reply by (auto simp: prod_eq_iff split: if_splits)
qed

text \<open>
  C33: the parameters of a context, for any array of the caller and any state of the context:
  the three lengths are 12, 32 and 16 wherever they were asked for, parameters that the getter
  does not know are left alone whatever the result, and without a request for the tag the call
  succeeds exactly if no parameter is forbidden or asked for twice and each setter accepts,
  and it changes nothing in the context but the error it may raise.
\<close>

theorem context_getter:
  assumes "params_documented api"
    and "g301_cipher_get_ctx_params api (Some c) (Some ps) = (r, Some c', Some qs)"
  defines "reply \<equiv> answer
      [(''ivlen'', \<lambda>p. OSSL_PARAM_set_size_t api p 12), (''keylen'', \<lambda>p. OSSL_PARAM_set_size_t api p 32),
       (''taglen'', \<lambda>p. OSSL_PARAM_set_size_t api p 16)]"
    and "names \<equiv> [''ivlen'', ''keylen'', ''taglen'']"
  shows "(r \<longrightarrow> list_all (\<lambda>p. fst (reply p)) ps
           \<and> (\<forall>n < length ps. key (ps ! n) \<noteq> ''tag'' \<longrightarrow> qs ! n = snd (reply (ps ! n))))
    \<and> (\<forall>n < length ps. key (ps ! n) \<notin> set (''tag'' # names) \<longrightarrow> qs ! n = ps ! n)
    \<and> (list_all (\<lambda>p. key p \<noteq> ''tag'') ps \<longrightarrow>
         (r \<longleftrightarrow> list_all (\<lambda>p. key p \<notin> set forbidden) ps
              \<and> list_all (\<lambda>name. length (filter (\<lambda>p. key p = name) ps) \<le> 1) names
              \<and> list_all (\<lambda>p. fst (reply p)) ps)
       \<and> c' = (if r then c else g301_raise_error c G301_R_INVALID_PARAMETER))"
proof -
  let ?rows = "g301_ctx_param_rows api"
  have reply: "reply = answer ?rows" and names: "names = map fst ?rows"
    by (simp_all add: reply_def names_def g301_ctx_param_rows_def length_defs)
  have kp: "key_preserving ?rows" by (rule param_rows_keys(2) [OF assms(1)])
  have d: "distinct (map fst ?rows)" by (simp add: g301_ctx_param_rows_def)
  define ok where "ok \<longleftrightarrow> \<not> g301_has_forbidden_legacy_param (Some ps)
      \<and> \<not> g301_get_ctx_params_have_duplicates (Some ps)"
  define ms where "ms = snd (set_each api ?rows ps)"
  have keys: "map key ms = map key ps"
    unfolding ms_def by (rule set_each_keys [OF assms(1) kp [unfolded key_preserving_def]])
  have loc: "OSSL_PARAM_locate api ms ''tag'' = index_of ps ''tag''"
    using index_of_keys [OF keys] params_documentedD(1) [OF assms(1)] by simp
  have run: "(r, c', qs) =
     (if \<not> ok then (False, g301_raise_error c G301_R_INVALID_PARAMETER, ps)
      else if \<not> fst (set_each api ?rows ps)
      then (False, g301_raise_error c G301_R_INVALID_PARAMETER, ms)
      else case index_of ps ''tag'' of None \<Rightarrow> (True, c, ms)
        | Some n \<Rightarrow> if tag_readable c
            then (fst (g301_get_encryption_tag api c (ms ! n)),
                  fst (snd (g301_get_encryption_tag api c (ms ! n))),
                  ms[n := snd (snd (g301_get_encryption_tag api c (ms ! n)))])
            else (False, g301_raise_error c G301_R_INVALID_STATE, ms))"
    using assms(2) loc unfolding g301_cipher_get_ctx_params_def ok_def ms_def tag_readable_def
    by (auto simp: split_beta Let_def split: if_splits option.splits)
  have sole: "ok \<Longrightarrow> \<forall>name \<in> fst ` set ?rows. length (filter (\<lambda>p. key p = name) ps) \<le> 1"
    by (auto simp: ok_def g301_ctx_param_rows_def g301_get_ctx_params_have_duplicates_def
        g301_has_duplicate_Some)
  note e = set_each_sole [OF assms(1) kp d sole]
  have other: "ms ! n = ps ! n" if "n < length ps" "key (ps ! n) \<notin> set names" for n
    unfolding ms_def using set_each_other [OF assms(1) kp that(1)] that(2) by (simp add: names)
  have tag: "m \<noteq> n" if "index_of ps ''tag'' = Some m" "key (ps ! n) \<noteq> ''tag''" for m n
    using index_of_Some [OF that(1)] that(2) by auto
  have a: "qs ! n = ps ! n" if "n < length ps" "key (ps ! n) \<notin> set (''tag'' # names)" for n
    using run other [OF that(1)] tag [of _ n] that(2)
    by (auto split: if_splits option.splits)
  have b: "list_all (\<lambda>p. fst (reply p)) ps
      \<and> (\<forall>n < length ps. key (ps ! n) \<noteq> ''tag'' \<longrightarrow> qs ! n = snd (reply (ps ! n)))" if r: r
  proof -
    have k: ok "fst (set_each api ?rows ps)" using run r by (auto split: if_splits)
    have ms: "ms = map (\<lambda>p. snd (reply p)) ps" using e(2) [OF k] by (simp add: ms_def reply)
    have "qs = ms \<or> (\<exists>m p. index_of ps ''tag'' = Some m \<and> qs = ms[m := p])"
      using run k by (auto split: if_splits option.splits)
    then have "qs ! n = ms ! n" if "key (ps ! n) \<noteq> ''tag''" for n
      using tag that by auto
    then show ?thesis using e(1) [OF k(1)] k(2) ms by (simp add: reply)
  qed
  have c: "(r \<longleftrightarrow> list_all (\<lambda>p. key p \<notin> set forbidden) ps
        \<and> list_all (\<lambda>name. length (filter (\<lambda>p. key p = name) ps) \<le> 1) names
        \<and> list_all (\<lambda>p. fst (reply p)) ps)
      \<and> c' = (if r then c else g301_raise_error c G301_R_INVALID_PARAMETER)"
    if nt: "list_all (\<lambda>p. key p \<noteq> ''tag'') ps"
  proof -
    have none: "index_of ps ''tag'' = None" using nt by (simp add: index_of_None list_all_iff)
    have f: "length (filter (\<lambda>p. key p = ''tag'') ps) = 0"
      using nt by (simp add: list_all_iff filter_empty_conv)
    have ok: "ok \<longleftrightarrow> list_all (\<lambda>p. key p \<notin> set forbidden) ps
        \<and> list_all (\<lambda>name. length (filter (\<lambda>p. key p = name) ps) \<le> 1) names"
      using f by (auto simp: ok_def g301_has_forbidden_Some g301_get_ctx_params_have_duplicates_def
          g301_has_duplicate_Some names_def list_all_iff not_less)
    have "(r, c') = (if ok \<and> fst (set_each api ?rows ps) then (True, c)
        else (False, g301_raise_error c G301_R_INVALID_PARAMETER))"
      using run none by (auto split: if_splits)
    then show ?thesis using ok e(1) by (auto simp: reply split: if_splits)
  qed
  show ?thesis using a b c by blast
qed

section \<open>The tag of an encryption record\<close>

lemma get_ctx_tag:
  assumes "params_documented api" "index_of ps OSSL_CIPHER_PARAM_AEAD_TAG = Some n"
    and "g301_cipher_get_ctx_params api (Some c) (Some ps) = (r, Some c', Some qs)"
  shows "(\<not> r \<and> qs ! n = ps ! n)
    \<or> (tag_readable c \<and> g301_get_encryption_tag api c (ps ! n) = (r, c', qs ! n))"
proof -
  let ?rows = "g301_ctx_param_rows api"
  have n: "n < length ps" "key (ps ! n) = OSSL_CIPHER_PARAM_AEAD_TAG"
    using index_of_Some [OF assms(2)] by simp_all
  define ms where "ms = snd (set_each api ?rows ps)"
  have same: "ms ! n = ps ! n"
    unfolding ms_def by (rule set_each_other [OF assms(1) param_rows_keys(2) [OF assms(1)] n(1)])
       (simp add: n g301_ctx_param_rows_def)
  have keys: "map key ms = map key ps"
    unfolding ms_def
    by (rule set_each_keys [OF assms(1) param_rows_keys(2) [OF assms(1), unfolded key_preserving_def]])
  have len: "length ms = length ps" using keys by (rule map_eq_imp_length_eq)
  have loc: "OSSL_PARAM_locate api ms OSSL_CIPHER_PARAM_AEAD_TAG = Some n"
    using assms(2) index_of_keys [OF keys] params_documentedD(1) [OF assms(1)] by simp
  have eq: "g301_cipher_get_ctx_params api (Some c) (Some ps) =
     (if g301_has_forbidden_legacy_param (Some ps) \<or> g301_get_ctx_params_have_duplicates (Some ps)
      then (False, Some (g301_raise_error c G301_R_INVALID_PARAMETER), Some ps)
      else if \<not> fst (set_each api ?rows ps)
      then (False, Some (g301_raise_error c G301_R_INVALID_PARAMETER), Some ms)
      else if \<not> encrypting c \<or> phase c \<noteq> G301_PHASE_FINALIZED \<or> needs_reinit c
      then (False, Some (g301_raise_error c G301_R_INVALID_STATE), Some ms)
      else (fst (g301_get_encryption_tag api c (ms ! n)),
            Some (fst (snd (g301_get_encryption_tag api c (ms ! n)))),
            Some (ms[n := snd (snd (g301_get_encryption_tag api c (ms ! n)))])))"
    unfolding g301_cipher_get_ctx_params_def option.case Let_def split_beta
    using loc unfolding ms_def by simp
  show ?thesis
    using assms(3) n(1) same len unfolding eq
    by (auto simp: tag_readable_def prod_eq_iff split: if_splits)
qed

text \<open>
  C18: release of the tag. The bytes a caller asked for as the tag change only if the call
  succeeds on a completed, unpoisoned encryption record; then they are the 16 bytes the
  inner cipher wrote to a private buffer in a call that succeeded and reported exactly 16
  bytes. Any failure leaves the caller's bytes as they were.
\<close>

theorem tag_release:
  assumes "params_documented api" "index_of ps OSSL_CIPHER_PARAM_AEAD_TAG = Some n"
    and "g301_cipher_get_ctx_params api (Some c) (Some ps) = (r, Some c', Some qs)"
    and "data (ps ! n) = Some buf"
  shows "if r
    then encrypting c \<and> phase c = G301_PHASE_FINALIZED \<and> \<not> needs_reinit c
       \<and> fst (get_params (ops c) (inner c) [tag_request api])
       \<and> (\<forall>q rest. snd (snd (get_params (ops c) (inner c) [tag_request api])) = q # rest \<longrightarrow>
            return_size q = 16 \<and>
            (\<forall>t. data q = Some t \<longrightarrow> data (qs ! n) = Some (memcpy buf t 16)))
    else data (qs ! n) = Some buf"
proof (cases r)
  case True
  with get_ctx_tag [OF assms(1-3)] have tr: "tag_readable c"
    and t: "g301_get_encryption_tag api c (ps ! n) = (True, c', qs ! n)"
    by auto
  have req: "OSSL_PARAM_construct_octet_string api OSSL_CIPHER_PARAM_AEAD_TAG
      (Some (replicate 16 0)) 16 = tag_request api"
    by (simp add: tag_request_def G301_TAG_LENGTH_def)
  have ok: "fst (g301_get_encryption_tag api c (ps ! n))"
    and q: "qs ! n = snd (snd (g301_get_encryption_tag api c (ps ! n)))"
    using t by simp_all
  show ?thesis
    using ok tr True assms(4) unfolding q
    by (auto simp: g301_get_encryption_tag_def Let_def split_beta req G301_TAG_LENGTH_def
        tag_readable_def split: if_splits list.splits)
next
  case False
  then have "data (qs ! n) = data (ps ! n)"
    using get_ctx_tag [OF assms(1-3)] get_tag_fail [of api c "ps ! n" c' "qs ! n"] by auto
  then show ?thesis using False assms(4) by simp
qed

text \<open>
  C19: setting the tag of a decryption record. A call that succeeds has validated the tag and
  handed it to the inner cipher: the record is an open decryption record and the tag is
  current afterwards. A call that fails leaves no current tag.
\<close>

theorem set_tag:
  assumes "params_documented api" "sole ps OSSL_CIPHER_PARAM_AEAD_TAG = Some tp"
    and "g301_cipher_set_ctx_params api (Some c) (Some ps) = (r, Some c')"
  shows "(decrypt_tag_current c' \<longleftrightarrow> r)
    \<and> (r \<longrightarrow> \<not> encrypting c \<and> \<not> record_closed c \<and> tag_param_exact tp
         \<and> set_params (ops c) (inner c)
             (filtered_init_params api (sole ps OSSL_CIPHER_PARAM_IVLEN) (Some tp)) = (True, inner c'))"
proof -
  have l: "OSSL_PARAM_locate_const api ps name = sole ps name" for name
    using params_documentedD(2) [OF assms(1)] by (simp add: sole_def)
  have t: "has_tag api ps" using assms(2) l by (simp add: has_tag_def)
  have u: "tag_update api c ps = set_params (ops c) (inner c)
      (filtered_init_params api (sole ps OSSL_CIPHER_PARAM_IVLEN) (Some tp))"
    using assms(2) by (simp add: tag_update_def l)
  show ?thesis
    using assms(3) t unfolding set_ctx_unfold u
    by (auto simp: stale_tag_ctx_def set_accepts_def l assms(2) prod_eq_iff split: if_splits)
qed

section \<open>Witnesses\<close>

definition sample_keylen_request :: ossl_params where
  "sample_keylen_request =
     [\<lparr>key = OSSL_CIPHER_PARAM_KEYLEN, data_type = OSSL_PARAM_UNSIGNED_INTEGER,
       data = Some (replicate 8 0), data_size = 8, return_size = OSSL_PARAM_UNMODIFIED\<rparr>]"

definition sample_tag_request :: ossl_params where
  "sample_tag_request =
     [\<lparr>key = OSSL_CIPHER_PARAM_AEAD_TAG, data_type = OSSL_PARAM_OCTET_STRING,
       data = Some (replicate 16 0), data_size = 16, return_size = OSSL_PARAM_UNMODIFIED\<rparr>]"

theorem algorithm_getter_witness:
  "g301_cipher_get_params libcrypto_params (Some sample_keylen_request)
     = (True, Some [\<lparr>key = OSSL_CIPHER_PARAM_KEYLEN, data_type = OSSL_PARAM_UNSIGNED_INTEGER,
        data = Some [32, 0, 0, 0, 0, 0, 0, 0], data_size = 8, return_size = 8\<rparr>])"
proof -
  let ?g = "g301_cipher_get_params libcrypto_params (Some sample_keylen_request)"
  have ok: "fst ?g \<and> snd ?g \<noteq> None" by code_simp
  then obtain qs where qs: "?g = (True, Some qs)"
    by (metis option.exhaust_sel prod.collapse)
  have w: "write_value OSSL_PARAM_UNSIGNED_INTEGER 8 (sample_keylen_request ! 0) 32
     = (True, \<lparr>key = OSSL_CIPHER_PARAM_KEYLEN, data_type = OSSL_PARAM_UNSIGNED_INTEGER,
        data = Some [32, 0, 0, 0, 0, 0, 0, 0], data_size = 8, return_size = 8\<rparr>)"
    by code_simp
  show ?thesis
    using algorithm_getter [OF params_documented_libcrypto qs] w qs
    by (simp add: answer_def sample_keylen_request_def)
qed

theorem context_getter_witness:
  "\<exists>c' qs. g301_cipher_get_ctx_params libcrypto_params (Some sample_ctx) (Some sample_keylen_request)
       = (True, Some c', Some qs)
     \<and> qs ! 0 = \<lparr>key = OSSL_CIPHER_PARAM_KEYLEN, data_type = OSSL_PARAM_UNSIGNED_INTEGER,
        data = Some [32, 0, 0, 0, 0, 0, 0, 0], data_size = 8, return_size = 8\<rparr>"
proof -
  let ?g = "g301_cipher_get_ctx_params libcrypto_params (Some sample_ctx) (Some sample_keylen_request)"
  have ok: "fst ?g \<and> snd (snd ?g) \<noteq> None" by code_simp
  obtain r c' x where "?g = (r, Some c', x)" using get_ctx_Some by blast
  then obtain qs where g: "?g = (True, Some c', Some qs)" using ok by auto
  have w: "write_value OSSL_PARAM_UNSIGNED_INTEGER 8 (sample_keylen_request ! 0) 32
     = (True, \<lparr>key = OSSL_CIPHER_PARAM_KEYLEN, data_type = OSSL_PARAM_UNSIGNED_INTEGER,
        data = Some [32, 0, 0, 0, 0, 0, 0, 0], data_size = 8, return_size = 8\<rparr>)"
    by code_simp
  have "qs ! 0 = snd (write_value OSSL_PARAM_UNSIGNED_INTEGER 8 (sample_keylen_request ! 0) 32)"
    using context_getter [OF params_documented_libcrypto g]
    by (simp add: answer_def sample_keylen_request_def)
  then show ?thesis using g w by auto
qed

theorem tag_release_witness:
  "data (the (snd (snd (g301_cipher_get_ctx_params libcrypto_params
      (Some (cipher_step libcrypto_params sample_finished finish_record)) (Some sample_tag_request)))) ! 0)
   = Some (memcpy (replicate 16 0) (sample_tag
       (inner (cipher_step libcrypto_params sample_finished finish_record))) 16)"
proof -
  let ?c = "cipher_step libcrypto_params sample_finished finish_record"
  let ?g = "g301_cipher_get_ctx_params libcrypto_params (Some ?c) (Some sample_tag_request)"
  have ok: "fst ?g" "snd (snd ?g) \<noteq> None" by code_simp+
  obtain r c' x where x: "?g = (r, Some c', x)" using get_ctx_Some by blast
  then obtain qs where g: "?g = (True, Some c', Some qs)" using ok by auto
  have i: "index_of sample_tag_request OSSL_CIPHER_PARAM_AEAD_TAG = Some 0"
    and d: "data (sample_tag_request ! 0) = Some (replicate 16 0)" by code_simp+
  have o: "ops ?c = sample_ops"
    by (simp add: step_fixed sample_finished_def sample_ctx_eq)
  note t = tag_release [OF params_documented_libcrypto i g d, unfolded o]
  show ?thesis using t g by (simp add: sample_ops_def tag_request_def)
qed

theorem set_tag_witness:
  "fst (g301_cipher_set_ctx_params libcrypto_params (Some sample_decrypting) (Some sample_tag_request))
   \<and> decrypt_tag_current (the (snd (g301_cipher_set_ctx_params libcrypto_params
       (Some sample_decrypting) (Some sample_tag_request))))"
proof -
  let ?s = "g301_cipher_set_ctx_params libcrypto_params (Some sample_decrypting) (Some sample_tag_request)"
  obtain r c' where s: "?s = (r, Some c')" using set_ctx_Some by blast
  have "sole sample_tag_request OSSL_CIPHER_PARAM_AEAD_TAG = Some (sample_tag_request ! 0)"
    by (simp add: sole_def sample_tag_request_def)
  moreover have "fst ?s" by code_simp
  ultimately show ?thesis using set_tag [OF params_documented_libcrypto _ s] s by simp
qed

end
