(* ===== verification/Record_Equivalence.thy ===== *)
theory Record_Equivalence
  imports Parameter_Properties "HOL-Library.Monad_Syntax"
begin

text \<open>
  The construction of docs/G301_DRAFT.md: a record sealed or opened through G301 is the
  record the inner cipher alone would seal or open with the manifest in front of the
  associated data. The clients \<open>g301_seal\<close> and \<open>g301_open\<close> make the calls a TLS record layer
  makes; \<open>direct_seal\<close> and \<open>direct_open\<close> make the same calls on the inner cipher.
\<close>

section \<open>Records sent to the inner cipher directly\<close>

definition chunk_len :: "bytes \<Rightarrow> size" where
  "chunk_len b = of_nat (length b)"

definition zeros :: "bytes \<Rightarrow> bytes" where
  "zeros b = replicate (length b) 0"

text \<open>One call of the inner \<open>update\<close> on a chunk, complete if it accounts for all of it.\<close>

definition inner_chunk :: "('a, 'i) G301_INNER_OPS \<Rightarrow> 'i \<Rightarrow> bytes option \<Rightarrow> bytes
    \<Rightarrow> ('i \<times> bytes option) option" where
  "inner_chunk iops i out b =
     (case update iops i out 0 (Some b) (ucast (chunk_len b)) of
        (ok, i', out', n) \<Rightarrow> if ok \<and> n = ucast (chunk_len b) then Some (i', out') else None)"

fun inner_aad :: "('a, 'i) G301_INNER_OPS \<Rightarrow> 'i \<Rightarrow> bytes list \<Rightarrow> 'i option" where
  "inner_aad iops i [] = Some i"
| "inner_aad iops i (a # as) = do { (i', _) \<leftarrow> inner_chunk iops i None a; inner_aad iops i' as }"

fun inner_data :: "('a, 'i) G301_INNER_OPS \<Rightarrow> 'i \<Rightarrow> bytes list \<Rightarrow> ('i \<times> bytes list) option" where
  "inner_data iops i [] = Some (i, [])"
| "inner_data iops i (b # bs) = do {
     (i', out) \<leftarrow> inner_chunk iops i (Some (zeros b)) b;
     (i'', outs) \<leftarrow> inner_data iops i' bs;
     Some (i'', (case out of None \<Rightarrow> [] | Some x \<Rightarrow> x) # outs) }"

definition inner_finish :: "('a, 'i) G301_INNER_OPS \<Rightarrow> 'i \<Rightarrow> 'i option" where
  "inner_finish iops i =
     (case final iops i (Some (replicate 32 0)) 0 of
        (ok, i', _, n) \<Rightarrow> if ok \<and> n = 0 then Some i' else None)"

definition inner_stream ::
  "('a, 'i) G301_INNER_OPS \<Rightarrow> 'i \<Rightarrow> bytes list \<Rightarrow> bytes list \<Rightarrow> ('i \<times> bytes list) option" where
  "inner_stream iops i aads bs = do {
     i1 \<leftarrow> inner_aad iops i aads;
     (i2, outs) \<leftarrow> inner_data iops i1 bs;
     i3 \<leftarrow> inner_finish iops i2;
     Some (i3, outs) }"

section \<open>The same records sent through G301\<close>

definition g301_update ::
  "crypto_env \<Rightarrow> ('a, 'i, 'h) G301_CIPHER_CTX \<Rightarrow> bytes option \<Rightarrow> bytes
   \<Rightarrow> (('a, 'i, 'h) G301_CIPHER_CTX \<times> bytes option) option" where
  "g301_update env c out b =
     (case g301_cipher_update env (Some c) out (Some 0) (chunk_len b) (Some b) (chunk_len b) of
        (True, Some c', out', _) \<Rightarrow> Some (c', out') | _ \<Rightarrow> None)"

fun g301_aad ::
  "crypto_env \<Rightarrow> ('a, 'i, 'h) G301_CIPHER_CTX \<Rightarrow> bytes list \<Rightarrow> ('a, 'i, 'h) G301_CIPHER_CTX option" where
  "g301_aad env c [] = Some c"
| "g301_aad env c (a # as) = do { (c', _) \<leftarrow> g301_update env c None a; g301_aad env c' as }"

fun g301_data ::
  "crypto_env \<Rightarrow> ('a, 'i, 'h) G301_CIPHER_CTX \<Rightarrow> bytes list
   \<Rightarrow> (('a, 'i, 'h) G301_CIPHER_CTX \<times> bytes list) option" where
  "g301_data env c [] = Some (c, [])"
| "g301_data env c (b # bs) = do {
     (c', out) \<leftarrow> g301_update env c (Some (zeros b)) b;
     (c'', outs) \<leftarrow> g301_data env c' bs;
     Some (c'', (case out of None \<Rightarrow> [] | Some x \<Rightarrow> x) # outs) }"

definition g301_finish ::
  "crypto_env \<Rightarrow> ('a, 'i, 'h) G301_CIPHER_CTX \<Rightarrow> ('a, 'i, 'h) G301_CIPHER_CTX option" where
  "g301_finish env c =
     (case g301_cipher_final env (Some c) None (Some 0) 0 of
        (True, Some c', _) \<Rightarrow> Some c' | _ \<Rightarrow> None)"

definition g301_stream ::
  "crypto_env \<Rightarrow> ('a, 'i, 'h) G301_CIPHER_CTX \<Rightarrow> bytes list \<Rightarrow> bytes list
   \<Rightarrow> (('a, 'i, 'h) G301_CIPHER_CTX \<times> bytes list) option" where
  "g301_stream env c aads bs = do {
     c1 \<leftarrow> g301_aad env c aads;
     (c2, outs) \<leftarrow> g301_data env c1 bs;
     c3 \<leftarrow> g301_finish env c2;
     Some (c3, outs) }"

section \<open>One call through the decorator\<close>

text \<open>
  \<open>streaming\<close> is a record that can take data; \<open>due\<close> is the inner context once the manifest
  is in, which for a pending record is only determined by the injection to come.
\<close>

definition streaming :: "crypto_env \<Rightarrow> ('a, 'i, 'h) G301_CIPHER_CTX \<Rightarrow> bool" where
  "streaming env c \<longleftrightarrow> \<not> needs_reinit c
     \<and> (phase c = G301_PHASE_MANIFEST_PENDING \<and> reserve_ok env c \<and> \<not> payload_started c
        \<or> phase c = G301_PHASE_ACTIVE)"

definition due :: "('a, 'i, 'h) G301_CIPHER_CTX \<Rightarrow> 'i option" where
  "due c = (if phase c = G301_PHASE_MANIFEST_PENDING
            then map_option fst (inner_chunk (ops c) (inner c) None g301_manifest)
            else Some (inner c))"

definition chunk_ok :: "bytes \<Rightarrow> bool" where
  "chunk_ok b \<longleftrightarrow> b \<noteq> [] \<and> int (length b) \<le> INT_MAX"

lemma chunk_len_ok:
  assumes "chunk_ok b"
  shows "chunk_len b \<noteq> 0" "uint (chunk_len b) \<le> INT_MAX"
proof -
  have "int (length b) < 2 ^ 64" using assms by (simp add: chunk_ok_def)
  then have u: "uint (chunk_len b) = int (length b)"
    by (simp add: chunk_len_def unsigned_of_nat take_bit_nat_eq_self_iff)
  show "uint (chunk_len b) \<le> INT_MAX" using u assms by (simp add: chunk_ok_def)
  show "chunk_len b \<noteq> 0" using u assms by (auto simp: chunk_ok_def)
qed

lemma manifest_chunk: "(ucast (chunk_len g301_manifest) :: cint) = 32"
  by (simp add: chunk_len_def)

lemma streaming_open: "streaming env c \<Longrightarrow> \<not> record_closed c"
  by (auto simp: streaming_def record_closed_def record_open_def)

lemma inject_due:
  assumes "streaming env c"
  shows "fst (g301_inject_manifest env c) = (due c \<noteq> None)"
    and "due c \<noteq> None \<Longrightarrow> due c = Some (inner (snd (g301_inject_manifest env c)))"
proof -
  have "fst (g301_inject_manifest env c) = (due c \<noteq> None)
      \<and> (due c \<noteq> None \<longrightarrow> due c = Some (inner (snd (g301_inject_manifest env c))))"
  proof (cases "phase c = G301_PHASE_MANIFEST_PENDING")
    case False
    then have "phase c = G301_PHASE_ACTIVE" using assms by (auto simp: streaming_def)
    then show ?thesis by (simp add: inject_active due_def)
  next
    case True
    then have r: "reserve_ok env c" using assms by (auto simp: streaming_def)
    have d: "due c = (if manifest_taken c then Some (fst (snd (manifest_update c))) else None)"
      using True by (simp add: due_def inner_chunk_def manifest_taken_def manifest_update_def
          manifest_chunk split_beta)
    show ?thesis
      using True r d
      by (cases rule: inject_cases [of c env]) (auto simp: after_manifest_def reserve_ok_def)
  qed
  then show "fst (g301_inject_manifest env c) = (due c \<noteq> None)"
    and "due c \<noteq> None \<Longrightarrow> due c = Some (inner (snd (g301_inject_manifest env c)))"
    by simp_all
qed

text \<open>What an update through the decorator is, in terms of the inner cipher.\<close>

lemma update_equiv:
  assumes "streaming env c" "chunk_ok b" "\<not> (out = None \<and> payload_started c)"
  shows "(case g301_update env c out b of
        None \<Rightarrow> Option.bind (due c) (\<lambda>i. inner_chunk (ops c) i out b) = None
      | Some (c', out') \<Rightarrow>
          Option.bind (due c) (\<lambda>i. inner_chunk (ops c) i out b) = Some (inner c', out')
        \<and> streaming env c' \<and> due c' = Some (inner c') \<and> ops c' = ops c
        \<and> encrypting c' = encrypting c \<and> decrypt_tag_current c' = decrypt_tag_current c
        \<and> payload_started c' = (payload_started c \<or> out \<noteq> None))"
proof -
  note len = chunk_len_ok [OF assms(2)]
  have adm: "update_refusal c out (chunk_len b) (Some b) (chunk_len b) = None"
    using assms(3) len streaming_open [OF assms(1)] by (auto simp: update_refusal_def)
  let ?d = "snd (g301_inject_manifest env c)"
  have ud: "caller_update ?d out (Some b) (chunk_len b)
      = update (ops c) (inner ?d) out 0 (Some b) (ucast (chunk_len b))"
    by (simp add: caller_update_def)
  show ?thesis
  proof (cases rule: update_cases [of c out "chunk_len b" "Some b" "chunk_len b" env 0])
    case refused
    then show ?thesis using adm by simp
  next
    case empty
    then show ?thesis using len by simp
  next
    case not_injected
    then have "due c = None" using inject_due [OF assms(1)] by simp
    then show ?thesis using not_injected(4) by (simp add: g301_update_def)
  next
    case (failed d out')
    then have "g301_update env c out b = None" by (auto simp: g301_update_def)
    moreover have "due c = Some (inner ?d)" using inject_due [OF assms(1)] failed(3) by simp
    ultimately show ?thesis
      using failed(4,5) ud by (simp add: inner_chunk_def data_taken_def split_beta)
  next
    case (taken d out')
    have due: "due c = Some (inner ?d)" using inject_due [OF assms(1)] taken(3) by simp
    note ok = inject_ok [OF taken(3)]
    have nr: "\<not> needs_reinit c" using assms(1) by (simp add: streaming_def)
    show ?thesis
      using taken(4-7) due ud ok nr
      by (cases out) (auto simp: g301_update_def inner_chunk_def data_taken_def split_beta
          streaming_def due_def)
  qed
qed

lemma finish_equiv:
  assumes "streaming env c" "\<not> tag_stale c"
  shows "(case g301_finish env c of
        None \<Rightarrow> Option.bind (due c) (inner_finish (ops c)) = None
      | Some c' \<Rightarrow>
          Option.bind (due c) (inner_finish (ops c)) = Some (inner c')
        \<and> phase c' = G301_PHASE_FINALIZED \<and> \<not> needs_reinit c' \<and> ops c' = ops c
        \<and> encrypting c' = encrypting c)"
proof -
  let ?d = "snd (g301_inject_manifest env c)"
  have fd: "inner_final ?d = final (ops c) (inner ?d) (Some (replicate 32 0)) 0"
    by (simp add: inner_final_def)
  note due = inject_due [OF assms(1)]
  show ?thesis
  proof (cases rule: final_cases [of c env None 0 0])
    case refused
    then show ?thesis using streaming_open [OF assms(1)] by simp
  next
    case stale
    then show ?thesis using assms(2) by simp
  next
    case not_injected
    then show ?thesis using due by (simp add: g301_finish_def)
  next
    case (failed d)
    then have "g301_finish env c = None" by (auto simp: g301_finish_def)
    then show ?thesis
      using due failed(3-5) fd by (simp add: inner_finish_def final_taken_def split_beta)
  next
    case (completed d)
    have "\<not> needs_reinit d"
      using inject_ok [OF completed(3)] completed(4) assms(1) by (simp add: streaming_def)
    then show ?thesis
      using due completed(3-6) fd
      by (simp add: g301_finish_def inner_finish_def final_taken_def after_final_def split_beta)
  qed
qed

section \<open>A record through the decorator\<close>

text \<open>
  The state between calls, before and after payload, and with the status of the tag that
  \<open>final\<close> will look at.
\<close>

definition same_record :: "('a, 'i, 'h) G301_CIPHER_CTX \<Rightarrow> ('a, 'i, 'h) G301_CIPHER_CTX \<Rightarrow> bool" where
  "same_record c c' \<longleftrightarrow> ops c' = ops c \<and> encrypting c' = encrypting c
     \<and> decrypt_tag_current c' = decrypt_tag_current c"

lemma aad_equiv:
  assumes "streaming env c" "\<not> payload_started c" "list_all chunk_ok as"
  shows "(case g301_aad env c as of
        None \<Rightarrow> Option.bind (due c) (\<lambda>i. inner_aad (ops c) i as) = None
      | Some c' \<Rightarrow>
          Option.bind (due c) (\<lambda>i. inner_aad (ops c) i as) = due c'
        \<and> streaming env c' \<and> \<not> payload_started c' \<and> same_record c c')"
  using assms
proof (induction as arbitrary: c)
  case Nil
  then show ?case by (simp add: same_record_def)
next
  case (Cons a as)
  have ok: "chunk_ok a" "list_all chunk_ok as" using Cons.prems(3) by simp_all
  note u = update_equiv [OF Cons.prems(1) ok(1), of None]
  show ?case
  proof (cases "g301_update env c None a")
    case None
    then show ?thesis using u Cons.prems(2) by (cases "due c") auto
  next
    case (Some p)
    then obtain c1 o1 where p: "g301_update env c None a = Some (c1, o1)" by (cases p) auto
    then have s: "Option.bind (due c) (\<lambda>i. inner_chunk (ops c) i None a) = Some (inner c1, o1)"
      and c1: "streaming env c1" "due c1 = Some (inner c1)" "\<not> payload_started c1" "same_record c c1"
      using u Cons.prems(2) by (auto simp: same_record_def)
    obtain i where i: "due c = Some i" "inner_chunk (ops c) i None a = Some (inner c1, o1)"
      using s by (cases "due c") auto
    show ?thesis
      using Cons.IH [OF c1(1,3) ok(2)] p i c1(2,4)
      by (simp add: same_record_def split: option.split_asm option.split)
  qed
qed

lemma data_equiv:
  assumes "streaming env c" "list_all chunk_ok bs"
  shows "(case g301_data env c bs of
        None \<Rightarrow> Option.bind (due c) (\<lambda>i. inner_data (ops c) i bs) = None
      | Some (c', outs) \<Rightarrow>
          Option.bind (due c) (\<lambda>i. inner_data (ops c) i bs) = map_option (\<lambda>i. (i, outs)) (due c')
        \<and> streaming env c' \<and> same_record c c')"
  using assms
proof (induction bs arbitrary: c)
  case Nil
  then show ?case by (cases "due c") (simp_all add: same_record_def)
next
  case (Cons b bs)
  have ok: "chunk_ok b" "list_all chunk_ok bs" using Cons.prems(2) by simp_all
  note u = update_equiv [OF Cons.prems(1) ok(1), of "Some (zeros b)"]
  show ?case
  proof (cases "g301_update env c (Some (zeros b)) b")
    case None
    then show ?thesis using u by (cases "due c") auto
  next
    case (Some p)
    then obtain c1 o1 where p: "g301_update env c (Some (zeros b)) b = Some (c1, o1)"
      by (cases p) auto
    then have s: "Option.bind (due c) (\<lambda>i. inner_chunk (ops c) i (Some (zeros b)) b) = Some (inner c1, o1)"
      and c1: "streaming env c1" "due c1 = Some (inner c1)" "same_record c c1"
      using u by (auto simp: same_record_def)
    obtain i where i: "due c = Some i" "inner_chunk (ops c) i (Some (zeros b)) b = Some (inner c1, o1)"
      using s by (cases "due c") auto
    show ?thesis
    proof (cases "g301_data env c1 bs")
      case None
      then show ?thesis
        using Cons.IH [OF c1(1) ok(2)] p i c1(2,3) by (simp add: same_record_def)
    next
      case (Some q)
      then obtain c2 outs where "g301_data env c1 bs = Some (c2, outs)" by (cases q) auto
      then show ?thesis
        using Cons.IH [OF c1(1) ok(2)] p i c1(2,3)
        by (cases "due c2") (auto simp: same_record_def)
    qed
  qed
qed

text \<open>
  A whole record: from a pending record the decorator does to the inner cipher exactly what
  sending the manifest as an additional first chunk of associated data would do.
\<close>

lemma stream_equiv:
  assumes "streaming env c" "phase c = G301_PHASE_MANIFEST_PENDING" "\<not> tag_stale c"
    and "list_all chunk_ok as" "list_all chunk_ok bs"
  shows "(case g301_stream env c as bs of
        None \<Rightarrow> inner_stream (ops c) (inner c) (g301_manifest # as) bs = None
      | Some (c', outs) \<Rightarrow>
          inner_stream (ops c) (inner c) (g301_manifest # as) bs = Some (inner c', outs)
        \<and> phase c' = G301_PHASE_FINALIZED \<and> \<not> needs_reinit c' \<and> ops c' = ops c
        \<and> encrypting c' = encrypting c)"
proof -
  have np: "\<not> payload_started c" using assms(1,2) by (auto simp: streaming_def)
  have aad: "inner_aad (ops c) (inner c) (g301_manifest # as)
      = Option.bind (due c) (\<lambda>i. inner_aad (ops c) i as)"
    using assms(2) by (cases "inner_chunk (ops c) (inner c) None g301_manifest") (auto simp: due_def)
  note a = aad_equiv [OF assms(1) np assms(4)]
  show ?thesis
  proof (cases "g301_aad env c as")
    case None
    then show ?thesis using a unfolding inner_stream_def g301_stream_def aad by simp
  next
    case (Some c1)
    have c1: "Option.bind (due c) (\<lambda>i. inner_aad (ops c) i as) = due c1" "streaming env c1"
        "same_record c c1"
      using a Some by simp_all
    have ops1: "ops c1 = ops c" using c1(3) by (simp add: same_record_def)
    note d = data_equiv [OF c1(2) assms(5), unfolded ops1]
    show ?thesis
    proof (cases "g301_data env c1 bs")
      case None
      then show ?thesis
        using d Some unfolding inner_stream_def g301_stream_def aad c1(1)
        by (cases "due c1") simp_all
    next
      case (Some q)
      obtain c2 outs where q: "g301_data env c1 bs = Some (c2, outs)" using Some by (cases q) auto
      have c2: "Option.bind (due c1) (\<lambda>i. inner_data (ops c) i bs)
            = map_option (\<lambda>i. (i, outs)) (due c2)" "streaming env c2" "same_record c1 c2"
        using d q by simp_all
      have rec: "ops c2 = ops c" "\<not> tag_stale c2" "encrypting c2 = encrypting c"
        using c1(3) c2(3) assms(3) by (simp_all add: same_record_def tag_stale_def)
      note f = finish_equiv [OF c2(2) rec(2), unfolded rec(1,3)]
      have chain: "inner_stream (ops c) (inner c) (g301_manifest # as) bs =
          Option.bind (due c2) (\<lambda>i. Option.bind (inner_finish (ops c) i) (\<lambda>i3. Some (i3, outs)))"
      proof -
        have "inner_stream (ops c) (inner c) (g301_manifest # as) bs =
            Option.bind (Option.bind (due c1) (\<lambda>i. inner_data (ops c) i bs))
              (\<lambda>(i2, os). Option.bind (inner_finish (ops c) i2) (\<lambda>i3. Some (i3, os)))"
          unfolding inner_stream_def aad c1(1) by (cases "due c1") simp_all
        also have "\<dots> = Option.bind (due c2)
            (\<lambda>i. Option.bind (inner_finish (ops c) i) (\<lambda>i3. Some (i3, outs)))"
          unfolding c2(1) by (cases "due c2") simp_all
        finally show ?thesis .
      qed
      show ?thesis
        using f q \<open>g301_aad env c as = Some c1\<close> unfolding chain g301_stream_def
        by (cases "due c2") (auto split: option.split_asm option.split)
    qed
  qed
qed

section \<open>Sealing\<close>

text \<open>Encrypting one record with the inner cipher alone: the AES-256-GCM of the contract.\<close>

definition inner_tag :: "ossl_param_api \<Rightarrow> ('a, 'i) G301_INNER_OPS \<Rightarrow> 'i \<Rightarrow> bytes option" where
  "inner_tag api iops i =
     (case get_params iops i [tag_request api] of (ok, _, qs) \<Rightarrow>
        let q = (case qs of [] \<Rightarrow> tag_request api | q # _ \<Rightarrow> q) in
        if ok \<and> return_size q = 16
        then Some (take 16 (case data q of None \<Rightarrow> replicate 16 0 | Some t \<Rightarrow> t) @
                   drop 16 (replicate 16 0))
        else None)"

definition direct_seal ::
  "ossl_param_api \<Rightarrow> ('a, 'i) G301_INNER_OPS \<Rightarrow> 'i \<Rightarrow> bytes \<Rightarrow> bytes \<Rightarrow> bytes list \<Rightarrow> bytes list
   \<Rightarrow> (bytes \<times> bytes) option" where
  "direct_seal api iops i k n aads bs = do {
     i1 \<leftarrow> (case init iops i (Some k) (Some n) True [] of (ok, i') \<Rightarrow> if ok then Some i' else None);
     (i2, outs) \<leftarrow> inner_stream iops i1 aads bs;
     t \<leftarrow> inner_tag api iops i2;
     Some (concat outs, t) }"

text \<open>The same record through G301, call by call.\<close>

definition g301_tag :: "ossl_param_api \<Rightarrow> ('a, 'i, 'h) G301_CIPHER_CTX \<Rightarrow> bytes option" where
  "g301_tag api c =
     (case g301_cipher_get_ctx_params api (Some c) (Some [tag_request api]) of
        (True, _, Some (p # _)) \<Rightarrow> data p | _ \<Rightarrow> None)"

definition g301_seal ::
  "ossl_param_api \<Rightarrow> crypto_env \<Rightarrow> ('a, 'i, 'h) G301_CIPHER_CTX \<Rightarrow> bytes \<Rightarrow> bytes
   \<Rightarrow> bytes list \<Rightarrow> bytes list \<Rightarrow> (bytes \<times> bytes) option" where
  "g301_seal api env c k n aads bs = do {
     c1 \<leftarrow> (case g301_cipher_encrypt_init api env (Some c) (Some k) 32 (Some n) 12 None of
              (ok, vc) \<Rightarrow> if ok then vc else None);
     (c2, outs) \<leftarrow> g301_stream env c1 aads bs;
     t \<leftarrow> g301_tag api c2;
     Some (concat outs, t) }"

definition crypto_ready :: "crypto_env \<Rightarrow> bool" where
  "crypto_ready env \<longleftrightarrow> record_key_write_lock env \<and> install_key_write_lock env
     \<and> (\<forall>v. CRYPTO_atomic_add env v 1 = Some (v + 1))"

definition budget_left :: "('a, 'i, 'h) G301_CIPHER_CTX \<Rightarrow> bytes \<Rightarrow> bool" where
  "budget_left c k \<longleftrightarrow>
     (usage_key_valid c \<and> usage_key c = k
      \<longrightarrow> \<not> usage_exhausted c \<and> sint (encrypted_records c) < sint (record_limit c))"

lemma plain_init_accepted:
  "init_accepts api c (Some k) 32 (Some n) 12 None e" "\<not> init_has_tag api None"
  "filtered_init_params api (locate_opt api None x) (locate_opt api None y) = []"
  by (simp_all add: init_accepts_def init_lengths_ok_def init_params_ok_def init_state_ok_def
      init_has_tag_def g301_validate_init_params_def locate_opt_def length_defs
      filtered_init_params_def)

lemma commit_result:
  assumes "key_wf c" "32 \<le> length kb" "crypto_ready env"
  shows "fst (g301_init_commit env c (Some kb) (Some n) fp t e)
       = fst (init (ops c) (inner c) (Some kb) (Some n) e fp)"
proof (cases "fst (init (ops c) (inner c) (Some kb) (Some n) e fp)")
  case True
  then have del: "commit_delegated env c (Some kb) (Some n) fp e"
    using assms(3) by (simp add: commit_delegated_def crypto_ready_def)
  have "current_key_valid (commit_ctx env c (Some kb) (Some n) fp e)"
    by (rule key_wf_commit_ctx(2) [OF assms(1) del]) (use assms(2) in simp_all)
  then show ?thesis
    using True assms(3) unfolding commit_delegates [OF del]
    by (cases e) (simp_all add: begin_result begin_possible_def crypto_ready_def)
next
  case False
  then have "\<not> commit_delegated env c (Some kb) (Some n) fp e" by (simp add: commit_delegated_def)
  then show ?thesis using False commit_refused(1) by blast
qed

text \<open>With budget left a reservation succeeds.\<close>

lemma reserve_possible:
  assumes "usage_wf c" "usage_key_valid c" "\<not> usage_exhausted c"
    and "sint (encrypted_records c) < sint (record_limit c)" "crypto_ready env"
  shows "fst (g301_reserve_encryption_record env c)"
proof -
  have "sint (encrypted_records c + 1) = sint (encrypted_records c) + 1"
    using assms(1,4) by (intro sint_cint_Suc) (simp add: usage_wf_def)
  then show ?thesis
    using assms by (simp add: g301_reserve_encryption_record_def Let_def crypto_ready_def)
qed

lemma begin_reserve_ok:
  assumes "good c" "length k = 32" "crypto_ready env" "budget_left c k"
    and "g301_init api env (Some c) (Some k) 32 (Some n) 12 None True = (True, Some c')"
  shows "fst (g301_reserve_encryption_record env c')"
proof -
  have u: "usage_key_valid c'" "\<not> usage_exhausted c'"
    "encrypted_records c' = (if usage_key_valid c \<and> usage_key c = k then encrypted_records c else 0)"
    using init_install [of c "Some k" 32 api env n 12 None c'] assms(1,2,4,5)
    by (auto simp: g301_cipher_encrypt_init_def budget_left_def split: if_splits)
  have l: "record_limit c' = record_limit c" using init_fixed [OF assms(5)] by simp
  have "usage_wf c'" using g301_init_preserves(2) [OF _ _ assms(5)] assms(1,2) by simp
  moreover have "sint (encrypted_records c') < sint (record_limit c')"
    using u(3) l assms(1,4) by (auto simp: budget_left_def usage_wf_def)
  ultimately show ?thesis using reserve_possible u(1,2) assms(3) by blast
qed

text \<open>Initialising for a record, in either direction, opens a streaming record.\<close>

lemma plain_init:
  assumes "good c" "length k = 32" "crypto_ready env" "e \<Longrightarrow> budget_left c k"
  shows "\<exists>r c'. g301_init api env (Some c) (Some k) 32 (Some n) 12 None e = (r, Some c')
    \<and> r = fst (init (ops c) (inner c) (Some k) (Some n) e [])
    \<and> (r \<longrightarrow> inner c' = snd (init (ops c) (inner c) (Some k) (Some n) e []) \<and> ops c' = ops c
         \<and> encrypting c' = e \<and> phase c' = G301_PHASE_MANIFEST_PENDING \<and> streaming env c')"
proof -
  have wf: "key_wf c" "usage_wf c" using assms(1) by (simp_all add: ctx_wf_def)
  obtain r c' where i: "g301_init api env (Some c) (Some k) 32 (Some n) 12 None e = (r, Some c')"
    using g301_init_Some by blast
  let ?d = "init_entry_ctx c False True (direction_change c e)"
  let ?m = "g301_init_commit env ?d (Some k) (Some n) [] False e"
  have m: "accepted_commit api env c (Some k) (Some n) None e = ?m"
    by (simp add: accepted_commit_def plain_init_accepted)
  have r: "r = fst ?m" and c': "c' = snd ?m"
    using init_acceptedD [OF i plain_init_accepted(1)] m by simp_all
  have d: "key_wf ?d" by (rule init_entry_key_wf [OF wf(1)])
  have rr: "r = fst (init (ops c) (inner c) (Some k) (Some n) e [])"
    unfolding r using commit_result [OF d _ assms(3), of k n "[]" False e] assms(2) by simp
  show ?thesis
  proof (cases r)
    case False
    then show ?thesis using i rr by blast
  next
    case True
    note ok = commit_ok_iv [OF r [THEN iffD1, OF True]]
    have f: "inner c' = snd (init (ops c) (inner c) (Some k) (Some n) e [])" "ops c' = ops c"
      by (simp_all add: c')
    have "reserve_ok env c'"
      using begin_reserve_ok [OF assms(1-3)] assms(4) i True ok
      by (cases e) (simp_all add: reserve_ok_def c')
    then show ?thesis using i rr True ok f by (auto simp: c' streaming_def)
  qed
qed

lemma tag_equiv:
  assumes "params_documented api" "tag_readable c"
  shows "g301_tag api c = inner_tag api (ops c) (inner c)"
proof -
  have req: "tag_request api = \<lparr>key = OSSL_CIPHER_PARAM_AEAD_TAG, data_type = OSSL_PARAM_OCTET_STRING,
      data = Some (replicate 16 0), data_size = 16, return_size = OSSL_PARAM_UNMODIFIED\<rparr>"
    using params_documentedD(9) [OF assms(1)] by (simp add: tag_request_def G301_TAG_LENGTH_def)
  have con: "OSSL_PARAM_construct_octet_string api OSSL_CIPHER_PARAM_AEAD_TAG
      (Some (replicate 16 0)) 16 = tag_request api"
    by (simp add: tag_request_def G301_TAG_LENGTH_def)
  have "\<not> g301_has_forbidden_legacy_param (Some [tag_request api])"
    using handled_names_not_forbidden(4) by (simp add: g301_has_forbidden_Some req)
  moreover have "\<not> g301_get_ctx_params_have_duplicates (Some [tag_request api])"
    by (simp add: g301_get_ctx_params_have_duplicates_def g301_has_duplicate_Some)
  moreover have "set_each api (g301_ctx_param_rows api) [tag_request api] = (True, [tag_request api])"
    by (simp add: g301_ctx_param_rows_def set_if_requested_def params_documentedD(1) [OF assms(1)] req)
  moreover have "OSSL_PARAM_locate api [tag_request api] OSSL_CIPHER_PARAM_AEAD_TAG = Some 0"
    by (simp add: params_documentedD(1) [OF assms(1)] req)
  ultimately have eq: "g301_cipher_get_ctx_params api (Some c) (Some [tag_request api]) =
      (case g301_get_encryption_tag api c (tag_request api) of (got, c', p) \<Rightarrow> (got, Some c', Some [p]))"
    using assms(2) by (simp add: g301_cipher_get_ctx_params_def tag_readable_def split_beta)
  have tag: "data_type (tag_request api) = OSSL_PARAM_OCTET_STRING"
    "data (tag_request api) = Some (replicate 16 0)" "data_size (tag_request api) = 16"
    by (simp_all add: req)
  obtain ok i qs where g: "get_params (ops c) (inner c) [tag_request api] = (ok, i, qs)"
    by (cases "get_params (ops c) (inner c) [tag_request api]")
  show ?thesis
    unfolding g301_tag_def eq
    by (cases ok; cases qs)
       (auto simp: g301_get_encryption_tag_def inner_tag_def tag g con Let_def
         G301_TAG_LENGTH_def memcpy_def split: option.split)
qed

lemma seal_equiv:
  assumes "params_documented api" "good c" "length k = 32" "crypto_ready env" "budget_left c k"
    and "list_all chunk_ok as" "list_all chunk_ok bs"
  shows "g301_seal api env c k n as bs
       = direct_seal api (ops c) (inner c) k n (g301_manifest # as) bs"
proof -
  obtain r c1 where i: "g301_init api env (Some c) (Some k) 32 (Some n) 12 None True = (r, Some c1)"
    and r: "r = fst (init (ops c) (inner c) (Some k) (Some n) True [])"
    and ok: "r \<longrightarrow> inner c1 = snd (init (ops c) (inner c) (Some k) (Some n) True []) \<and> ops c1 = ops c
         \<and> encrypting c1 = True \<and> phase c1 = G301_PHASE_MANIFEST_PENDING \<and> streaming env c1"
    using plain_init [OF assms(2-4), of True api n] assms(5) by blast
  show ?thesis
  proof (cases r)
    case False
    then show ?thesis
      using r by (simp add: g301_seal_def direct_seal_def g301_cipher_encrypt_init_def i split_beta)
  next
    case True
    with ok have c1: "inner c1 = snd (init (ops c) (inner c) (Some k) (Some n) True [])"
      "ops c1 = ops c" "encrypting c1" "phase c1 = G301_PHASE_MANIFEST_PENDING" "streaming env c1"
      by simp_all
    have ns: "\<not> tag_stale c1" using c1(3) by (simp add: tag_stale_def)
    note s = stream_equiv [OF c1(5,4) ns assms(6,7), unfolded c1(2)]
    have seal: "g301_seal api env c k n as bs = do {
        (c2, outs) \<leftarrow> g301_stream env c1 as bs; t \<leftarrow> g301_tag api c2; Some (concat outs, t) }"
      using True by (simp add: g301_seal_def g301_cipher_encrypt_init_def i)
    have direct: "direct_seal api (ops c) (inner c) k n (g301_manifest # as) bs = do {
        (i2, outs) \<leftarrow> inner_stream (ops c) (inner c1) (g301_manifest # as) bs;
        t \<leftarrow> inner_tag api (ops c) i2; Some (concat outs, t) }"
      using True r c1(1) by (simp add: direct_seal_def split_beta)
    show ?thesis
    proof (cases "g301_stream env c1 as bs")
      case None
      then show ?thesis using s by (simp add: seal direct)
    next
      case (Some q)
      then obtain c2 outs where q: "g301_stream env c1 as bs = Some (c2, outs)" by (cases q) auto
      then have f: "inner_stream (ops c) (inner c1) (g301_manifest # as) bs = Some (inner c2, outs)"
        "tag_readable c2" "ops c2 = ops c"
        using s c1(3) by (simp_all add: tag_readable_def)
      show ?thesis
        using tag_equiv [OF assms(1) f(2)] q f(1,3) by (simp add: seal direct)
    qed
  qed
qed

section \<open>Opening\<close>

definition tag_param :: "ossl_param_api \<Rightarrow> bytes \<Rightarrow> ossl_param" where
  "tag_param api t = OSSL_PARAM_construct_octet_string api OSSL_CIPHER_PARAM_AEAD_TAG (Some t)
     G301_TAG_LENGTH"

definition direct_open ::
  "ossl_param_api \<Rightarrow> ('a, 'i) G301_INNER_OPS \<Rightarrow> 'i \<Rightarrow> bytes \<Rightarrow> bytes \<Rightarrow> bytes \<Rightarrow> bytes list \<Rightarrow> bytes list
   \<Rightarrow> bytes option" where
  "direct_open api iops i k n t aads bs = do {
     i1 \<leftarrow> (case init iops i (Some k) (Some n) False [] of (ok, i') \<Rightarrow> if ok then Some i' else None);
     i2 \<leftarrow> (case set_params iops i1 [tag_param api t] of (ok, i') \<Rightarrow> if ok then Some i' else None);
     (i3, outs) \<leftarrow> inner_stream iops i2 aads bs;
     Some (concat outs) }"

definition g301_open ::
  "ossl_param_api \<Rightarrow> crypto_env \<Rightarrow> ('a, 'i, 'h) G301_CIPHER_CTX \<Rightarrow> bytes \<Rightarrow> bytes \<Rightarrow> bytes
   \<Rightarrow> bytes list \<Rightarrow> bytes list \<Rightarrow> bytes option" where
  "g301_open api env c k n t aads bs = do {
     c1 \<leftarrow> (case g301_cipher_decrypt_init api env (Some c) (Some k) 32 (Some n) 12 None of
              (ok, vc) \<Rightarrow> if ok then vc else None);
     c2 \<leftarrow> (case g301_cipher_set_ctx_params api (Some c1) (Some [tag_param api t]) of
              (ok, vc) \<Rightarrow> if ok then vc else None);
     (c3, outs) \<leftarrow> g301_stream env c2 aads bs;
     Some (concat outs) }"

lemma set_tag_equiv:
  assumes "params_documented api" "\<not> encrypting c" "\<not> record_closed c"
  shows "(case g301_cipher_set_ctx_params api (Some c) (Some [tag_param api t]) of
            (ok, vc) \<Rightarrow> if ok then vc else None)
       = (case set_params (ops c) (inner c) [tag_param api t] of
            (ok, i) \<Rightarrow> if ok then Some (c\<lparr>inner := i, decrypt_tag_current := True\<rparr>) else None)"
proof -
  let ?p = "tag_param api t"
  have p: "?p = \<lparr>key = OSSL_CIPHER_PARAM_AEAD_TAG, data_type = OSSL_PARAM_OCTET_STRING,
      data = Some t, data_size = 16, return_size = OSSL_PARAM_UNMODIFIED\<rparr>"
    using params_documentedD(9) [OF assms(1)] by (simp add: tag_param_def G301_TAG_LENGTH_def)
  have loc: "OSSL_PARAM_locate_const api [?p] k = (if k = OSSL_CIPHER_PARAM_AEAD_TAG then Some ?p else None)"
    for k
    by (auto simp: params_documentedD(2) [OF assms(1)] p)
  have acc: "set_accepts api c [?p]"
    using assms(2,3) handled_names_not_forbidden(4)
    by (simp add: set_accepts_def params_documentedD(2) [OF assms(1)] length_param_bad_def g301_has_forbidden_Some
        g301_init_params_have_duplicates_def g301_has_duplicate_Some tag_param_exact_def p
        G301_TAG_LENGTH_def)
  have ht: "has_tag api [?p]" by (simp add: has_tag_def loc)
  have tu: "tag_update api c [?p] = set_params (ops c) (inner c) [?p]"
    unfolding tag_update_def loc by (simp add: filtered_init_params_def) (simp add: p tag_param_def [symmetric])
  show ?thesis
    unfolding set_ctx_unfold tu using acc ht by (simp add: split_beta)
qed

lemma open_equiv:
  assumes "params_documented api" "good c" "length k = 32" "crypto_ready env"
    and "list_all chunk_ok as" "list_all chunk_ok bs"
  shows "g301_open api env c k n t as bs
       = direct_open api (ops c) (inner c) k n t (g301_manifest # as) bs"
proof -
  obtain r c1 where i: "g301_init api env (Some c) (Some k) 32 (Some n) 12 None False = (r, Some c1)"
    and r: "r = fst (init (ops c) (inner c) (Some k) (Some n) False [])"
    and ok: "r \<longrightarrow> inner c1 = snd (init (ops c) (inner c) (Some k) (Some n) False []) \<and> ops c1 = ops c
         \<and> encrypting c1 = False \<and> phase c1 = G301_PHASE_MANIFEST_PENDING \<and> streaming env c1"
    using plain_init [OF assms(2-4), of False api n] by blast
  show ?thesis
  proof (cases r)
    case False
    then show ?thesis
      using r by (simp add: g301_open_def direct_open_def g301_cipher_decrypt_init_def i split_beta)
  next
    case True
    with ok have c1: "inner c1 = snd (init (ops c) (inner c) (Some k) (Some n) False [])"
      "ops c1 = ops c" "\<not> encrypting c1" "phase c1 = G301_PHASE_MANIFEST_PENDING" "streaming env c1"
      by simp_all
    note st = set_tag_equiv [OF assms(1) c1(3) streaming_open [OF c1(5)], of t]
    let ?s = "set_params (ops c) (inner c1) [tag_param api t]"
    let ?c2 = "c1\<lparr>inner := snd ?s, decrypt_tag_current := True\<rparr>"
    have c2: "streaming env ?c2" "phase ?c2 = G301_PHASE_MANIFEST_PENDING" "\<not> tag_stale ?c2"
      using c1(3-5) by (simp_all add: streaming_def reserve_ok_def tag_stale_def)
    note s = stream_equiv [OF c2 assms(5,6)]
    have opn: "g301_open api env c k n t as bs =
        (if fst ?s then map_option (\<lambda>(c3, outs). concat outs) (g301_stream env ?c2 as bs) else None)"
      using True st c1(2)
      by (cases "g301_stream env ?c2 as bs")
         (auto simp: g301_open_def g301_cipher_decrypt_init_def i split_beta)
    have direct: "direct_open api (ops c) (inner c) k n t (g301_manifest # as) bs =
        (if fst ?s then map_option (\<lambda>(i3, outs). concat outs)
           (inner_stream (ops c) (snd ?s) (g301_manifest # as) bs) else None)"
      using True r c1(1)
      by (cases "inner_stream (ops c) (snd ?s) (g301_manifest # as) bs")
         (auto simp: direct_open_def split_beta)
    show ?thesis
      unfolding opn direct using s c1(2)
      by (cases "g301_stream env ?c2 as bs") auto
  qed
qed

section \<open>The construction\<close>

text \<open>
  C1: Encrypt(K, N, A, P) = AES-256-GCM.Encrypt(K, N, M || A, P). Sealing a record through
  G301 (initialise, AAD chunks, payload chunks, final, get the tag) gives the result that
  the inner cipher alone gives when the manifest is sent as an additional first chunk of
  associated data: the same ciphertext and tag, or failure in the same cases. So the
  manifest is injected exactly once, before everything else and also when a record has no
  data at all, and nothing the caller sends is dropped, reordered or altered.
\<close>

theorem seal_is_inner_with_manifest:
  assumes "params_documented api" "good c" "length k = 32" "crypto_ready env" "budget_left c k"
    and "list_all chunk_ok as" "list_all chunk_ok bs"
  shows "g301_seal api env c k n as bs
       = direct_seal api (ops c) (inner c) k n (g301_manifest # as) bs"
  by (rule seal_equiv [OF assms])

lemma ready_env_crypto [simp]: "crypto_ready ready_env"
  by (simp add: crypto_ready_def)

theorem seal_is_inner_with_manifest_witness:
  "g301_seal libcrypto_params ready_env sample_ctx key_a iv_a [aad] [payload, payload] \<noteq> None
   \<and> g301_seal libcrypto_params ready_env sample_ctx key_a iv_a [aad] [payload, payload]
     = direct_seal libcrypto_params sample_ops (inner sample_ctx) key_a iv_a [g301_manifest, aad] [payload, payload]"
proof -
  have h: "length key_a = 32" "list_all chunk_ok [aad]" "list_all chunk_ok [payload, payload]"
    by (simp_all add: key_a_def aad_def payload_def chunk_ok_def)
  have b: "budget_left sample_ctx key_a" by (simp add: budget_left_def sample_ctx_eq)
  have "g301_seal libcrypto_params ready_env sample_ctx key_a iv_a [aad] [payload, payload] \<noteq> None"
    by code_simp
  then show ?thesis
    using seal_is_inner_with_manifest [OF params_documented_libcrypto sample_good h(1)
        ready_env_crypto b h(2,3), of iv_a]
    by (simp add: sample_ctx_eq)
qed

text \<open>
  C5: Decrypt(K, N, A, C) = AES-256-GCM.Decrypt(K, N, M || A, C), in the same sense: opening
  a record through G301 (initialise, set the tag, AAD chunks, ciphertext chunks, final)
  accepts and returns exactly what the inner cipher accepts and returns for the manifest
  followed by the caller's associated data.
\<close>

theorem open_is_inner_with_manifest:
  assumes "params_documented api" "good c" "length k = 32" "crypto_ready env"
    and "list_all chunk_ok as" "list_all chunk_ok bs"
  shows "g301_open api env c k n t as bs
       = direct_open api (ops c) (inner c) k n t (g301_manifest # as) bs"
  by (rule open_equiv [OF assms])

theorem open_is_inner_with_manifest_witness:
  "g301_open libcrypto_params ready_env sample_ctx key_a iv_a
      (snd (the (direct_seal libcrypto_params sample_ops (inner sample_ctx) key_a iv_a
         [g301_manifest, aad] [payload]))) [aad] [[6, 9, 8, 11]] = Some payload"
proof -
  have h: "length key_a = 32" "list_all chunk_ok [aad]" "list_all chunk_ok [[6, 9, 8, 11]]"
    by (simp_all add: key_a_def aad_def chunk_ok_def)
  have "direct_open libcrypto_params sample_ops (inner sample_ctx) key_a iv_a
      (snd (the (direct_seal libcrypto_params sample_ops (inner sample_ctx) key_a iv_a
         [g301_manifest, aad] [payload]))) [g301_manifest, aad] [[6, 9, 8, 11]] = Some payload"
    by code_simp
  then show ?thesis
    using open_is_inner_with_manifest [OF params_documented_libcrypto sample_good h(1)
        ready_env_crypto h(2,3)]
    by (simp add: sample_ctx_eq)
qed

end
