(* ===== verification/Inner_Evp.thy ===== *)
theory Inner_Evp
  imports Record_Equivalence
begin

text \<open>
  g301_inner_evp.c: the inner cipher behind the table of operations, on top of the EVP
  functions of libcrypto as parameters. The interface \<open>inner_owner\<close> says what a cipher
  context relies on when it makes and frees its inner cipher.
\<close>

section \<open>The EVP interface\<close>

text \<open>
  What g301_inner_evp.c calls of libcrypto: \<open>'lib\<close> is a library context, \<open>'ciph\<close> a fetched
  cipher, \<open>'ectx\<close> an EVP cipher context. The functions return an \<open>int\<close> that is positive on
  success; a failing call may change the context as well. Whether an allocation succeeds is
  part of the record, too.
\<close>

record ('lib, 'ciph, 'ectx) evp_api =
  EVP_zalloc_ok :: bool
  EVP_CIPHER_fetch :: "'lib \<Rightarrow> string \<Rightarrow> string \<Rightarrow> 'ciph option"
  EVP_CIPHER_CTX_new :: "'ectx option"
  EVP_CipherInit_ex2 :: "'ectx \<Rightarrow> 'ciph option \<Rightarrow> bytes option \<Rightarrow> bytes option \<Rightarrow> bool
    \<Rightarrow> ossl_params \<Rightarrow> cint \<times> 'ectx"
  EVP_CipherUpdate :: "'ectx \<Rightarrow> bytes option \<Rightarrow> cint \<Rightarrow> bytes option \<Rightarrow> cint
    \<Rightarrow> cint \<times> 'ectx \<times> bytes option \<times> cint"
  EVP_CipherFinal_ex :: "'ectx \<Rightarrow> bytes option \<Rightarrow> cint \<Rightarrow> cint \<times> 'ectx \<times> bytes option \<times> cint"
  EVP_CIPHER_CTX_get_params :: "'ectx \<Rightarrow> ossl_params \<Rightarrow> cint \<times> 'ectx \<times> ossl_params"
  EVP_CIPHER_CTX_set_params :: "'ectx \<Rightarrow> ossl_params \<Rightarrow> cint \<times> 'ectx"

section \<open>The inner context\<close>

record ('ciph, 'ectx) G301_EVP_INNER_CTX =
  cipher :: 'ciph
  cipher_ctx :: 'ectx
  initialized :: bool

definition g301_evp_newctx ::
  "('lib, 'ciph, 'ectx) evp_api \<Rightarrow> 'lib \<Rightarrow> ledger
   \<Rightarrow> ('ciph, 'ectx) G301_EVP_INNER_CTX option \<times> ledger" where
  "g301_evp_newctx evp libctx l =
     (if \<not> EVP_zalloc_ok evp then (None, l)
      else
        let l = acquire (Some ()) R_inner_ctx l;
            ciph = EVP_CIPHER_fetch evp libctx ''AES-256-GCM'' ''provider=default'';
            l = acquire ciph R_evp_cipher l;
            ectx = EVP_CIPHER_CTX_new evp;
            l = acquire ectx R_evp_cipher_ctx l
        in case (ciph, ectx) of
             (Some c, Some e) \<Rightarrow> (Some \<lparr>cipher = c, cipher_ctx = e, initialized = False\<rparr>, l)
           | _ \<Rightarrow>
               (let l = release ectx R_evp_cipher_ctx l;
                    l = release ciph R_evp_cipher l;
                    l = release (Some ()) R_inner_ctx l
                in (None, l)))"

definition g301_evp_freectx ::
  "('ciph, 'ectx) G301_EVP_INNER_CTX option \<Rightarrow> ledger \<Rightarrow> ledger" where
  "g301_evp_freectx vinner l =
     (case vinner of None \<Rightarrow> l
      | Some inn \<Rightarrow>
          let l = release (Some (cipher_ctx inn)) R_evp_cipher_ctx l;
              l = release (Some (cipher inn)) R_evp_cipher l;
              l = release (Some ()) R_inner_ctx l
          in l)"

definition g301_evp_init ::
  "('lib, 'ciph, 'ectx) evp_api \<Rightarrow> ('ciph, 'ectx) G301_EVP_INNER_CTX \<Rightarrow> bytes option \<Rightarrow> bytes option
   \<Rightarrow> bool \<Rightarrow> ossl_params \<Rightarrow> bool \<times> ('ciph, 'ectx) G301_EVP_INNER_CTX" where
  "g301_evp_init evp inn k iv encrypt params =
     (let ciph = (if initialized inn then None else Some (cipher inn));
          (ok, e) = EVP_CipherInit_ex2 evp (cipher_ctx inn) ciph k iv encrypt params;
          inn = inn\<lparr>cipher_ctx := e\<rparr>;
          inn = (if sint ok > 0 then inn\<lparr>initialized := True\<rparr> else inn)
      in (sint ok > 0, inn))"

definition g301_evp_update ::
  "('lib, 'ciph, 'ectx) evp_api \<Rightarrow> ('ciph, 'ectx) G301_EVP_INNER_CTX \<Rightarrow> bytes option \<Rightarrow> cint
   \<Rightarrow> bytes option \<Rightarrow> cint \<Rightarrow> bool \<times> ('ciph, 'ectx) G301_EVP_INNER_CTX \<times> bytes option \<times> cint" where
  "g301_evp_update evp inn out outl in_buf inl =
     (let (ok, e, out, outl) = EVP_CipherUpdate evp (cipher_ctx inn) out outl in_buf inl
      in (sint ok > 0, inn\<lparr>cipher_ctx := e\<rparr>, out, outl))"

definition g301_evp_final ::
  "('lib, 'ciph, 'ectx) evp_api \<Rightarrow> ('ciph, 'ectx) G301_EVP_INNER_CTX \<Rightarrow> bytes option \<Rightarrow> cint
   \<Rightarrow> bool \<times> ('ciph, 'ectx) G301_EVP_INNER_CTX \<times> bytes option \<times> cint" where
  "g301_evp_final evp inn out outl =
     (let (ok, e, out, outl) = EVP_CipherFinal_ex evp (cipher_ctx inn) out outl
      in (sint ok > 0, inn\<lparr>cipher_ctx := e\<rparr>, out, outl))"

definition g301_evp_get_params ::
  "('lib, 'ciph, 'ectx) evp_api \<Rightarrow> ('ciph, 'ectx) G301_EVP_INNER_CTX \<Rightarrow> ossl_params
   \<Rightarrow> bool \<times> ('ciph, 'ectx) G301_EVP_INNER_CTX \<times> ossl_params" where
  "g301_evp_get_params evp inn params =
     (let (ok, e, params) = EVP_CIPHER_CTX_get_params evp (cipher_ctx inn) params
      in (sint ok > 0, inn\<lparr>cipher_ctx := e\<rparr>, params))"

definition g301_evp_set_params ::
  "('lib, 'ciph, 'ectx) evp_api \<Rightarrow> ('ciph, 'ectx) G301_EVP_INNER_CTX \<Rightarrow> ossl_params
   \<Rightarrow> bool \<times> ('ciph, 'ectx) G301_EVP_INNER_CTX" where
  "g301_evp_set_params evp inn params =
     (let (ok, e) = EVP_CIPHER_CTX_set_params evp (cipher_ctx inn) params
      in (sint ok > 0, inn\<lparr>cipher_ctx := e\<rparr>))"

definition g301_evp_inner_ops ::
  "('lib, 'ciph, 'ectx) evp_api \<Rightarrow> ('lib, ('ciph, 'ectx) G301_EVP_INNER_CTX) G301_INNER_OPS" where
  "g301_evp_inner_ops evp =
     \<lparr>newctx = g301_evp_newctx evp, freectx = g301_evp_freectx, init = g301_evp_init evp,
      update = g301_evp_update evp, final = g301_evp_final evp,
      get_params = g301_evp_get_params evp, set_params = g301_evp_set_params evp\<rparr>"

section \<open>Ownership\<close>

text \<open>
  What a cipher context needs of the constructor and destructor of its inner cipher: a
  failed construction leaves nothing behind, a successful one leaves a fixed set of
  resources, and destruction gives exactly these back.
\<close>

locale inner_owner =
  fixes new :: "'a \<Rightarrow> ledger \<Rightarrow> 'i option \<times> ledger"
    and free :: "'i option \<Rightarrow> ledger \<Rightarrow> ledger"
    and owned :: ledger
  assumes new_fail: "new a l = (None, l') \<Longrightarrow> l' = l"
    and new_ok: "new a l = (Some i, l') \<Longrightarrow> l' = l + owned"
    and free_some: "free (Some i) l = l - owned"
    and free_none: "free None l = l"
begin

lemma free_new: "new a l = (oi, l') \<Longrightarrow> free oi l' = l"
  by (cases oi) (auto simp: free_none free_some dest: new_fail new_ok)

lemma cipher_newctx_fail:
  assumes "inner_ops p = Some iops" "newctx iops = new" "freectx iops = free"
    and "g301_cipher_newctx aenv (Some p) l = (None, l')"
  shows "l' = l"
proof -
  let ?l1 = "if CRYPTO_THREAD_lock_new_ok aenv then add_mset R_usage_lock (add_mset R_outer_ctx l)
             else add_mset R_outer_ctx l"
  obtain oi l2 where n: "new (inner_arg p) ?l1 = (oi, l2)" by (cases "new (inner_arg p) ?l1")
  note undo = free_new [OF n]
  show ?thesis
    using assms n undo
    by (cases "CRYPTO_THREAD_lock_new_ok aenv"; cases oi)
       (auto simp: g301_cipher_newctx_def Let_def split: if_splits)
qed

lemma cipher_newctx_ok:
  assumes "inner_ops p = Some iops" "newctx iops = new" "freectx iops = free"
    and "g301_cipher_newctx aenv (Some p) l = (Some c, l')"
  shows "l' = l + owned + {# R_usage_lock, R_outer_ctx #}" "ops c = iops"
proof -
  obtain oi l2 where n: "new (inner_arg p) (add_mset R_usage_lock (add_mset R_outer_ctx l)) = (oi, l2)"
    by (cases "new (inner_arg p) (add_mset R_usage_lock (add_mset R_outer_ctx l))")
  have "oi \<noteq> None \<and> l' = l2 \<and> ops c = iops"
    using assms n
    by (cases "CRYPTO_THREAD_lock_new_ok aenv"; cases oi)
       (auto simp: g301_cipher_newctx_def Let_def split_beta split: if_splits option.splits)
  then have "l' = l + owned + {# R_usage_lock, R_outer_ctx #} \<and> ops c = iops"
    using n new_ok by fastforce
  then show "l' = l + owned + {# R_usage_lock, R_outer_ctx #}" "ops c = iops" by simp_all
qed

lemma cipher_freectx:
  assumes "freectx (ops c) = free"
  shows "g301_cipher_freectx (Some c) (l + owned + {# R_usage_lock, R_outer_ctx #}) = l"
  using assms by (simp add: g301_cipher_freectx_def free_some)

end

lemma evp_newctx_cases:
  "g301_evp_newctx evp libctx l =
     (case (EVP_zalloc_ok evp, EVP_CIPHER_fetch evp libctx ''AES-256-GCM'' ''provider=default'',
            EVP_CIPHER_CTX_new evp) of
        (True, Some c, Some e) \<Rightarrow>
          (Some \<lparr>cipher = c, cipher_ctx = e, initialized = False\<rparr>,
           l + {# R_inner_ctx, R_evp_cipher, R_evp_cipher_ctx #})
      | _ \<Rightarrow> (None, l))"
  by (cases "EVP_CIPHER_fetch evp libctx ''AES-256-GCM'' ''provider=default''";
      cases "EVP_CIPHER_CTX_new evp"; cases "EVP_zalloc_ok evp")
     (simp_all add: g301_evp_newctx_def Let_def add_mset_commute)

interpretation evp_owner: inner_owner "g301_evp_newctx evp" g301_evp_freectx
    "{# R_inner_ctx, R_evp_cipher, R_evp_cipher_ctx #}"
  by unfold_locales
     (auto simp: evp_newctx_cases g301_evp_freectx_def Let_def split: option.splits bool.splits)

text \<open>
  C28: no leak and no double free. A cipher context over the EVP inner cipher that cannot be
  made leaves every resource count as it was, whichever allocation failed; one that is made
  gives back exactly what it took when it is freed after any run of API calls.
\<close>

theorem context_lifecycle_balanced:
  assumes "inner_ops p = Some (g301_evp_inner_ops evp)"
    and "g301_cipher_newctx aenv (Some p) l = (vc, l')"
  shows "case vc of None \<Rightarrow> l' = l
    | Some c \<Rightarrow> g301_cipher_freectx (Some (run_steps (cipher_step api) c es)) l' = l"
proof (cases vc)
  case None
  then show ?thesis
    using evp_owner.cipher_newctx_fail [OF assms(1)] assms(2)
    by (simp add: g301_evp_inner_ops_def)
next
  case (Some c)
  have n: "g301_cipher_newctx aenv (Some p) l = (Some c, l')" using assms(2) Some by simp
  have o: "newctx (g301_evp_inner_ops evp) = g301_evp_newctx evp"
    "freectx (g301_evp_inner_ops evp) = g301_evp_freectx"
    by (simp_all add: g301_evp_inner_ops_def)
  note ok = evp_owner.cipher_newctx_ok [OF assms(1) o n]
  have "freectx (ops (run_steps (cipher_step api) c es)) = g301_evp_freectx"
    using ok(2) o(2) by simp
  then show ?thesis
    using evp_owner.cipher_freectx [of "run_steps (cipher_step api) c es" l] ok(1) Some by simp
qed

section \<open>Binding the cipher\<close>

text \<open>
  An EVP interface that keeps a log of the cipher argument and the result of every
  initialisation, in front of a given one.
\<close>

definition logged_init ::
  "('lib, 'ciph, 'ectx) evp_api \<Rightarrow> 'ectx \<times> ('ciph option \<times> cint) list \<Rightarrow> 'ciph option
   \<Rightarrow> bytes option \<Rightarrow> bytes option \<Rightarrow> bool \<Rightarrow> ossl_params
   \<Rightarrow> cint \<times> ('ectx \<times> ('ciph option \<times> cint) list)" where
  "logged_init evp el c k iv e ps =
     (case EVP_CipherInit_ex2 evp (fst el) c k iv e ps of
        (ok, ec) \<Rightarrow> (ok, (ec, snd el @ [(c, ok)])))"

definition logging_evp ::
  "('lib, 'ciph, 'ectx) evp_api \<Rightarrow> ('lib, 'ciph, 'ectx \<times> ('ciph option \<times> cint) list) evp_api" where
  "logging_evp evp =
     \<lparr>EVP_zalloc_ok = EVP_zalloc_ok evp, EVP_CIPHER_fetch = EVP_CIPHER_fetch evp,
      EVP_CIPHER_CTX_new = map_option (\<lambda>e. (e, [])) (EVP_CIPHER_CTX_new evp),
      EVP_CipherInit_ex2 = logged_init evp,
      EVP_CipherUpdate = (\<lambda>el out n inb inl. case EVP_CipherUpdate evp (fst el) out n inb inl of
         (ok, ec, out, n) \<Rightarrow> (ok, (ec, snd el), out, n)),
      EVP_CipherFinal_ex = (\<lambda>el out n. case EVP_CipherFinal_ex evp (fst el) out n of
         (ok, ec, out, n) \<Rightarrow> (ok, (ec, snd el), out, n)),
      EVP_CIPHER_CTX_get_params = (\<lambda>el ps. case EVP_CIPHER_CTX_get_params evp (fst el) ps of
         (ok, ec, ps) \<Rightarrow> (ok, (ec, snd el), ps)),
      EVP_CIPHER_CTX_set_params = (\<lambda>el ps. case EVP_CIPHER_CTX_set_params evp (fst el) ps of
         (ok, ec) \<Rightarrow> (ok, (ec, snd el)))\<rparr>"

datatype inner_call =
    Inner_init "bytes option" "bytes option" bool ossl_params
  | Inner_update "bytes option" cint "bytes option" cint
  | Inner_final "bytes option" cint
  | Inner_get ossl_params
  | Inner_set ossl_params

fun inner_step :: "('a, 'i) G301_INNER_OPS \<Rightarrow> 'i \<Rightarrow> inner_call \<Rightarrow> 'i" where
  "inner_step iops i (Inner_init k iv e ps) = snd (init iops i k iv e ps)"
| "inner_step iops i (Inner_update out n inb inl) = fst (snd (update iops i out n inb inl))"
| "inner_step iops i (Inner_final out n) = fst (snd (final iops i out n))"
| "inner_step iops i (Inner_get ps) = fst (snd (get_params iops i ps))"
| "inner_step iops i (Inner_set ps) = snd (set_params iops i ps)"

definition bound_once ::
  "'ciph \<Rightarrow> bool \<Rightarrow> ('ciph option \<times> cint) list \<Rightarrow> bool" where
  "bound_once c bnd log \<longleftrightarrow>
     (bnd \<longleftrightarrow> (\<exists>x \<in> set log. sint (snd x) > 0))
   \<and> (\<forall>j < length log. fst (log ! j) =
        (if \<exists>x \<in> set (take j log). sint (snd x) > 0 then None else Some c))"

lemma bound_once_snoc:
  assumes "bound_once c d log"
  shows "bound_once c (d \<or> sint r > 0) (log @ [(if d then None else Some c, r)])"
  using assms by (auto simp: bound_once_def nth_append less_Suc_eq)

lemma inner_step_bound_once:
  assumes "bound_once (cipher i) (initialized i) (snd (cipher_ctx i))"
    and i'_def: "i' = inner_step (g301_evp_inner_ops (logging_evp evp)) i call"
  shows "bound_once (cipher i') (initialized i') (snd (cipher_ctx i'))" "cipher i' = cipher i"
proof -
  have "bound_once (cipher i') (initialized i') (snd (cipher_ctx i')) \<and> cipher i' = cipher i"
  proof (cases call)
    case (Inner_init k iv e ps)
    obtain ok ec where "EVP_CipherInit_ex2 evp (fst (cipher_ctx i))
        (if initialized i then None else Some (cipher i)) k iv e ps = (ok, ec)"
      by fastforce
    then show ?thesis
      using bound_once_snoc [OF assms(1), of ok]
      by (cases "initialized i"; cases "0 < sint ok")
         (simp_all add: i'_def Inner_init g301_evp_inner_ops_def g301_evp_init_def logging_evp_def
          logged_init_def Let_def)
  qed (use assms(1) in \<open>simp_all add: i'_def g301_evp_inner_ops_def logging_evp_def split_beta
         Let_def g301_evp_update_def g301_evp_final_def g301_evp_get_params_def
         g301_evp_set_params_def\<close>)
  then show "bound_once (cipher i') (initialized i') (snd (cipher_ctx i'))" "cipher i' = cipher i"
    by blast+
qed

interpretation binding: step_invariant "inner_step (g301_evp_inner_ops (logging_evp evp))"
    "\<lambda>_. True" "\<lambda>i. bound_once (cipher i) (initialized i) (snd (cipher_ctx i)) \<and> cipher i = c"
  by unfold_locales (use inner_step_bound_once in blast)

text \<open>
  C29: the inner cipher is AES-256-GCM of the default provider, fetched from the library
  context given, and it is bound to the EVP context until the first initialisation that
  succeeds and never again: over any sequence of inner operations on a new inner context,
  the cipher argument of an initialisation is that cipher if no earlier one succeeded, and
  NULL otherwise.
\<close>

theorem inner_cipher_bound_once:
  assumes "g301_evp_newctx (logging_evp evp) libctx l = (Some i, l')"
  shows "EVP_CIPHER_fetch evp libctx ''AES-256-GCM'' ''provider=default'' = Some (cipher i)
    \<and> (let log = snd (cipher_ctx (run_steps (inner_step (g301_evp_inner_ops (logging_evp evp))) i calls)) in
       \<forall>j < length log. fst (log ! j) =
         (if \<exists>x \<in> set (take j log). sint (snd x) > 0 then None else Some (cipher i)))"
proof -
  have i: "EVP_CIPHER_fetch evp libctx ''AES-256-GCM'' ''provider=default'' = Some (cipher i)"
    "\<not> initialized i" "snd (cipher_ctx i) = []"
    using assms by (auto simp: evp_newctx_cases logging_evp_def split: option.splits bool.splits)
  have "bound_once (cipher i) (initialized i) (snd (cipher_ctx i)) \<and> cipher i = cipher i"
    using i(2,3) by (simp add: bound_once_def)
  from binding.run_inv [OF this, of calls evp] have
    "bound_once (cipher i) (initialized (run_steps (inner_step (g301_evp_inner_ops (logging_evp evp))) i calls))
       (snd (cipher_ctx (run_steps (inner_step (g301_evp_inner_ops (logging_evp evp))) i calls)))"
    by (auto simp: list_all_iff)
  then show ?thesis using i(1) by (simp add: bound_once_def Let_def)
qed

section \<open>Witnesses\<close>

text \<open>An EVP interface over the sample cipher; the library context is its fetch result.\<close>

definition sample_evp :: "(nat, nat, sample_cipher) evp_api" where
  "sample_evp =
     \<lparr>EVP_zalloc_ok = True, EVP_CIPHER_fetch = (\<lambda>lib _ _. Some lib),
      EVP_CIPHER_CTX_new = Some (inner sample_ctx),
      EVP_CipherInit_ex2 = (\<lambda>e c k iv en ps. case init sample_ops e k iv en ps of (ok, e) \<Rightarrow> (if ok then 1 else 0, e)),
      EVP_CipherUpdate = (\<lambda>e out n inb inl. case update sample_ops e out n inb inl of
         (ok, e, out, n) \<Rightarrow> (if ok then 1 else 0, e, out, n)),
      EVP_CipherFinal_ex = (\<lambda>e out n. case final sample_ops e out n of
         (ok, e, out, n) \<Rightarrow> (if ok then 1 else 0, e, out, n)),
      EVP_CIPHER_CTX_get_params = (\<lambda>e ps. case get_params sample_ops e ps of
         (ok, e, ps) \<Rightarrow> (if ok then 1 else 0, e, ps)),
      EVP_CIPHER_CTX_set_params = (\<lambda>e ps. case set_params sample_ops e ps of
         (ok, e) \<Rightarrow> (if ok then 1 else 0, e))\<rparr>"

definition sample_evp_provider :: "(nat, (nat, sample_cipher) G301_EVP_INNER_CTX, nat) G301_PROVIDER_CTX" where
  "sample_evp_provider =
    \<lparr>child_libctx = Some 5, inner_ops = Some (g301_evp_inner_ops sample_evp), inner_arg = 5,
     prov_handle = 0, prov_core_new_error = Some (\<lambda>_. 0), prov_core_set_error_debug = Some (\<lambda>h. h),
     prov_core_vset_error = Some (\<lambda>_ reason. reason)\<rparr>"

theorem context_lifecycle_balanced_witness:
  "\<exists>c. fst (g301_cipher_newctx ready_alloc (Some sample_evp_provider) {#}) = Some c
     \<and> g301_cipher_freectx (Some (run_steps (cipher_step libcrypto_params) c
          [begin_encrypt key_a, send_payload, finish_record]))
        (snd (g301_cipher_newctx ready_alloc (Some sample_evp_provider) {#})) = {#}"
proof -
  let ?n = "g301_cipher_newctx ready_alloc (Some sample_evp_provider) {#}"
  have p: "inner_ops sample_evp_provider = Some (g301_evp_inner_ops sample_evp)"
    by (simp add: sample_evp_provider_def)
  have "fst ?n \<noteq> None" by (simp add: g301_cipher_newctx_def ready_alloc_def sample_evp_provider_def
        g301_evp_inner_ops_def evp_newctx_cases sample_evp_def)
  then obtain c where f: "fst ?n = Some c" by blast
  then have c: "?n = (Some c, snd ?n)" by (simp add: prod_eq_iff)
  show ?thesis
    using context_lifecycle_balanced [OF p c, of libcrypto_params
        "[begin_encrypt key_a, send_payload, finish_record]"] f
    by simp
qed

theorem inner_cipher_bound_once_witness:
  "\<exists>i. fst (g301_evp_newctx (logging_evp sample_evp) 5 {#}) = Some i
     \<and> EVP_CIPHER_fetch sample_evp 5 ''AES-256-GCM'' ''provider=default'' = Some (cipher i)"
proof -
  let ?n = "g301_evp_newctx (logging_evp sample_evp) 5 {#}"
  have "fst ?n \<noteq> None" by (simp add: evp_newctx_cases logging_evp_def sample_evp_def)
  then obtain i where f: "fst ?n = Some i" by blast
  then have "?n = (Some i, snd ?n)" by (simp add: prod_eq_iff)
  then show ?thesis using inner_cipher_bound_once [of sample_evp 5 "{#}" i "snd ?n" "[]"] f
    by simp
qed

end
