(* ===== verification/Provider.thy ===== *)
theory Provider
  imports Inner_Evp
begin

text \<open>
  The module entry of g301_provider.c and the capability of g301_tls_capability.h: the scan of
  the core's dispatch table, initialisation with its failure paths, teardown, the provider's
  parameters, operations, reason strings and the TLS capability, and the table of functions a
  cipher offers (end of g301_cipher.c). The properties say when loading succeeds and what it
  leaves behind, that a whole provider lifetime restores the resource ledger, and that what is
  advertised agrees with what is implemented.
\<close>

section \<open>Static tables\<close>

definition g301_provider_param_types :: ossl_params where
  "g301_provider_param_types =
    [param_row ''name'' OSSL_PARAM_UTF8_PTR 0, param_row ''version'' OSSL_PARAM_UTF8_PTR 0,
     param_row ''buildinfo'' OSSL_PARAM_UTF8_PTR 0, param_row ''status'' OSSL_PARAM_INTEGER 4]"

definition g301_provider_gettable_params :: "'p option \<Rightarrow> ossl_params" where
  "g301_provider_gettable_params provctx = g301_provider_param_types"

text \<open>The functions a cipher offers, with the identifiers of core_dispatch.h.\<close>

datatype cipher_function =
    CIPHER_NEWCTX
  | CIPHER_ENCRYPT_INIT
  | CIPHER_DECRYPT_INIT
  | CIPHER_UPDATE
  | CIPHER_FINAL
  | CIPHER_FREECTX
  | CIPHER_GET_PARAMS
  | CIPHER_GET_CTX_PARAMS
  | CIPHER_SET_CTX_PARAMS
  | CIPHER_GETTABLE_PARAMS
  | CIPHER_GETTABLE_CTX_PARAMS
  | CIPHER_SETTABLE_CTX_PARAMS

definition g301_cipher_functions :: "(nat \<times> cipher_function) list" where
  "g301_cipher_functions =
    [(1, CIPHER_NEWCTX), (7, CIPHER_FREECTX), (9, CIPHER_GET_PARAMS),
     (2, CIPHER_ENCRYPT_INIT), (3, CIPHER_DECRYPT_INIT), (4, CIPHER_UPDATE), (5, CIPHER_FINAL),
     (12, CIPHER_GETTABLE_PARAMS), (10, CIPHER_GET_CTX_PARAMS), (11, CIPHER_SET_CTX_PARAMS),
     (13, CIPHER_GETTABLE_CTX_PARAMS), (14, CIPHER_SETTABLE_CTX_PARAMS)]"

record ossl_algorithm =
  algorithm_names :: string
  property_definition :: string
  implementation :: "(nat \<times> cipher_function) list"
  algorithm_description :: string

definition g301_ciphers :: "ossl_algorithm list" where
  "g301_ciphers =
    [\<lparr>algorithm_names = G301_WORKING_NAME, property_definition = G301_PROPERTY_DEFINITION,
      implementation = g301_cipher_functions,
      algorithm_description = ''Alpha/Beta fixed-manifest AES-256-GCM EVP decorator''\<rparr>]"

definition g301_reason_strings :: "(nat \<times> string) list" where
  "g301_reason_strings =
    [(G301_R_INVALID_PARAMETER, ''invalid parameter''),
     (G301_R_INVALID_STATE, ''invalid cipher state''),
     (G301_R_OUTPUT_BUFFER_TOO_SMALL, ''output buffer too small''),
     (G301_R_INTERNAL_ERROR, ''internal cipher contract violation''),
     (G301_R_KEY_USAGE_LIMIT_EXCEEDED, ''write-key usage limit exceeded'')]"

definition g301_provider_get_reason_strings :: "'p option \<Rightarrow> (nat \<times> string) list" where
  "g301_provider_get_reason_strings provctx = g301_reason_strings"

section \<open>Provider parameters\<close>

definition g301_provider_rows ::
  "ossl_param_api \<Rightarrow> (string \<times> (ossl_param \<Rightarrow> bool \<times> ossl_param)) list" where
  "g301_provider_rows api =
    [(''name'', \<lambda>p. OSSL_PARAM_set_utf8_ptr api p ''G301 Alpha/Beta EVP-only provider''),
     (''version'', \<lambda>p. OSSL_PARAM_set_utf8_ptr api p ''0.1.0-alpha''),
     (''buildinfo'', \<lambda>p. OSSL_PARAM_set_utf8_ptr api p
        ''bounded EVP prototype; provider-defined TLS suite descriptor; requires compatible patched libssl''),
     (''status'', \<lambda>p. OSSL_PARAM_set_int api p 1)]"

definition g301_provider_get_params ::
  "ossl_param_api \<Rightarrow> 'p option \<Rightarrow> ossl_params option \<Rightarrow> bool \<times> ossl_params option" where
  "g301_provider_get_params api provctx params =
     (case params of None \<Rightarrow> (True, None)
      | Some ps \<Rightarrow> (let (ok, ps) = set_each api (g301_provider_rows api) ps in (ok, Some ps)))"

section \<open>The TLS capability\<close>

text \<open>The names of the descriptor's fields, for headers that lack them.\<close>

definition OSSL_CAPABILITY_TLS_CIPHERSUITE_NAME :: string where
  "OSSL_CAPABILITY_TLS_CIPHERSUITE_NAME = ''tls-ciphersuite-name''"

definition OSSL_CAPABILITY_TLS_CIPHERSUITE_CODE_POINT :: string where
  "OSSL_CAPABILITY_TLS_CIPHERSUITE_CODE_POINT = ''tls-ciphersuite-code-point''"

definition OSSL_CAPABILITY_TLS_CIPHERSUITE_AEAD_NAME :: string where
  "OSSL_CAPABILITY_TLS_CIPHERSUITE_AEAD_NAME = ''tls-ciphersuite-aead-name''"

definition OSSL_CAPABILITY_TLS_CIPHERSUITE_DIGEST_NAME :: string where
  "OSSL_CAPABILITY_TLS_CIPHERSUITE_DIGEST_NAME = ''tls-ciphersuite-digest-name''"

definition OSSL_CAPABILITY_TLS_CIPHERSUITE_TAG_LENGTH :: string where
  "OSSL_CAPABILITY_TLS_CIPHERSUITE_TAG_LENGTH = ''tls-ciphersuite-tag-length''"

definition OSSL_CAPABILITY_TLS_CIPHERSUITE_SECURITY_BITS :: string where
  "OSSL_CAPABILITY_TLS_CIPHERSUITE_SECURITY_BITS = ''tls-ciphersuite-security-bits''"

lemmas capability_names =
  OSSL_CAPABILITY_TLS_CIPHERSUITE_NAME_def
  OSSL_CAPABILITY_TLS_CIPHERSUITE_CODE_POINT_def
  OSSL_CAPABILITY_TLS_CIPHERSUITE_AEAD_NAME_def
  OSSL_CAPABILITY_TLS_CIPHERSUITE_DIGEST_NAME_def
  OSSL_CAPABILITY_TLS_CIPHERSUITE_TAG_LENGTH_def
  OSSL_CAPABILITY_TLS_CIPHERSUITE_SECURITY_BITS_def

definition G301_TLS_CIPHERSUITE_CAPABILITY :: string where
  "G301_TLS_CIPHERSUITE_CAPABILITY = ''TLS-CIPHERSUITE''"

definition G301_TLS_WORKING_CODE_POINT :: cint where
  "G301_TLS_WORKING_CODE_POINT = 0xff30"

definition G301_TLS_DIGEST_NAME :: string where
  "G301_TLS_DIGEST_NAME = ''SHA2-384''"

definition G301_TLS_SECURITY_BITS :: cint where
  "G301_TLS_SECURITY_BITS = 256"

text \<open>
  A descriptor element points to a string, of which \<open>sizeof\<close> counts the final NUL, or to
  an \<open>unsigned int\<close>, whose four bytes are in the order of the machine (little endian).
\<close>

definition c_string :: "string \<Rightarrow> bytes" where
  "c_string s = map of_char s @ [0]"

definition utf8_row :: "string \<Rightarrow> string \<Rightarrow> ossl_param" where
  "utf8_row k s = \<lparr>key = k, data_type = OSSL_PARAM_UTF8_STRING, data = Some (c_string s),
     data_size = of_nat (length (c_string s)), return_size = OSSL_PARAM_UNMODIFIED\<rparr>"

definition uint_row :: "string \<Rightarrow> cint \<Rightarrow> ossl_param" where
  "uint_row k v = \<lparr>key = k, data_type = OSSL_PARAM_UNSIGNED_INTEGER,
     data = Some (le_bytes 4 (ucast v)), data_size = 4, return_size = OSSL_PARAM_UNMODIFIED\<rparr>"

definition g301_tls_ciphersuite_params :: ossl_params where
  "g301_tls_ciphersuite_params =
    [utf8_row OSSL_CAPABILITY_TLS_CIPHERSUITE_NAME G301_WORKING_NAME,
     uint_row OSSL_CAPABILITY_TLS_CIPHERSUITE_CODE_POINT G301_TLS_WORKING_CODE_POINT,
     utf8_row OSSL_CAPABILITY_TLS_CIPHERSUITE_AEAD_NAME G301_WORKING_NAME,
     utf8_row OSSL_CAPABILITY_TLS_CIPHERSUITE_DIGEST_NAME G301_TLS_DIGEST_NAME,
     uint_row OSSL_CAPABILITY_TLS_CIPHERSUITE_TAG_LENGTH (ucast G301_TAG_LENGTH),
     uint_row OSSL_CAPABILITY_TLS_CIPHERSUITE_SECURITY_BITS G301_TLS_SECURITY_BITS]"

text \<open>The callback gets the descriptor and the caller's \<open>arg\<close>, whose state it may change.\<close>

definition g301_provider_get_capabilities ::
  "'p option \<Rightarrow> string option \<Rightarrow> (ossl_params \<Rightarrow> 'arg \<Rightarrow> cint \<times> 'arg) option \<Rightarrow> 'arg \<Rightarrow> cint \<times> 'arg" where
  "g301_provider_get_capabilities provctx capability cb arg =
     (case (capability, cb) of
        (Some cap, Some f) \<Rightarrow>
          (if cap \<noteq> G301_TLS_CIPHERSUITE_CAPABILITY then (1, arg)
           else f g301_tls_ciphersuite_params arg)
      | _ \<Rightarrow> (0, arg))"

section \<open>Operations\<close>

definition OSSL_OP_CIPHER :: cint where
  "OSSL_OP_CIPHER = 2"

text \<open>Returns the algorithms and \<open>*no_cache\<close>, if there is one.\<close>

definition g301_provider_query_operation ::
  "'p option \<Rightarrow> cint \<Rightarrow> cint option \<Rightarrow> ossl_algorithm list option \<times> cint option" where
  "g301_provider_query_operation provctx operation_id no_cache =
     (let no_cache = (case no_cache of None \<Rightarrow> None | Some _ \<Rightarrow> Some 0) in
      if operation_id = OSSL_OP_CIPHER then (Some g301_ciphers, no_cache) else (None, no_cache))"

datatype provider_function =
    PROVIDER_TEARDOWN
  | PROVIDER_GETTABLE_PARAMS
  | PROVIDER_GET_PARAMS
  | PROVIDER_QUERY_OPERATION
  | PROVIDER_GET_REASON_STRINGS
  | PROVIDER_GET_CAPABILITIES

definition g301_provider_functions :: "(nat \<times> provider_function) list" where
  "g301_provider_functions =
    [(1024, PROVIDER_TEARDOWN), (1025, PROVIDER_GETTABLE_PARAMS), (1026, PROVIDER_GET_PARAMS),
     (1027, PROVIDER_QUERY_OPERATION), (1029, PROVIDER_GET_REASON_STRINGS),
     (1030, PROVIDER_GET_CAPABILITIES)]"

section \<open>Initialisation and teardown\<close>

text \<open>
  An entry of the core's dispatch table: the three functions the provider looks for, each
  pointer possibly NULL, or any other function with its identifier. The table ends at the
  entry with identifier 0, so nothing after it is looked at.
\<close>

datatype 'h core_entry =
    OSSL_FUNC_CORE_NEW_ERROR "('h \<Rightarrow> 'h) option"
  | OSSL_FUNC_CORE_SET_ERROR_DEBUG "('h \<Rightarrow> 'h) option"
  | OSSL_FUNC_CORE_VSET_ERROR "('h \<Rightarrow> nat \<Rightarrow> 'h) option"
  | OSSL_FUNC_OTHER nat

record 'h core_functions =
  new_error_fn :: "('h \<Rightarrow> 'h) option"
  set_error_debug_fn :: "('h \<Rightarrow> 'h) option"
  vset_error_fn :: "('h \<Rightarrow> nat \<Rightarrow> 'h) option"

text \<open>The loop over the table fills the context's fields; a later entry overwrites.\<close>

fun scan_dispatch :: "'h core_functions \<Rightarrow> 'h core_entry list \<Rightarrow> 'h core_functions" where
  "scan_dispatch ctx [] = ctx"
| "scan_dispatch ctx (OSSL_FUNC_CORE_NEW_ERROR f # es) = scan_dispatch (ctx\<lparr>new_error_fn := f\<rparr>) es"
| "scan_dispatch ctx (OSSL_FUNC_CORE_SET_ERROR_DEBUG f # es) =
     scan_dispatch (ctx\<lparr>set_error_debug_fn := f\<rparr>) es"
| "scan_dispatch ctx (OSSL_FUNC_CORE_VSET_ERROR f # es) = scan_dispatch (ctx\<lparr>vset_error_fn := f\<rparr>) es"
| "scan_dispatch ctx (OSSL_FUNC_OTHER function_id # es) =
     (if function_id = 0 then ctx else scan_dispatch ctx es)"

text \<open>
  \<open>zalloc\<close> and \<open>new_child\<close> are the outcomes of \<open>OPENSSL_zalloc\<close> and of
  \<open>OSSL_LIB_CTX_new_child\<close>; \<open>out\<close> and \<open>provctx\<close> are what the two result pointers point to.
  The result is the return value and what they point to afterwards.
\<close>

definition OSSL_provider_init ::
  "('lib, 'ciph, 'ectx) evp_api \<Rightarrow> bool \<Rightarrow> ('h \<Rightarrow> 'h core_entry list \<Rightarrow> 'lib option) \<Rightarrow> 'h
   \<Rightarrow> 'h core_entry list option
   \<Rightarrow> (nat \<times> provider_function) list option option
   \<Rightarrow> ('lib, ('ciph, 'ectx) G301_EVP_INNER_CTX, 'h) G301_PROVIDER_CTX option option
   \<Rightarrow> ledger
   \<Rightarrow> bool \<times> (nat \<times> provider_function) list option option
      \<times> ('lib, ('ciph, 'ectx) G301_EVP_INNER_CTX, 'h) G301_PROVIDER_CTX option option \<times> ledger" where
  "OSSL_provider_init evp zalloc new_child hdl in_table out provctx l =
     (case (in_table, out, provctx) of
        (Some es, Some _, Some _) \<Rightarrow>
          (if \<not> zalloc then (False, Some None, Some None, l)
           else
             let l = acquire (Some ()) R_provider_ctx l;
                 fns = scan_dispatch \<lparr>new_error_fn = None, set_error_debug_fn = None,
                                      vset_error_fn = None\<rparr> es in
             if new_error_fn fns = None \<or> set_error_debug_fn fns = None \<or> vset_error_fn fns = None
             then (let l = release (Some ()) R_provider_ctx l in (False, Some None, Some None, l))
             else
               let child = new_child hdl es;
                   l = acquire child R_child_libctx l in
               case child of
                 None \<Rightarrow> (let l = release (Some ()) R_provider_ctx l in (False, Some None, Some None, l))
               | Some lib \<Rightarrow>
                   (True, Some (Some g301_provider_functions),
                    Some (Some \<lparr>child_libctx = Some lib, inner_ops = Some (g301_evp_inner_ops evp),
                                inner_arg = lib, prov_handle = hdl,
                                prov_core_new_error = new_error_fn fns,
                                prov_core_set_error_debug = set_error_debug_fn fns,
                                prov_core_vset_error = vset_error_fn fns\<rparr>), l))
      | _ \<Rightarrow> (False, out, provctx, l))"

definition g301_provider_teardown ::
  "('lib, 'i, 'h) G301_PROVIDER_CTX option \<Rightarrow> ledger \<Rightarrow> ledger" where
  "g301_provider_teardown vprovctx l =
     (case vprovctx of None \<Rightarrow> l
      | Some provctx \<Rightarrow>
          let l = release (child_libctx provctx) R_child_libctx l;
              l = release (Some ()) R_provider_ctx l
          in l)"

section \<open>The core's callbacks\<close>

text \<open>The pointer of the last entry of a kind before the end, NULL if there is none.\<close>

fun table_end :: "'h core_entry \<Rightarrow> bool" where
  "table_end (OSSL_FUNC_OTHER function_id) \<longleftrightarrow> function_id = 0"
| "table_end _ \<longleftrightarrow> False"

definition entries :: "('h core_entry \<Rightarrow> 'f option option) \<Rightarrow> 'h core_entry list \<Rightarrow> 'f option list" where
  "entries sel es = List.map_filter sel (takeWhile (\<lambda>e. \<not> table_end e) es)"

definition last_entry :: "('h core_entry \<Rightarrow> 'f option option) \<Rightarrow> 'h core_entry list \<Rightarrow> 'f option" where
  "last_entry sel es = (case entries sel es of [] \<Rightarrow> None | fs \<Rightarrow> last fs)"

fun sel_new_error :: "'h core_entry \<Rightarrow> ('h \<Rightarrow> 'h) option option" where
  "sel_new_error (OSSL_FUNC_CORE_NEW_ERROR f) = Some f"
| "sel_new_error _ = None"

fun sel_set_error_debug :: "'h core_entry \<Rightarrow> ('h \<Rightarrow> 'h) option option" where
  "sel_set_error_debug (OSSL_FUNC_CORE_SET_ERROR_DEBUG f) = Some f"
| "sel_set_error_debug _ = None"

fun sel_vset_error :: "'h core_entry \<Rightarrow> ('h \<Rightarrow> nat \<Rightarrow> 'h) option option" where
  "sel_vset_error (OSSL_FUNC_CORE_VSET_ERROR f) = Some f"
| "sel_vset_error _ = None"

lemma entries_simps [simp]:
  "entries sel [] = []"
  "entries sel (e # es) =
     (if table_end e then []
      else (case sel e of None \<Rightarrow> entries sel es | Some f \<Rightarrow> f # entries sel es))"
  by (simp_all add: entries_def List.map_filter_simps split: option.split)

lemma last_entry_Cons:
  "last_entry sel (e # es) =
     (if table_end e then None
      else if entries sel es = [] then (case sel e of None \<Rightarrow> None | Some f \<Rightarrow> f)
      else last_entry sel es)"
  by (auto simp: last_entry_def split: option.splits list.splits)

lemma scan_dispatch_last:
  "new_error_fn (scan_dispatch c es) =
     (if entries sel_new_error es = [] then new_error_fn c else last_entry sel_new_error es)"
  "set_error_debug_fn (scan_dispatch c es) =
     (if entries sel_set_error_debug es = [] then set_error_debug_fn c
      else last_entry sel_set_error_debug es)"
  "vset_error_fn (scan_dispatch c es) =
     (if entries sel_vset_error es = [] then vset_error_fn c else last_entry sel_vset_error es)"
  by (induction c es rule: scan_dispatch.induct) (simp_all add: last_entry_Cons)

definition no_functions :: "'h core_functions" where
  "no_functions = \<lparr>new_error_fn = None, set_error_debug_fn = None, vset_error_fn = None\<rparr>"

lemma scan_dispatch_spec:
  "new_error_fn (scan_dispatch no_functions es) = last_entry sel_new_error es"
  "set_error_debug_fn (scan_dispatch no_functions es) = last_entry sel_set_error_debug es"
  "vset_error_fn (scan_dispatch no_functions es) = last_entry sel_vset_error es"
  by (simp_all add: scan_dispatch_last no_functions_def last_entry_def)

definition provider_ready :: "bool \<Rightarrow> ('h \<Rightarrow> 'h core_entry list \<Rightarrow> 'lib option) \<Rightarrow> 'h
    \<Rightarrow> 'h core_entry list \<Rightarrow> bool" where
  "provider_ready zalloc new_child hdl es \<longleftrightarrow>
     zalloc \<and> last_entry sel_new_error es \<noteq> None \<and> last_entry sel_set_error_debug es \<noteq> None
   \<and> last_entry sel_vset_error es \<noteq> None \<and> new_child hdl es \<noteq> None"

lemma provider_init_unfold:
  "OSSL_provider_init evp zalloc new_child hdl (Some es) (Some o1) (Some p1) l =
     (if provider_ready zalloc new_child hdl es
      then (True, Some (Some g301_provider_functions),
            Some (Some \<lparr>child_libctx = new_child hdl es, inner_ops = Some (g301_evp_inner_ops evp),
                        inner_arg = the (new_child hdl es), prov_handle = hdl,
                        prov_core_new_error = last_entry sel_new_error es,
                        prov_core_set_error_debug = last_entry sel_set_error_debug es,
                        prov_core_vset_error = last_entry sel_vset_error es\<rparr>),
            l + {# R_provider_ctx, R_child_libctx #})
      else (False, Some None, Some None, l))"
  unfolding OSSL_provider_init_def no_functions_def [symmetric] Let_def scan_dispatch_spec
  by (cases "new_child hdl es") (auto simp: provider_ready_def)

text \<open>
  C30: loading the provider. With valid pointers, \<open>OSSL_provider_init\<close> succeeds exactly if its
  context and the child library context can be made and the core's table provides all three
  error functions, the last entry of a kind before the end of the table counting. On success the context carries these
  functions, the EVP inner cipher and the child context; on failure nothing is returned and
  nothing is kept.
\<close>

theorem provider_init_outcome:
  assumes "OSSL_provider_init evp zalloc new_child hdl (Some es) (Some o1) (Some p1) l
             = (r, out, provctx, l')"
  shows "(r \<longleftrightarrow> zalloc \<and> last_entry sel_new_error es \<noteq> None
             \<and> last_entry sel_set_error_debug es \<noteq> None
             \<and> last_entry sel_vset_error es \<noteq> None \<and> new_child hdl es \<noteq> None)
    \<and> (if r then out = Some (Some g301_provider_functions)
          \<and> (\<exists>p. provctx = Some (Some p) \<and> prov_handle p = hdl
               \<and> prov_core_new_error p = last_entry sel_new_error es
               \<and> prov_core_set_error_debug p = last_entry sel_set_error_debug es
               \<and> prov_core_vset_error p = last_entry sel_vset_error es
               \<and> inner_ops p = Some (g301_evp_inner_ops evp) \<and> child_libctx p = Some (inner_arg p))
       else out = Some None \<and> provctx = Some None \<and> l' = l)"
  using assms unfolding provider_init_unfold
  by (auto simp: provider_ready_def split: if_splits)

definition sample_core :: "nat core_entry list" where
  "sample_core = [OSSL_FUNC_OTHER 1, OSSL_FUNC_CORE_NEW_ERROR (Some (\<lambda>_. 0)),
     OSSL_FUNC_CORE_SET_ERROR_DEBUG (Some (\<lambda>h. h)), OSSL_FUNC_CORE_VSET_ERROR (Some (\<lambda>_ r. r))]"

definition sample_load where
  "sample_load = OSSL_provider_init sample_evp True (\<lambda>_ _. Some 5) 0 (Some sample_core)
     (Some None) (Some None) {#}"

theorem provider_init_outcome_witness: "fst sample_load"
proof -
  obtain r out pc l' where s: "OSSL_provider_init sample_evp True (\<lambda>_ _. Some 5) 0 (Some sample_core)
     (Some None) (Some None) {#} = (r, out, pc, l')"
    by (rule prod_cases4)
  show ?thesis
    using provider_init_outcome [OF s] s
    by (simp add: sample_load_def sample_core_def last_entry_def)
qed

text \<open>
  C31: the provider owns what it made: loading it, making a cipher context, running any calls
  on it, freeing the context and tearing the provider down restores every resource count.
\<close>

theorem provider_lifecycle_balanced:
  assumes "OSSL_provider_init evp zalloc new_child hdl (Some es) (Some o1) (Some p1) l
             = (True, out, Some (Some p), l1)"
    and "g301_cipher_newctx aenv (Some p) l1 = (Some c, l2)"
  shows "g301_provider_teardown (Some p)
           (g301_cipher_freectx (Some (run_steps (cipher_step api) c calls)) l2) = l"
proof -
  have p: "inner_ops p = Some (g301_evp_inner_ops evp)" "child_libctx p \<noteq> None"
    and l1: "l1 = l + {# R_provider_ctx, R_child_libctx #}"
    using assms(1) unfolding provider_init_unfold by (auto simp: provider_ready_def split: if_splits)
  have o: "newctx (g301_evp_inner_ops evp) = g301_evp_newctx evp"
    "freectx (g301_evp_inner_ops evp) = g301_evp_freectx"
    by (simp_all add: g301_evp_inner_ops_def)
  note ok = evp_owner.cipher_newctx_ok [OF p(1) o assms(2)]
  have "g301_cipher_freectx (Some (run_steps (cipher_step api) c calls)) l2 = l1"
    using evp_owner.cipher_freectx [of "run_steps (cipher_step api) c calls" l1] ok o(2) by simp
  then show ?thesis using p(2) by (auto simp: l1 g301_provider_teardown_def Let_def)
qed

theorem provider_lifecycle_balanced_witness:
  "\<exists>p c l2. snd (snd sample_load) = (Some (Some p), {# R_provider_ctx, R_child_libctx #})
     \<and> g301_cipher_newctx ready_alloc (Some p) {# R_provider_ctx, R_child_libctx #} = (Some c, l2)
     \<and> g301_provider_teardown (Some p) (g301_cipher_freectx (Some (run_steps
          (cipher_step libcrypto_params) c [begin_encrypt key_a, send_payload])) l2) = {#}"
proof -
  have ready: "provider_ready True (\<lambda>_ _. Some (5::nat)) 0 sample_core"
    by (simp add: provider_ready_def sample_core_def last_entry_def)
  then obtain out p where s: "OSSL_provider_init sample_evp True (\<lambda>_ _. Some 5) 0 (Some sample_core)
     (Some None) (Some None) {#} = (True, out, Some (Some p), {# R_provider_ctx, R_child_libctx #})"
    by (simp add: provider_init_unfold)
  have i: "inner_ops p = Some (g301_evp_inner_ops sample_evp)"
    using s ready by (auto simp: provider_init_unfold)
  obtain vc l2 where n: "g301_cipher_newctx ready_alloc (Some p) {# R_provider_ctx, R_child_libctx #} = (vc, l2)"
    by fastforce
  have "vc \<noteq> None"
    using n i by (auto simp: g301_cipher_newctx_def ready_alloc_def g301_evp_inner_ops_def
        evp_newctx_cases sample_evp_def)
  then obtain c where n': "g301_cipher_newctx ready_alloc (Some p) {# R_provider_ctx, R_child_libctx #} = (Some c, l2)"
    using n by blast
  have load: "snd (snd sample_load) = (Some (Some p), {# R_provider_ctx, R_child_libctx #})"
    using s by (simp add: sample_load_def)
  show ?thesis
    using load n' provider_lifecycle_balanced [OF s n', of libcrypto_params
        "[begin_encrypt key_a, send_payload]"] by blast
qed

section \<open>What the provider advertises\<close>

text \<open>
  The provider offers one operation with one algorithm, and its function table is
  complete and consistent: identifiers are distinct, both directions come with
  construction, destruction, update and final, every getter and setter with its table, and
  neither a one-shot cipher function (6) nor a context copy (8) is offered.
\<close>

lemma advertised_cipher:
  "g301_provider_query_operation pc opid nc =
     (if opid = 2 then Some g301_ciphers else None, map_option (\<lambda>_. 0) nc)
   \<and> map (\<lambda>a. (algorithm_names a, property_definition a)) g301_ciphers
     = [(''G301-AES-256-GCM-V1'', ''provider=g301,fips=no'')]
   \<and> list_all (\<lambda>a.
        distinct (map fst (implementation a)) \<and> distinct (map snd (implementation a))
      \<and> set (map snd (implementation a)) = UNIV
      \<and> 6 \<notin> set (map fst (implementation a)) \<and> 8 \<notin> set (map fst (implementation a))) g301_ciphers"
proof -
  have all: "set (map snd g301_cipher_functions) = UNIV"
  proof (intro set_eqI iffI UNIV_I)
    fix f :: cipher_function
    show "f \<in> set (map snd g301_cipher_functions)"
      by (cases f) (simp_all add: g301_cipher_functions_def)
  qed
  then show ?thesis
    by (simp add: g301_provider_query_operation_def OSSL_OP_CIPHER_def g301_ciphers_def
        G301_WORKING_NAME_def G301_PROPERTY_DEFINITION_def Let_def split: option.split)
       (simp add: g301_cipher_functions_def)
qed

text \<open>
  The TLS capability. The callback is called once, with the descriptor, exactly for the
  TLS-CIPHERSUITE capability; an unknown capability is not an error, a missing name or
  callback is. The descriptor has the six documented fields, and it names the algorithm the
  provider offers and the tag length its cipher enforces.
\<close>

lemma tls_capability:
  "g301_provider_get_capabilities pc cap cb arg =
     (case cap of None \<Rightarrow> (0, arg)
      | Some name \<Rightarrow> (case cb of None \<Rightarrow> (0, arg)
          | Some f \<Rightarrow> if name = ''TLS-CIPHERSUITE'' then f g301_tls_ciphersuite_params arg else (1, arg)))
   \<and> map key g301_tls_ciphersuite_params =
      [''tls-ciphersuite-name'', ''tls-ciphersuite-code-point'', ''tls-ciphersuite-aead-name'',
       ''tls-ciphersuite-digest-name'', ''tls-ciphersuite-tag-length'', ''tls-ciphersuite-security-bits'']
   \<and> map data g301_tls_ciphersuite_params =
      [Some (c_string (algorithm_names (hd g301_ciphers))), Some [0x30, 0xff, 0, 0],
       Some (c_string (algorithm_names (hd g301_ciphers))), Some (c_string ''SHA2-384''),
       Some (le_bytes 4 G301_TAG_LENGTH), Some [0, 1, 0, 0]]
   \<and> list_all (\<lambda>p. data p \<noteq> None
        \<and> data_size p = of_nat (length (the (data p)))) g301_tls_ciphersuite_params"
proof -
  have "g301_provider_get_capabilities pc cap cb arg =
     (case cap of None \<Rightarrow> (0, arg)
      | Some name \<Rightarrow> (case cb of None \<Rightarrow> (0, arg)
          | Some f \<Rightarrow> if name = ''TLS-CIPHERSUITE'' then f g301_tls_ciphersuite_params arg else (1, arg)))"
    by (cases cap; cases cb)
       (simp_all add: g301_provider_get_capabilities_def G301_TLS_CIPHERSUITE_CAPABILITY_def)
  moreover have "map key g301_tls_ciphersuite_params =
      [''tls-ciphersuite-name'', ''tls-ciphersuite-code-point'', ''tls-ciphersuite-aead-name'',
       ''tls-ciphersuite-digest-name'', ''tls-ciphersuite-tag-length'', ''tls-ciphersuite-security-bits'']"
    by (simp add: g301_tls_ciphersuite_params_def utf8_row_def uint_row_def capability_names)
  moreover have "map data g301_tls_ciphersuite_params =
      [Some (c_string (algorithm_names (hd g301_ciphers))), Some [0x30, 0xff, 0, 0],
       Some (c_string (algorithm_names (hd g301_ciphers))), Some (c_string ''SHA2-384''),
       Some (le_bytes 4 G301_TAG_LENGTH), Some [0, 1, 0, 0]]"
    by code_simp
  moreover have "list_all (\<lambda>p. data p \<noteq> None
        \<and> data_size p = of_nat (length (the (data p)))) g301_tls_ciphersuite_params"
    by (simp add: g301_tls_ciphersuite_params_def utf8_row_def uint_row_def)
  ultimately show ?thesis by blast
qed

text \<open>
  The tables the provider publishes agree with what its operations do: the gettable tables
  name exactly the parameters the getters have a row for, the context's table the tag as
  well, and nothing published is one of the forbidden legacy parameters.
\<close>

lemma published_tables:
  "set (map key (g301_cipher_gettable_params pc)) = set (map fst (g301_param_rows api))"
  "set (map key (g301_cipher_gettable_ctx_params vc pc))
     = insert OSSL_CIPHER_PARAM_AEAD_TAG (set (map fst (g301_ctx_param_rows api)))"
  "map key (g301_provider_gettable_params pc) = map fst (g301_provider_rows api)"
  "\<not> g301_has_forbidden_legacy_param (Some (g301_cipher_gettable_params pc
        @ g301_cipher_gettable_ctx_params vc pc @ g301_cipher_settable_ctx_params vc pc))"
proof -
  show "set (map key (g301_cipher_gettable_params pc)) = set (map fst (g301_param_rows api))"
    by (auto simp: g301_cipher_gettable_params_def g301_gettable_params_def param_row_def
        g301_param_rows_def)
  show "set (map key (g301_cipher_gettable_ctx_params vc pc))
      = insert OSSL_CIPHER_PARAM_AEAD_TAG (set (map fst (g301_ctx_param_rows api)))"
    by (auto simp: g301_cipher_gettable_ctx_params_def g301_gettable_ctx_params_def param_row_def
        g301_ctx_param_rows_def)
  show "map key (g301_provider_gettable_params pc) = map fst (g301_provider_rows api)"
    by (simp add: g301_provider_gettable_params_def g301_provider_param_types_def param_row_def
        g301_provider_rows_def)
  show "\<not> g301_has_forbidden_legacy_param (Some (g301_cipher_gettable_params pc
        @ g301_cipher_gettable_ctx_params vc pc @ g301_cipher_settable_ctx_params vc pc))"
    unfolding g301_cipher_gettable_params_def g301_cipher_gettable_ctx_params_def
      g301_cipher_settable_ctx_params_def by code_simp
qed

text \<open>
  C34: the provider's own parameters, for any array of the caller: the call succeeds exactly
  if the setters accept, and then the first parameter of each of the four names holds the name,
  the version, the build information or the status 1, and every other parameter is as the
  caller passed it. Parameters with other names are left alone by a failure, too.
\<close>

theorem provider_getter:
  assumes "params_documented api" "g301_provider_get_params api pc (Some ps) = (r, Some qs)"
  defines "reply \<equiv> answer
      [(''name'', \<lambda>p. OSSL_PARAM_set_utf8_ptr api p ''G301 Alpha/Beta EVP-only provider''),
       (''version'', \<lambda>p. OSSL_PARAM_set_utf8_ptr api p ''0.1.0-alpha''),
       (''buildinfo'', \<lambda>p. OSSL_PARAM_set_utf8_ptr api p
          ''bounded EVP prototype; provider-defined TLS suite descriptor; requires compatible patched libssl''),
       (''status'', \<lambda>p. OSSL_PARAM_set_int api p 1)]"
  shows "(r \<longleftrightarrow> (\<forall>n < length ps. first_of_name ps n \<longrightarrow> fst (reply (ps ! n))))
    \<and> (r \<longrightarrow> (\<forall>n < length ps. qs ! n
         = (if first_of_name ps n then snd (reply (ps ! n)) else ps ! n)))
    \<and> (\<forall>n < length ps. key (ps ! n) \<notin> {''name'', ''version'', ''buildinfo'', ''status''}
         \<longrightarrow> qs ! n = ps ! n)"
proof -
  let ?rows = "g301_provider_rows api"
  have reply: "reply = answer ?rows" by (simp add: reply_def g301_provider_rows_def)
  have kp: "key_preserving ?rows"
    using params_documentedD(5,6) [OF assms(1)]
    by (simp add: key_preserving_def g301_provider_rows_def)
  have d: "distinct (map fst ?rows)" by (simp add: g301_provider_rows_def)
  have names: "fst ` set ?rows = {''name'', ''version'', ''buildinfo'', ''status''}"
    by (simp add: g301_provider_rows_def)
  have r: "r = fst (set_each api ?rows ps)" and qs: "qs = snd (set_each api ?rows ps)"
    using assms(2) by (simp_all add: g301_provider_get_params_def split_beta Let_def)
  note e = set_each_answers [OF assms(1) kp d]
  have "qs ! n = ps ! n" if "n < length ps" "key (ps ! n) \<notin> fst ` set ?rows" for n
    unfolding qs by (rule set_each_other [OF assms(1) kp that])
  then show ?thesis using e names by (simp add: r qs reply)
qed

definition sample_status_request :: ossl_params where
  "sample_status_request =
     [\<lparr>key = ''status'', data_type = OSSL_PARAM_INTEGER, data = Some (replicate 4 0),
       data_size = 4, return_size = OSSL_PARAM_UNMODIFIED\<rparr>]"

theorem provider_getter_witness:
  "\<exists>qs. g301_provider_get_params libcrypto_params (None :: nat option) (Some sample_status_request)
       = (True, Some qs)
     \<and> qs ! 0 = \<lparr>key = ''status'', data_type = OSSL_PARAM_INTEGER, data = Some [1, 0, 0, 0],
          data_size = 4, return_size = 4\<rparr>"
proof -
  let ?g = "g301_provider_get_params libcrypto_params (None :: nat option) (Some sample_status_request)"
  have ok: "fst ?g \<and> snd ?g \<noteq> None" by code_simp
  then obtain qs where g: "?g = (True, Some qs)"
    by (metis option.exhaust_sel prod.collapse)
  have w: "OSSL_PARAM_set_int libcrypto_params (sample_status_request ! 0) 1
     = (True, \<lparr>key = ''status'', data_type = OSSL_PARAM_INTEGER, data = Some [1, 0, 0, 0],
          data_size = 4, return_size = 4\<rparr>)"
    by code_simp
  show ?thesis
    using provider_getter [OF params_documented_libcrypto g] w g
    by (simp add: answer_def sample_status_request_def first_of_name_def)
qed

end
