(* ===== verification/Error_Reports.thy ===== *)
theory Error_Reports
  imports Provider
begin

text \<open>
  Error reports: which calls raise an error in the core, how many and with which reasons.
  Every path of every operation is followed from the raise to the core's error state.
\<close>

section \<open>What is reported\<close>

text \<open>
  \<open>reported c r c'\<close>: an operation on \<open>c\<close> that returned \<open>r\<close> left the core's error state as it
  was, or failed and raised one error, with a reason that has a text.
\<close>

definition published_reason :: "nat \<Rightarrow> bool" where
  "published_reason reason \<longleftrightarrow> reason \<in> fst ` set g301_reason_strings"

definition same_core :: "('a, 'i, 'h) G301_CIPHER_CTX \<Rightarrow> ('a, 'i, 'h) G301_CIPHER_CTX \<Rightarrow> bool" where
  "same_core c c' \<longleftrightarrow> handle c' = handle c \<and> core_new_error c' = core_new_error c
     \<and> core_set_error_debug c' = core_set_error_debug c \<and> core_vset_error c' = core_vset_error c"

definition reported :: "('a, 'i, 'h) G301_CIPHER_CTX \<Rightarrow> bool \<Rightarrow> ('a, 'i, 'h) G301_CIPHER_CTX \<Rightarrow> bool" where
  "reported c r c' \<longleftrightarrow> handle c' = handle c
     \<or> \<not> r \<and> (\<exists>reason. published_reason reason \<and> handle c' = raised c reason)"

lemma published_reasons [simp]:
  "published_reason G301_R_INVALID_PARAMETER" "published_reason G301_R_INVALID_STATE"
  "published_reason G301_R_OUTPUT_BUFFER_TOO_SMALL" "published_reason G301_R_INTERNAL_ERROR"
  "published_reason G301_R_KEY_USAGE_LIMIT_EXCEEDED"
  by (simp_all add: published_reason_def g301_reason_strings_def)

lemma same_core_refl [simp]: "same_core c c"
  by (simp add: same_core_def)

lemma same_core_intros [simp]:
  "same_core c (g301_poison d) = same_core c d"
  "same_core c (g301_invalidate_record d) = same_core c d"
  "same_core c (d\<lparr>inner := i\<rparr>) = same_core c d"
  "same_core c (d\<lparr>phase := p\<rparr>) = same_core c d"
  "same_core c (d\<lparr>key_valid := b\<rparr>) = same_core c d"
  "same_core c (d\<lparr>encrypting := b\<rparr>) = same_core c d"
  "same_core c (d\<lparr>direction_set := b\<rparr>) = same_core c d"
  "same_core c (d\<lparr>payload_started := b\<rparr>) = same_core c d"
  "same_core c (d\<lparr>needs_reinit := b\<rparr>) = same_core c d"
  "same_core c (d\<lparr>encrypted_records := n\<rparr>) = same_core c d"
  "same_core c (d\<lparr>usage_exhausted := b\<rparr>) = same_core c d"
  "same_core c (d\<lparr>record_reserved := b\<rparr>) = same_core c d"
  "same_core c (d\<lparr>decrypt_tag_current := b\<rparr>) = same_core c d"
  "same_core c (after_final d) = same_core c d"
  "same_core c (snd (g301_record_current_key env d k)) = same_core c d"
  "same_core c (snd (g301_install_write_key env d)) = same_core c d"
  by (simp_all add: same_core_def after_final_def g301_record_current_key_def
      g301_install_write_key_def Let_def)

lemma reported_same: "same_core c d \<Longrightarrow> reported c r d"
  by (simp add: reported_def same_core_def)

lemma reported_raise:
  assumes "same_core c d" "published_reason reason"
  shows "reported c False (g301_raise_error d reason)"
proof -
  have "handle (g301_raise_error d reason) = raised c reason"
    using assms(1) by (auto simp: raised_def g301_raise_error_def same_core_def split: option.split)
  then show ?thesis using assms(2) by (auto simp: reported_def)
qed

text \<open>The fields an operation may write after a report do not matter.\<close>

lemma reported_cong [simp]:
  "reported c r (g301_poison d) = reported c r d"
  "reported c r (d\<lparr>inner := i\<rparr>) = reported c r d"
  "reported c r (d\<lparr>phase := p\<rparr>) = reported c r d"
  by (simp_all add: reported_def)

lemma reserve_reported:
  "reported c (fst (g301_reserve_encryption_record env c)) (snd (g301_reserve_encryption_record env c))"
proof -
  have r: "reported c False (g301_raise_error (g301_invalidate_record (g301_poison d)) reason)"
    if "same_core c d" "published_reason reason" for d reason
    using that by (intro reported_raise) simp_all
  show ?thesis
    by (auto simp: g301_reserve_encryption_record_def Let_def r reported_same split: option.split)
qed

lemma reserve_core:
  "fst (g301_reserve_encryption_record env c) \<Longrightarrow> same_core c (snd (g301_reserve_encryption_record env c))"
  by (auto simp: g301_reserve_encryption_record_def Let_def same_core_def split: option.splits if_splits)

lemma after_manifest_core: "reserve_ok env c \<Longrightarrow> same_core c (after_manifest env c)"
  by (auto simp: after_manifest_def reserved_ctx_def reserve_ok_def reserve_core)

lemma inject_reported:
  "reported c (fst (g301_inject_manifest env c)) (snd (g301_inject_manifest env c))"
proof (cases rule: inject_cases [of c env])
  case idle
  then show ?thesis by (simp add: reported_same)
next
  case refused
  then show ?thesis using reserve_reported [of c env] by simp
next
  case failed
  then show ?thesis
    using after_manifest_core [OF failed(2)] by (auto simp: reported_same intro!: reported_raise)
next
  case injected
  then show ?thesis using after_manifest_core [OF injected(2)] by (simp add: reported_same)
qed

lemma inject_core:
  assumes "fst (g301_inject_manifest env c)"
  shows "same_core c (snd (g301_inject_manifest env c))"
  using assms by (cases rule: inject_cases [of c env]) (auto simp: after_manifest_core)

lemma update_reported:
  assumes "g301_cipher_update env (Some c) out outl outsize in_buf inl = (r, Some c', out', outl')"
  shows "reported c r c'"
proof (cases outl)
  case None
  with assms show ?thesis by (simp add: reported_same)
next
  case (Some v)
  note eq = assms [unfolded Some]
  show ?thesis
  proof (cases rule: update_cases [of c out outsize in_buf inl env v])
    case (refused reason)
    have "published_reason reason"
      using refused(1) by (auto simp: update_refusal_def split: if_splits)
    then show ?thesis using eq refused(2) by (auto intro: reported_raise)
  next
    case empty
    then show ?thesis using eq by (auto simp: reported_same)
  next
    case not_injected
    then show ?thesis using eq inject_reported [of c env] by simp
  next
    case (failed d)
    then show ?thesis
      using eq inject_core [OF failed(3)] by (auto simp: reported_same intro!: reported_raise)
  next
    case (taken d)
    show ?thesis
      using eq taken inject_core [OF taken(3)] by (auto simp: reported_same split: if_splits)
  qed
qed

lemma final_reported:
  assumes "g301_cipher_final env (Some c) out outl outsize = (r, Some c', outl')"
  shows "reported c r c'"
proof (cases outl)
  case None
  with assms show ?thesis by (auto simp: final_no_outl intro: reported_raise)
next
  case (Some v)
  note eq = assms [unfolded Some]
  show ?thesis
  proof (cases rule: final_cases [of c env out v outsize])
    case not_injected
    then show ?thesis using eq inject_reported [of c env] by simp
  next
    case (failed d)
    then show ?thesis
      using eq inject_core [OF failed(3)] by (auto simp: reported_same intro!: reported_raise)
  next
    case (completed d)
    then show ?thesis using eq inject_core [OF completed(3)] by (auto simp: reported_same)
  qed (use eq in \<open>auto intro: reported_raise\<close>)
qed

lemma begin_reported:
  assumes "same_core c d"
  shows "reported c (fst (g301_init_begin env d hk hi t e)) (snd (g301_init_begin env d hk hi t e))"
  unfolding g301_init_begin_def Let_def split_beta
  by (auto simp: assms reported_same intro!: reported_raise)

lemma commit_reported:
  assumes "same_core c d"
  shows "reported c (fst (g301_init_commit env d k iv fp t e)) (snd (g301_init_commit env d k iv fp t e))"
  using assms
  by (auto simp: g301_init_commit_def Let_def split_beta reported_same
      intro!: reported_raise begin_reported split: option.split)

lemma init_reported:
  assumes "g301_init api env (Some c) k keylen iv ivlen params e = (r, Some c')"
  shows "reported c r c'"
proof -
  have rej: "same_core c (init_rejected_ctx c t hk ch)" for t hk ch
    by (simp add: init_rejected_ctx_def)
  have acc: "reported c b (snd (g301_init_commit env d kb iv fp t e))"
    if "same_core c d" "fst (g301_init_commit env d kb iv fp t e) = b" for d fp t b kb
    using commit_reported [OF that(1), of env kb iv fp t e] that(2) by simp
  show ?thesis
    using assms unfolding g301_init_unfold Let_def
    by (auto simp: map_prod_def split_beta split: if_splits intro!: reported_raise rej acc)
qed

lemma get_tag_reported:
  assumes "fst (g301_get_encryption_tag api c p) = r"
  shows "reported c r (fst (snd (g301_get_encryption_tag api c p)))"
  using assms
  by (auto simp: g301_get_encryption_tag_def Let_def split_beta reported_same
      intro!: reported_raise split: if_splits option.splits)

lemma get_ctx_reported:
  assumes "g301_cipher_get_ctx_params api (Some c) params = (r, Some c', ps')"
  shows "reported c r c'"
  using assms
  by (auto simp: g301_cipher_get_ctx_params_def Let_def split_beta prod_eq_iff reported_same
      split: option.splits if_splits intro!: reported_raise get_tag_reported)

lemma set_ctx_reported:
  assumes "g301_cipher_set_ctx_params api (Some c) params = (r, Some c')"
  shows "reported c r c'"
proof (cases params)
  case None
  then show ?thesis using assms by (simp add: reported_same)
next
  case (Some ps)
  have st: "same_core c (stale_tag_ctx c t)" for t by (simp add: stale_tag_ctx_def)
  show ?thesis
    using assms unfolding Some set_ctx_unfold
    by (auto simp: reported_same st split: if_splits intro!: reported_raise)
qed

text \<open>
  C25: error reports. No call of a cipher context raises more than one error, a successful
  call raises none, and every reason that is raised has a text in the provider's table of
  reason strings.
\<close>

theorem errors_are_published:
  "handle (cipher_step api c (env, call)) = handle c
   \<or> (\<exists>reason \<in> fst ` set g301_reason_strings. fst (cipher_dispatch api c (env, call)) = False
        \<and> handle (cipher_step api c (env, call)) = raised c reason)"
proof -
  have "reported c (fst (cipher_dispatch api c (env, call))) (cipher_step api c (env, call))"
    by (cases rule: step_cases [of api env c call])
       (simp_all add: init_reported update_reported final_reported get_ctx_reported set_ctx_reported)
  then show ?thesis by (auto simp: reported_def published_reason_def)
qed

end
