(* ===== verification/Gcm_Contract.thy ===== *)
theory Gcm_Contract
  imports Inner_Evp
begin

text \<open>
  What libcrypto documents of the EVP functions for AES-256-GCM, call by call, as the
  hypothesis \<open>evp_documented\<close> on the EVP parameter; an executable EVP interface that behaves
  so; and what follows for the adapter of g301_inner_evp.c and for the contexts of a provider
  that use it: a record that the adapter processes whole is a GCM encryption or decryption.
\<close>

section \<open>AES-256-GCM\<close>

text \<open>
  GCM encrypts by XOR with a key stream and authenticates the associated data with the
  ciphertext; the block cipher and GHASH inside are not the provider's business, so the key
  stream and the tag function are parameters. The bounds are those of NIST SP 800-38D, in
  bytes.
\<close>

record gcm =
  keystream :: "bytes \<Rightarrow> bytes \<Rightarrow> nat \<Rightarrow> byte"
  authenticate :: "bytes \<Rightarrow> bytes \<Rightarrow> bytes \<Rightarrow> bytes \<Rightarrow> bytes"

definition GCM_MAX_DATA :: nat where "GCM_MAX_DATA = 2 ^ 36 - 32"
definition GCM_MAX_AAD :: nat where "GCM_MAX_AAD = 2 ^ 61 - 1"

fun apply_stream :: "(nat \<Rightarrow> byte) \<Rightarrow> nat \<Rightarrow> bytes \<Rightarrow> bytes" where
  "apply_stream ks off [] = []"
| "apply_stream ks off (b # bs) = Bit_Operations.xor b (ks off) # apply_stream ks (Suc off) bs"

lemma apply_stream_length [simp]: "length (apply_stream ks off d) = length d"
  by (induction d arbitrary: off) simp_all

lemma apply_stream_append:
  "apply_stream ks off (d @ e) = apply_stream ks off d @ apply_stream ks (off + length d) e"
  by (induction d arbitrary: off) simp_all

lemma apply_stream_twice [simp]: "apply_stream ks off (apply_stream ks off d) = d"
  by (induction d arbitrary: off) (simp_all add: xor.assoc)

lemma apply_stream_iff: "apply_stream ks off p = c \<longleftrightarrow> p = apply_stream ks off c"
  by auto

definition gcm_seal :: "gcm \<Rightarrow> bytes \<Rightarrow> bytes \<Rightarrow> bytes \<Rightarrow> bytes \<Rightarrow> bytes \<times> bytes" where
  "gcm_seal g k n a p =
     (let c = apply_stream (keystream g k n) 0 p in (c, authenticate g k n a c))"

section \<open>What an EVP context is doing\<close>

text \<open>
  A context without a cipher, one that has a cipher but no message, one in the middle of a
  message and one after it. A message is what has been given to it so far, with the
  ciphertext side of its data and the tag that was set.
\<close>

record gcm_session =
  gs_key :: bytes
  gs_nonce :: bytes
  gs_encrypt :: bool
  gs_aad :: bytes
  gs_text :: bytes
  gs_tag :: "bytes option"

datatype evp_view = Unbound | Bound | Running gcm_session | Finished gcm_session

definition new_session :: "bytes \<Rightarrow> bytes \<Rightarrow> bool \<Rightarrow> gcm_session" where
  "new_session k n e =
     \<lparr>gs_key = k, gs_nonce = n, gs_encrypt = e, gs_aad = [], gs_text = [], gs_tag = None\<rparr>"

definition session_stream :: "gcm \<Rightarrow> gcm_session \<Rightarrow> bytes \<Rightarrow> bytes" where
  "session_stream g s d = apply_stream (keystream g (gs_key s) (gs_nonce s)) (length (gs_text s)) d"

definition session_data :: "gcm \<Rightarrow> gcm_session \<Rightarrow> bytes \<Rightarrow> gcm_session" where
  "session_data g s d = s\<lparr>gs_text := gs_text s @ (if gs_encrypt s then session_stream g s d else d)\<rparr>"

definition session_tag :: "gcm \<Rightarrow> gcm_session \<Rightarrow> bytes" where
  "session_tag g s = authenticate g (gs_key s) (gs_nonce s) (gs_aad s) (gs_text s)"

section \<open>The documented behaviour of EVP\<close>

text \<open>
  EVP_EncryptInit(3), one clause for each function, for a context of \<open>'ectx\<close> that is doing
  \<open>view e\<close> and for ciphers that are AES-256-GCM by \<open>is_gcm\<close>. Only calls within the documented
  bounds are promised to succeed, absent a resource failure; nothing is said of others, so an
  implementation may refuse a NULL cipher on a context that has none, data beyond the limits
  of GCM, or anything after the end of a message.
\<close>

definition evp_fetches :: "('lib, 'ciph, 'ectx) evp_api \<Rightarrow> ('ciph \<Rightarrow> bool) \<Rightarrow> bool" where
  "evp_fetches evp is_gcm \<longleftrightarrow>
     (\<forall>lib c. EVP_CIPHER_fetch evp lib ''AES-256-GCM'' ''provider=default'' = Some c \<longrightarrow> is_gcm c)"

definition evp_starts ::
  "('lib, 'ciph, 'ectx) evp_api \<Rightarrow> ('ectx \<Rightarrow> evp_view) \<Rightarrow> ('ciph \<Rightarrow> bool) \<Rightarrow> bool" where
  "evp_starts evp view is_gcm \<longleftrightarrow>
     (\<forall>e ciph k n enc. length k = 32 \<and> length n = 12
        \<and> (case ciph of None \<Rightarrow> view e \<noteq> Unbound | Some c \<Rightarrow> is_gcm c)
        \<longrightarrow> (case EVP_CipherInit_ex2 evp e ciph (Some k) (Some n) enc [] of
               (ok, e') \<Rightarrow> sint ok > 0 \<and> view e' = Running (new_session k n enc)))"

text \<open>A successful initialisation binds the cipher, and no other call takes it away.\<close>

definition evp_binds ::
  "('lib, 'ciph, 'ectx) evp_api \<Rightarrow> ('ectx \<Rightarrow> evp_view) \<Rightarrow> ('ciph \<Rightarrow> bool) \<Rightarrow> bool" where
  "evp_binds evp view is_gcm \<longleftrightarrow>
     (\<forall>e c k n enc ps. is_gcm c \<and> sint (fst (EVP_CipherInit_ex2 evp e (Some c) k n enc ps)) > 0
        \<longrightarrow> view (snd (EVP_CipherInit_ex2 evp e (Some c) k n enc ps)) \<noteq> Unbound)
   \<and> (\<forall>e. view e \<noteq> Unbound \<longrightarrow>
        (\<forall>k n enc ps. view (snd (EVP_CipherInit_ex2 evp e None k n enc ps)) \<noteq> Unbound)
      \<and> (\<forall>out z b m. view (fst (snd (EVP_CipherUpdate evp e out z b m))) \<noteq> Unbound)
      \<and> (\<forall>out z. view (fst (snd (EVP_CipherFinal_ex evp e out z))) \<noteq> Unbound)
      \<and> (\<forall>ps. view (fst (snd (EVP_CIPHER_CTX_get_params evp e ps))) \<noteq> Unbound)
      \<and> (\<forall>ps. view (snd (EVP_CIPHER_CTX_set_params evp e ps)) \<noteq> Unbound))"

text \<open>
  \<open>inl\<close> bytes of the input are processed: without an output buffer as associated data, which
  has to come first, and else as data.
\<close>

definition evp_takes_aad :: "('lib, 'ciph, 'ectx) evp_api \<Rightarrow> ('ectx \<Rightarrow> evp_view) \<Rightarrow> bool" where
  "evp_takes_aad evp view \<longleftrightarrow>
     (\<forall>e s z b m. view e = Running s \<and> gs_text s = [] \<and> 0 < sint m \<and> sint m \<le> int (length b)
        \<and> length (gs_aad s) + nat (sint m) \<le> GCM_MAX_AAD
        \<longrightarrow> (case EVP_CipherUpdate evp e None z (Some b) m of (ok, e', out, n) \<Rightarrow>
               sint ok > 0 \<and> n = m \<and> out = None
             \<and> view e' = Running (s\<lparr>gs_aad := gs_aad s @ take (nat (sint m)) b\<rparr>)))"

definition evp_takes_data :: "('lib, 'ciph, 'ectx) evp_api \<Rightarrow> gcm \<Rightarrow> ('ectx \<Rightarrow> evp_view) \<Rightarrow> bool" where
  "evp_takes_data evp g view \<longleftrightarrow>
     (\<forall>e s z b m buf. view e = Running s \<and> 0 < sint m \<and> sint m \<le> int (length b)
        \<and> sint m \<le> int (length buf) \<and> length (gs_text s) + nat (sint m) \<le> GCM_MAX_DATA
        \<longrightarrow> (case EVP_CipherUpdate evp e (Some buf) z (Some b) m of (ok, e', out, n) \<Rightarrow>
               sint ok > 0 \<and> n = m
             \<and> out = Some (memcpy buf (session_stream g s (take (nat (sint m)) b)) (nat (sint m)))
             \<and> view e' = Running (session_data g s (take (nat (sint m)) b))))"

definition evp_finishes :: "('lib, 'ciph, 'ectx) evp_api \<Rightarrow> gcm \<Rightarrow> ('ectx \<Rightarrow> evp_view) \<Rightarrow> bool" where
  "evp_finishes evp g view \<longleftrightarrow>
     (\<forall>e s out z. view e = Running s
        \<longrightarrow> (case EVP_CipherFinal_ex evp e out z of (ok, e', out', n) \<Rightarrow>
               (gs_encrypt s \<longrightarrow> sint ok > 0 \<and> n = 0 \<and> view e' = Finished s)
             \<and> (\<forall>t. \<not> gs_encrypt s \<and> gs_tag s = Some t \<longrightarrow>
                 (sint ok > 0 \<longleftrightarrow> t = session_tag g s) \<and> (sint ok > 0 \<longrightarrow> n = 0))))"

definition tag_slot :: "ossl_param \<Rightarrow> bytes \<Rightarrow> bool" where
  "tag_slot p t \<longleftrightarrow> key p = OSSL_CIPHER_PARAM_AEAD_TAG \<and> data_type p = OSSL_PARAM_OCTET_STRING
     \<and> data p = Some t \<and> length t = 16 \<and> data_size p = 16"

definition evp_tags :: "('lib, 'ciph, 'ectx) evp_api \<Rightarrow> gcm \<Rightarrow> ('ectx \<Rightarrow> evp_view) \<Rightarrow> bool" where
  "evp_tags evp g view \<longleftrightarrow>
     (\<forall>e s p t. view e = Finished s \<and> gs_encrypt s \<and> tag_slot p t
        \<longrightarrow> (case EVP_CIPHER_CTX_get_params evp e [p] of (ok, e', ps) \<Rightarrow>
               sint ok > 0 \<and> ps = [p\<lparr>data := Some (session_tag g s), return_size := 16\<rparr>]))
   \<and> (\<forall>e s p t. view e = Running s \<and> \<not> gs_encrypt s \<and> tag_slot p t
        \<longrightarrow> (case EVP_CIPHER_CTX_set_params evp e [p] of (ok, e') \<Rightarrow>
               sint ok > 0 \<and> view e' = Running (s\<lparr>gs_tag := Some t\<rparr>)))"

definition gcm_documented :: "gcm \<Rightarrow> bool" where
  "gcm_documented g \<longleftrightarrow> (\<forall>k n a c. length (authenticate g k n a c) = 16)"

definition evp_documented ::
  "('lib, 'ciph, 'ectx) evp_api \<Rightarrow> gcm \<Rightarrow> ('ectx \<Rightarrow> evp_view) \<Rightarrow> ('ciph \<Rightarrow> bool) \<Rightarrow> bool" where
  "evp_documented evp g view is_gcm \<longleftrightarrow>
     gcm_documented g \<and> evp_fetches evp is_gcm \<and> evp_starts evp view is_gcm
   \<and> evp_binds evp view is_gcm \<and> evp_takes_aad evp view \<and> evp_takes_data evp g view
   \<and> evp_finishes evp g view \<and> evp_tags evp g view"

lemma evp_documentedD:
  assumes "evp_documented evp g view is_gcm"
  shows "gcm_documented g" "evp_fetches evp is_gcm" "evp_starts evp view is_gcm"
    "evp_binds evp view is_gcm" "evp_takes_aad evp view" "evp_takes_data evp g view"
    "evp_finishes evp g view" "evp_tags evp g view"
  using assms by (simp_all add: evp_documented_def)


section \<open>The documented behaviour is consistent\<close>

text \<open>
  An EVP interface that behaves so: it processes the \<open>inl\<close> bytes it is told to, keeps to the
  limits of GCM, and refuses a NULL cipher on a context that has none, a cipher it does not
  know, associated data after data, and anything after the end of a message. A context is
  what it is doing.
\<close>

definition ref_init ::
  "evp_view \<Rightarrow> string option \<Rightarrow> bytes option \<Rightarrow> bytes option \<Rightarrow> bool \<Rightarrow> ossl_params \<Rightarrow> cint \<times> evp_view" where
  "ref_init e ciph k n enc ps =
     (if ciph = None \<and> e = Unbound \<or> ciph \<noteq> None \<and> ciph \<noteq> Some ''AES-256-GCM'' then (0, e)
      else case (k, n) of
          (Some kb, Some nb) \<Rightarrow>
            if length kb = 32 \<and> length nb = 12 then (1, Running (new_session kb nb enc)) else (0, Bound)
        | _ \<Rightarrow> (1, Bound))"

definition ref_update ::
  "gcm \<Rightarrow> evp_view \<Rightarrow> bytes option \<Rightarrow> cint \<Rightarrow> bytes option \<Rightarrow> cint
   \<Rightarrow> cint \<times> evp_view \<times> bytes option \<times> cint" where
  "ref_update g e out outl in_buf inl =
     (case (e, in_buf) of
        (Running s, Some b) \<Rightarrow>
          let m = nat (sint inl); d = take m b in
          if sint inl < 0 \<or> length b < m then (0, e, out, outl)
          else (case out of
             None \<Rightarrow>
               if gs_text s \<noteq> [] \<or> GCM_MAX_AAD < length (gs_aad s) + m then (0, e, None, outl)
               else (1, Running (s\<lparr>gs_aad := gs_aad s @ d\<rparr>), None, inl)
           | Some buf \<Rightarrow>
               if GCM_MAX_DATA < length (gs_text s) + m then (0, e, out, outl)
               else (1, Running (session_data g s d), Some (memcpy buf (session_stream g s d) m), inl))
      | _ \<Rightarrow> (0, e, out, outl))"

definition ref_final ::
  "gcm \<Rightarrow> evp_view \<Rightarrow> bytes option \<Rightarrow> cint \<Rightarrow> cint \<times> evp_view \<times> bytes option \<times> cint" where
  "ref_final g e out outl =
     (case e of
        Running s \<Rightarrow>
          if gs_encrypt s \<or> gs_tag s = Some (session_tag g s) then (1, Finished s, out, 0)
          else (0, Bound, out, outl)
      | _ \<Rightarrow> (0, e, out, outl))"

definition ref_get :: "gcm \<Rightarrow> evp_view \<Rightarrow> ossl_params \<Rightarrow> cint \<times> evp_view \<times> ossl_params" where
  "ref_get g e ps =
     (case e of
        Finished s \<Rightarrow>
          if gs_encrypt s
          then (1, e, map (\<lambda>p. if key p = OSSL_CIPHER_PARAM_AEAD_TAG
                  then p\<lparr>data := Some (session_tag g s), return_size := 16\<rparr> else p) ps)
          else (0, e, ps)
      | _ \<Rightarrow> (0, e, ps))"

definition ref_set :: "evp_view \<Rightarrow> ossl_params \<Rightarrow> cint \<times> evp_view" where
  "ref_set e ps =
     (case (e, List.find (\<lambda>p. key p = OSSL_CIPHER_PARAM_AEAD_TAG) ps) of
        (Running s, Some p) \<Rightarrow>
          if gs_encrypt s then (0, e) else (1, Running (s\<lparr>gs_tag := data p\<rparr>))
      | _ \<Rightarrow> (1, e))"

definition ref_evp :: "gcm \<Rightarrow> (string, string, evp_view) evp_api" where
  "ref_evp g =
     \<lparr>EVP_zalloc_ok = True,
      EVP_CIPHER_fetch = (\<lambda>lib name props. if name = ''AES-256-GCM'' then Some name else None),
      EVP_CIPHER_CTX_new = Some Unbound, EVP_CipherInit_ex2 = ref_init,
      EVP_CipherUpdate = ref_update g, EVP_CipherFinal_ex = ref_final g,
      EVP_CIPHER_CTX_get_params = ref_get g, EVP_CIPHER_CTX_set_params = ref_set\<rparr>"

text \<open>A key stream and a tag function to compute with.\<close>

definition toy_gcm :: gcm where
  "toy_gcm =
     \<lparr>keystream = (\<lambda>k n i. fold Bit_Operations.xor (k @ n) 0 + of_nat i),
      authenticate = (\<lambda>k n a c. replicate 16 (fold (\<lambda>b s. 3 * s + b) (k @ n @ a @ c) 0))\<rparr>"

lemma toy_gcm_documented: "gcm_documented toy_gcm"
  by (simp add: gcm_documented_def toy_gcm_def)

abbreviation names_gcm :: "string \<Rightarrow> bool" where
  "names_gcm c \<equiv> c = ''AES-256-GCM''"

lemma ref_evp_clauses:
  "evp_fetches (ref_evp g) names_gcm" "evp_starts (ref_evp g) id names_gcm"
  "evp_binds (ref_evp g) id names_gcm" "evp_takes_aad (ref_evp g) id"
  "evp_takes_data (ref_evp g) g id" "evp_finishes (ref_evp g) g id" "evp_tags (ref_evp g) g id"
proof -
  show "evp_fetches (ref_evp g) names_gcm" by (simp add: evp_fetches_def ref_evp_def)
  show "evp_starts (ref_evp g) id names_gcm"
    by (auto simp: evp_starts_def ref_evp_def ref_init_def split: option.splits)
  show "evp_binds (ref_evp g) id names_gcm"
    by (auto simp: evp_binds_def ref_evp_def ref_init_def ref_update_def ref_final_def ref_get_def
        ref_set_def Let_def split: option.splits evp_view.splits)
  show "evp_takes_aad (ref_evp g) id"
    by (auto simp: evp_takes_aad_def ref_evp_def ref_update_def Let_def)
  show "evp_takes_data (ref_evp g) g id"
    by (auto simp: evp_takes_data_def ref_evp_def ref_update_def Let_def)
  show "evp_finishes (ref_evp g) g id"
    by (auto simp: evp_finishes_def ref_evp_def ref_final_def)
  show "evp_tags (ref_evp g) g id"
    by (auto simp: evp_tags_def ref_evp_def ref_get_def ref_set_def tag_slot_def)
qed

lemma ref_evp_documented:
  "gcm_documented g \<Longrightarrow> evp_documented (ref_evp g) g id names_gcm"
  by (simp add: evp_documented_def ref_evp_clauses)


section \<open>Records through the adapter\<close>

text \<open>
  What g301_inner_evp.c makes of such an EVP interface. \<open>evp_inv\<close> is what the adapter keeps
  of an inner context: once it is initialized, its EVP context has a cipher.
\<close>

definition evp_inv ::
  "('ectx \<Rightarrow> evp_view) \<Rightarrow> ('ciph \<Rightarrow> bool) \<Rightarrow> ('ciph, 'ectx) G301_EVP_INNER_CTX \<Rightarrow> bool" where
  "evp_inv view is_gcm i \<longleftrightarrow>
     is_gcm (cipher i) \<and> (initialized i \<longrightarrow> view (cipher_ctx i) \<noteq> Unbound)"

lemma evp_bindsD:
  assumes "evp_binds evp view is_gcm"
  shows "is_gcm c \<Longrightarrow> sint (fst (EVP_CipherInit_ex2 evp e (Some c) k n enc ps)) > 0
      \<Longrightarrow> view (snd (EVP_CipherInit_ex2 evp e (Some c) k n enc ps)) \<noteq> Unbound"
    and "view e \<noteq> Unbound \<Longrightarrow> view (snd (EVP_CipherInit_ex2 evp e None k n enc ps)) \<noteq> Unbound"
    and "view e \<noteq> Unbound \<Longrightarrow> view (fst (snd (EVP_CipherUpdate evp e out z b m))) \<noteq> Unbound"
    and "view e \<noteq> Unbound \<Longrightarrow> view (fst (snd (EVP_CipherFinal_ex evp e out z))) \<noteq> Unbound"
    and "view e \<noteq> Unbound \<Longrightarrow> view (fst (snd (EVP_CIPHER_CTX_get_params evp e ps))) \<noteq> Unbound"
    and "view e \<noteq> Unbound \<Longrightarrow> view (snd (EVP_CIPHER_CTX_set_params evp e ps)) \<noteq> Unbound"
  using assms by (simp_all add: evp_binds_def)

lemma adapter_inv:
  assumes "evp_binds evp view is_gcm" "evp_inv view is_gcm i"
  shows "evp_inv view is_gcm (inner_step (g301_evp_inner_ops evp) i call)"
proof (cases call)
  case (Inner_init k n enc ps)
  show ?thesis
    using assms(2) evp_bindsD(1,2) [OF assms(1), where e = "cipher_ctx i" and k = k and n = n
        and enc = enc and ps = ps]
    by (cases "initialized i")
       (simp_all add: Inner_init evp_inv_def g301_evp_inner_ops_def g301_evp_init_def Let_def split_beta)
qed (use assms(2) evp_bindsD(3-) [OF assms(1)] in
     \<open>simp_all add: evp_inv_def g301_evp_inner_ops_def split_beta Let_def g301_evp_update_def
       g301_evp_final_def g301_evp_get_params_def g301_evp_set_params_def\<close>)

lemma chunk_cint:
  assumes "chunk_ok b"
  shows "sint (ucast (chunk_len b) :: cint) = int (length b)" "0 < length b"
proof -
  have "uint (chunk_len b) = int (length b)"
    using assms by (simp add: chunk_len_def chunk_ok_def unsigned_of_nat take_bit_nat_eq_self_iff)
  then show "sint (ucast (chunk_len b) :: cint) = int (length b)"
    using sint_ucast_size [OF chunk_len_ok(2) [OF assms]] by simp
  show "0 < length b" using assms by (simp add: chunk_ok_def)
qed

lemma evp_startsD:
  assumes "evp_starts evp view is_gcm" "length k = 32" "length n = 12"
    and "case ciph of None \<Rightarrow> view e \<noteq> Unbound | Some c \<Rightarrow> is_gcm c"
  shows "sint (fst (EVP_CipherInit_ex2 evp e ciph (Some k) (Some n) enc [])) > 0"
    and "view (snd (EVP_CipherInit_ex2 evp e ciph (Some k) (Some n) enc [])) = Running (new_session k n enc)"
  using assms unfolding evp_starts_def by (auto simp: split_beta)

lemma adapter_init:
  assumes "evp_starts evp view is_gcm" "evp_inv view is_gcm i" "length k = 32" "length n = 12"
  shows "\<exists>i'. init (g301_evp_inner_ops evp) i (Some k) (Some n) enc [] = (True, i')
    \<and> view (cipher_ctx i') = Running (new_session k n enc)"
proof -
  have "case (if initialized i then None else Some (cipher i)) of
      None \<Rightarrow> view (cipher_ctx i) \<noteq> Unbound | Some c \<Rightarrow> is_gcm c"
    using assms(2) by (simp add: evp_inv_def)
  note s = evp_startsD [OF assms(1,3,4) this, of enc]
  show ?thesis using s by (simp add: g301_evp_inner_ops_def g301_evp_init_def Let_def split_beta)
qed

lemma adapter_aad:
  assumes "evp_takes_aad evp view" "list_all chunk_ok as" "view (cipher_ctx i) = Running s"
    and "gs_text s = []" "length (gs_aad s @ concat as) \<le> GCM_MAX_AAD"
  shows "\<exists>i'. inner_aad (g301_evp_inner_ops evp) i as = Some i'
    \<and> view (cipher_ctx i') = Running (s\<lparr>gs_aad := gs_aad s @ concat as\<rparr>)"
  using assms(2-)
proof (induction as arbitrary: i s)
  case Nil
  then show ?case by simp
next
  case (Cons a as)
  let ?m = "ucast (chunk_len a) :: cint"
  have m: "sint ?m = int (length a)" "0 < length a" using chunk_cint Cons.prems(1) by simp_all
  obtain ok e out z where r: "EVP_CipherUpdate evp (cipher_ctx i) None 0 (Some a) ?m = (ok, e, out, z)"
    using prod_cases4 by blast
  have "sint ok > 0 \<and> z = ?m \<and> out = None \<and> view e = Running (s\<lparr>gs_aad := gs_aad s @ a\<rparr>)"
    using assms(1) [unfolded evp_takes_aad_def, rule_format, of "cipher_ctx i" s ?m a 0] Cons.prems m r
    by simp
  then have "inner_chunk (g301_evp_inner_ops evp) i None a = Some (i\<lparr>cipher_ctx := e\<rparr>, None)"
    and v: "view (cipher_ctx (i\<lparr>cipher_ctx := e\<rparr>)) = Running (s\<lparr>gs_aad := gs_aad s @ a\<rparr>)"
    using r by (simp_all add: inner_chunk_def g301_evp_inner_ops_def g301_evp_update_def)
  then show ?case using Cons.IH [OF _ v] Cons.prems by simp
qed

lemma session_data_append:
  "session_data g (session_data g s d) e = session_data g s (d @ e)"
  "session_stream g (session_data g s d) e
     = apply_stream (keystream g (gs_key s) (gs_nonce s)) (length (gs_text s) + length d) e"
  by (simp_all add: session_data_def session_stream_def apply_stream_append)

lemma adapter_data:
  assumes "evp_takes_data evp g view" "list_all chunk_ok bs" "view (cipher_ctx i) = Running s"
    and "length (gs_text s @ concat bs) \<le> GCM_MAX_DATA"
  shows "\<exists>i' outs. inner_data (g301_evp_inner_ops evp) i bs = Some (i', outs)
    \<and> concat outs = session_stream g s (concat bs)
    \<and> view (cipher_ctx i') = Running (session_data g s (concat bs))"
  using assms(2-)
proof (induction bs arbitrary: i s)
  case Nil
  then show ?case by (simp add: session_stream_def session_data_def)
next
  case (Cons b bs)
  let ?m = "ucast (chunk_len b) :: cint"
  have m: "sint ?m = int (length b)" "0 < length b" using chunk_cint Cons.prems(1) by simp_all
  obtain ok e out z where
    r: "EVP_CipherUpdate evp (cipher_ctx i) (Some (zeros b)) 0 (Some b) ?m = (ok, e, out, z)"
    using prod_cases4 by blast
  have "sint ok > 0 \<and> z = ?m \<and> out = Some (session_stream g s b) \<and> view e = Running (session_data g s b)"
    using assms(1) [unfolded evp_takes_data_def, rule_format, of "cipher_ctx i" s ?m b "zeros b" 0]
      Cons.prems m r
    by (simp add: zeros_def session_stream_def)
  then have c: "inner_chunk (g301_evp_inner_ops evp) i (Some (zeros b)) b
        = Some (i\<lparr>cipher_ctx := e\<rparr>, Some (session_stream g s b))"
    and v: "view (cipher_ctx (i\<lparr>cipher_ctx := e\<rparr>)) = Running (session_data g s b)"
    using r by (simp_all add: inner_chunk_def g301_evp_inner_ops_def g301_evp_update_def)
  have "length (gs_text (session_data g s b) @ concat bs) \<le> GCM_MAX_DATA"
    using Cons.prems(3) by (simp add: session_data_def session_stream_def)
  then obtain i' outs where
    "inner_data (g301_evp_inner_ops evp) (i\<lparr>cipher_ctx := e\<rparr>) bs = Some (i', outs)"
    "concat outs = session_stream g (session_data g s b) (concat bs)"
    "view (cipher_ctx i') = Running (session_data g (session_data g s b) (concat bs))"
    using Cons.IH [OF _ v] Cons.prems(1) by auto
  then show ?case
    using c by (simp add: session_data_append) (simp add: session_stream_def apply_stream_append)
qed

text \<open>A message of the adapter: what it outputs, and what is left to be finished.\<close>

lemma adapter_message:
  assumes "evp_documented evp g view is_gcm" "list_all chunk_ok as" "list_all chunk_ok bs"
    and "view (cipher_ctx i) = Running s" "gs_aad s = []" "gs_text s = []"
    and "length (concat as) \<le> GCM_MAX_AAD" "length (concat bs) \<le> GCM_MAX_DATA"
  shows "\<exists>i' outs. inner_stream (g301_evp_inner_ops evp) i as bs
      = Option.bind (inner_finish (g301_evp_inner_ops evp) i') (\<lambda>i3. Some (i3, outs))
    \<and> concat outs = session_stream g s (concat bs)
    \<and> view (cipher_ctx i') = Running (session_data g (s\<lparr>gs_aad := concat as\<rparr>) (concat bs))"
proof -
  note doc = evp_documentedD [OF assms(1)]
  obtain i1 where i1: "inner_aad (g301_evp_inner_ops evp) i as = Some i1"
    "view (cipher_ctx i1) = Running (s\<lparr>gs_aad := concat as\<rparr>)"
    using adapter_aad [OF doc(5) assms(2,4,6)] assms(5,7) by auto
  obtain i2 outs where "inner_data (g301_evp_inner_ops evp) i1 bs = Some (i2, outs)"
    "concat outs = session_stream g (s\<lparr>gs_aad := concat as\<rparr>) (concat bs)"
    "view (cipher_ctx i2) = Running (session_data g (s\<lparr>gs_aad := concat as\<rparr>) (concat bs))"
    using adapter_data [OF doc(6) assms(3) i1(2)] assms(6,8) by auto
  then show ?thesis using i1(1) by (auto simp: inner_stream_def session_stream_def)
qed

text \<open>Sealing with the adapter is GCM.\<close>

definition gcm_fits :: "bytes \<Rightarrow> bytes \<Rightarrow> bool" where
  "gcm_fits a p \<longleftrightarrow> length a \<le> GCM_MAX_AAD \<and> length p \<le> GCM_MAX_DATA"

lemma adapter_stream_seals:
  assumes "evp_documented evp g view is_gcm" "evp_inv view is_gcm i" "length k = 32" "length n = 12"
    and "list_all chunk_ok as" "list_all chunk_ok bs" "gcm_fits (concat as) (concat bs)"
  shows "\<exists>i1 i2 outs. init (g301_evp_inner_ops evp) i (Some k) (Some n) True [] = (True, i1)
    \<and> inner_stream (g301_evp_inner_ops evp) i1 as bs = Some (i2, outs)
    \<and> concat outs = fst (gcm_seal g k n (concat as) (concat bs))
    \<and> view (cipher_ctx i2) = Finished (session_data g ((new_session k n True)\<lparr>gs_aad := concat as\<rparr>) (concat bs))"
proof -
  note doc = evp_documentedD [OF assms(1)]
  let ?s = "session_data g ((new_session k n True)\<lparr>gs_aad := concat as\<rparr>) (concat bs)"
  obtain i1 where i1: "init (g301_evp_inner_ops evp) i (Some k) (Some n) True [] = (True, i1)"
    "view (cipher_ctx i1) = Running (new_session k n True)"
    using adapter_init [OF doc(3) assms(2-4)] by blast
  obtain i2 outs where i2: "inner_stream (g301_evp_inner_ops evp) i1 as bs
      = Option.bind (inner_finish (g301_evp_inner_ops evp) i2) (\<lambda>i3. Some (i3, outs))"
    "concat outs = session_stream g (new_session k n True) (concat bs)"
    "view (cipher_ctx i2) = Running ?s"
    using adapter_message [OF assms(1,5,6) i1(2)] assms(7)
    by (auto simp: new_session_def gcm_fits_def)
  obtain ok e out z where
    f: "EVP_CipherFinal_ex evp (cipher_ctx i2) (Some (replicate 32 0)) 0 = (ok, e, out, z)"
    using prod_cases4 by blast
  have "sint ok > 0 \<and> z = 0 \<and> view e = Finished ?s"
    using doc(7) [unfolded evp_finishes_def, rule_format, of "cipher_ctx i2" ?s
        "Some (replicate 32 0)" 0] i2(3) f
    by (simp add: session_data_def new_session_def)
  then have "inner_finish (g301_evp_inner_ops evp) i2 = Some (i2\<lparr>cipher_ctx := e\<rparr>)"
    and "view (cipher_ctx (i2\<lparr>cipher_ctx := e\<rparr>)) = Finished ?s"
    using f by (simp_all add: inner_finish_def g301_evp_inner_ops_def g301_evp_final_def)
  then show ?thesis
    using i1(1) i2(1,2)
    by (simp add: gcm_seal_def Let_def) (simp add: session_stream_def new_session_def)
qed

lemma tag_request_slot:
  assumes "params_documented api"
  shows "tag_slot (tag_request api) (replicate 16 0)"
    "length t = 16 \<Longrightarrow> tag_slot (tag_param api t) t"
  by (simp_all add: tag_slot_def tag_request_def tag_param_def G301_TAG_LENGTH_def
      params_documentedD(9) [OF assms])

lemma adapter_seals:
  assumes "evp_documented evp g view is_gcm" "evp_inv view is_gcm i" "params_documented api"
    and "length k = 32" "length n = 12"
    and "list_all chunk_ok as" "list_all chunk_ok bs" "gcm_fits (concat as) (concat bs)"
  shows "direct_seal api (g301_evp_inner_ops evp) i k n as bs
    = Some (gcm_seal g k n (concat as) (concat bs))"
proof -
  note doc = evp_documentedD [OF assms(1)]
  let ?s = "session_data g ((new_session k n True)\<lparr>gs_aad := concat as\<rparr>) (concat bs)"
  obtain i1 i2 outs where s: "init (g301_evp_inner_ops evp) i (Some k) (Some n) True [] = (True, i1)"
    "inner_stream (g301_evp_inner_ops evp) i1 as bs = Some (i2, outs)"
    "concat outs = fst (gcm_seal g k n (concat as) (concat bs))"
    "view (cipher_ctx i2) = Finished ?s"
    using adapter_stream_seals [OF assms(1,2,4-8)] by blast
  have tag: "session_tag g ?s = snd (gcm_seal g k n (concat as) (concat bs))"
    by (simp add: session_tag_def session_data_def session_stream_def new_session_def gcm_seal_def Let_def)
  have len: "length (session_tag g ?s) = 16"
    using doc(1) by (simp add: session_tag_def gcm_documented_def)
  obtain ok e ps where
    g: "EVP_CIPHER_CTX_get_params evp (cipher_ctx i2) [tag_request api] = (ok, e, ps)"
    using prod_cases3 by blast
  have "gs_encrypt ?s" by (simp add: session_data_def new_session_def)
  then have "sint ok > 0 \<and> ps = [(tag_request api)\<lparr>data := Some (session_tag g ?s), return_size := 16\<rparr>]"
    using doc(8) [unfolded evp_tags_def, THEN conjunct1, rule_format, of "cipher_ctx i2" ?s "tag_request api"]
      s(4) g tag_request_slot(1) [OF assms(3)] by auto
  then have "inner_tag api (g301_evp_inner_ops evp) i2 = Some (session_tag g ?s)"
    using g len by (simp add: inner_tag_def g301_evp_inner_ops_def g301_evp_get_params_def)
  then show ?thesis using s(1-3) tag by (simp add: direct_seal_def)
qed

text \<open>Opening with the adapter is checking the tag of GCM.\<close>

lemma adapter_opens:
  assumes "evp_documented evp g view is_gcm" "evp_inv view is_gcm i" "params_documented api"
    and "length k = 32" "length n = 12" "length t = 16"
    and "list_all chunk_ok as" "list_all chunk_ok cts" "gcm_fits (concat as) (concat cts)"
  shows "direct_open api (g301_evp_inner_ops evp) i k n t as cts = Some p
    \<longleftrightarrow> gcm_seal g k n (concat as) p = (concat cts, t)"
proof -
  note doc = evp_documentedD [OF assms(1)]
  let ?s = "(new_session k n False)\<lparr>gs_tag := Some t\<rparr>"
  let ?f = "session_data g (?s\<lparr>gs_aad := concat as\<rparr>) (concat cts)"
  obtain i1 where i1: "init (g301_evp_inner_ops evp) i (Some k) (Some n) False [] = (True, i1)"
    "view (cipher_ctx i1) = Running (new_session k n False)"
    using adapter_init [OF doc(3) assms(2,4,5)] by blast
  obtain ok e where st: "EVP_CIPHER_CTX_set_params evp (cipher_ctx i1) [tag_param api t] = (ok, e)"
    by fastforce
  have set: "sint ok > 0 \<and> view e = Running ?s"
    using doc(8) [unfolded evp_tags_def, THEN conjunct2, rule_format, of "cipher_ctx i1"
        "new_session k n False" "tag_param api t" t] i1(2) st tag_request_slot(2) [OF assms(3,6)]
    by (auto simp: new_session_def)
  let ?i2 = "i1\<lparr>cipher_ctx := e\<rparr>"
  have i2: "set_params (g301_evp_inner_ops evp) i1 [tag_param api t] = (True, ?i2)"
      "view (cipher_ctx ?i2) = Running ?s"
    using st set by (simp_all add: g301_evp_inner_ops_def g301_evp_set_params_def)
  obtain i3 outs where i3: "inner_stream (g301_evp_inner_ops evp) ?i2 as cts
      = Option.bind (inner_finish (g301_evp_inner_ops evp) i3) (\<lambda>i4. Some (i4, outs))"
    "concat outs = session_stream g ?s (concat cts)" "view (cipher_ctx i3) = Running ?f"
    using adapter_message [OF assms(1,7,8) i2(2)] assms(9) by (auto simp: new_session_def gcm_fits_def)
  obtain okf ef out z where
    f: "EVP_CipherFinal_ex evp (cipher_ctx i3) (Some (replicate 32 0)) 0 = (okf, ef, out, z)"
    using prod_cases4 by blast
  have "(sint okf > 0 \<longleftrightarrow> t = session_tag g ?f) \<and> (sint okf > 0 \<longrightarrow> z = 0)"
    using doc(7) [unfolded evp_finishes_def, rule_format, of "cipher_ctx i3" ?f
        "Some (replicate 32 0)" 0] i3(3) f
    by (simp add: session_data_def new_session_def)
  then have fin: "inner_finish (g301_evp_inner_ops evp) i3
      = (if t = session_tag g ?f then Some (i3\<lparr>cipher_ctx := ef\<rparr>) else None)"
    using f by (auto simp: inner_finish_def g301_evp_inner_ops_def g301_evp_final_def)
  have tag: "session_tag g ?f = authenticate g k n (concat as) (concat cts)"
    by (simp add: session_tag_def session_data_def new_session_def)
  have "direct_open api (g301_evp_inner_ops evp) i k n t as cts
      = (if t = authenticate g k n (concat as) (concat cts)
         then Some (apply_stream (keystream g k n) 0 (concat cts)) else None)"
    using i1(1) i2(1) i3(1,2) fin tag
    by (simp add: direct_open_def) (simp add: session_stream_def new_session_def)
  then show ?thesis by (auto simp: gcm_seal_def Let_def apply_stream_iff)
qed

section \<open>The inner context of a cipher context\<close>

text \<open>
  The provider works on an inner context only through the operations of the table: after any
  call it is where some inner calls have taken it.
\<close>

definition inner_reaches :: "('a, 'i) G301_INNER_OPS \<Rightarrow> 'i \<Rightarrow> 'i \<Rightarrow> bool" where
  "inner_reaches iops i j \<longleftrightarrow> (\<exists>calls. j = run_steps (inner_step iops) i calls)"

lemma inner_reaches_refl [simp]: "inner_reaches iops i i"
  unfolding inner_reaches_def by (rule exI [of _ "[]"]) simp

lemma inner_reaches_trans [trans]:
  "inner_reaches iops i j \<Longrightarrow> inner_reaches iops j m \<Longrightarrow> inner_reaches iops i m"
  by (auto simp: inner_reaches_def run_steps_append [symmetric])

lemma inner_reaches_step: "j = inner_step iops i call \<Longrightarrow> inner_reaches iops i j"
  unfolding inner_reaches_def by (rule exI [of _ "[call]"]) simp

lemma inject_reaches: "inner_reaches (ops c) (inner c) (inner (snd (g301_inject_manifest env c)))"
  by (auto simp: inject_inner manifest_update_def
      intro: inner_reaches_step [where call = "Inner_update None 0 (Some g301_manifest) 32"])

lemma update_reaches:
  assumes "g301_cipher_update env (Some c) out outl outsize in_buf inl = (r, Some c', out', outl')"
  shows "inner_reaches (ops c) (inner c) (inner c')"
proof (cases outl)
  case None
  with assms show ?thesis by simp
next
  case (Some v)
  let ?d = "snd (g301_inject_manifest env c)"
  have call: "inner_reaches (ops c) (inner ?d) (fst (snd (caller_update ?d out in_buf inl)))"
    by (rule inner_reaches_step [where call = "Inner_update out 0 in_buf (ucast inl)"])
       (simp add: caller_update_def)
  note data = inner_reaches_trans [OF inject_reaches call]
  show ?thesis
    using assms data inject_reaches [of c env] unfolding Some
    by (cases rule: update_cases [of c out outsize in_buf inl env v]) (auto split: if_splits)
qed

lemma final_reaches:
  assumes "g301_cipher_final env (Some c) out outl outsize = (r, Some c', outl')"
  shows "inner_reaches (ops c) (inner c) (inner c')"
proof (cases outl)
  case None
  with assms show ?thesis by (auto simp: final_no_outl)
next
  case (Some v)
  let ?d = "snd (g301_inject_manifest env c)"
  have call: "inner_reaches (ops c) (inner ?d) (fst (snd (inner_final ?d)))"
    by (rule inner_reaches_step [where call = "Inner_final (Some (replicate 32 0)) 0"])
       (simp add: inner_final_def)
  note fin = inner_reaches_trans [OF inject_reaches call]
  show ?thesis
    using assms fin inject_reaches [of c env] unfolding Some
    by (cases rule: final_cases [of c env out v outsize]) (auto simp: after_final_def)
qed

lemma init_reaches:
  assumes "good c" "g301_init api env (Some c) k keylen iv ivlen params e = (r, Some c')"
  shows "inner_reaches (ops c) (inner c) (inner c')"
proof (cases "init_accepts api c k keylen iv ivlen params e")
  case True
  show ?thesis
    unfolding init_acceptedD(2) [OF assms(2) True] accepted_commit_def
    by (rule inner_reaches_step [where call = "Inner_init k iv e
          (filtered_init_params api (locate_opt api params OSSL_CIPHER_PARAM_IVLEN)
             (locate_opt api params OSSL_CIPHER_PARAM_AEAD_TAG))"]) simp
next
  case False
  then show ?thesis
    using init_rejectedD(2) [OF assms(2) False] assms(1) by (simp add: ctx_wf_def)
qed

lemma get_tag_reaches:
  assumes "g301_get_encryption_tag api c p = (r, c', p')"
  shows "inner_reaches (ops c) (inner c) (inner c')"
proof -
  let ?q = "OSSL_PARAM_construct_octet_string api OSSL_CIPHER_PARAM_AEAD_TAG
      (Some (replicate (unat G301_TAG_LENGTH) 0)) G301_TAG_LENGTH"
  have "inner_reaches (ops c) (inner c) (fst (snd (get_params (ops c) (inner c) [?q])))"
    by (rule inner_reaches_step [where call = "Inner_get [?q]"]) simp
  then show ?thesis
    using assms
    by (auto simp: g301_get_encryption_tag_def Let_def split_beta
        split: if_splits option.splits list.splits)
qed

lemma get_ctx_reaches:
  assumes "g301_cipher_get_ctx_params api (Some c) params = (r, Some c', ps')"
  shows "inner_reaches (ops c) (inner c) (inner c')"
proof -
  have "(\<exists>reason. c' = g301_raise_error c reason) \<or> c' = c
      \<or> (\<exists>p r' p'. g301_get_encryption_tag api c p = (r', c', p'))"
    using assms
    by (auto simp: g301_cipher_get_ctx_params_def Let_def split_beta prod_eq_iff
        split: option.splits if_splits)
  then show ?thesis by (elim exE disjE) (auto dest: get_tag_reaches)
qed

lemma set_ctx_reaches:
  assumes "g301_cipher_set_ctx_params api (Some c) params = (r, Some c')"
  shows "inner_reaches (ops c) (inner c) (inner c')"
proof (cases params)
  case None
  with assms show ?thesis by auto
next
  case (Some ps)
  have "inner_reaches (ops c) (inner c) (snd (tag_update api c ps))"
    unfolding tag_update_def
    by (rule inner_reaches_step [where call = "Inner_set _"]) simp
  then show ?thesis using assms by (auto simp: Some set_ctx_unfold split: if_splits)
qed

lemma step_reaches:
  assumes "good c"
  shows "inner_reaches (ops c) (inner c) (inner (cipher_step api c e))"
proof -
  have "inner_reaches (ops c) (inner c) (inner (cipher_step api c (fst e, snd e)))"
  proof (cases rule: step_cases [of api "fst e" c "snd e"])
    case initialise
    show ?thesis by (rule init_reaches [OF assms initialise(1)])
  next
    case update
    show ?thesis by (rule update_reaches [OF update(2)])
  next
    case final
    show ?thesis by (rule final_reaches [OF final(2)])
  next
    case get_params
    show ?thesis by (rule get_ctx_reaches [OF get_params(2)])
  next
    case set_params
    show ?thesis by (rule set_ctx_reaches [OF set_params(2)])
  qed
  then show ?thesis by simp
qed

lemma run_reaches:
  assumes "good c" "list_all call_ok es"
  shows "inner_reaches (ops c) (inner c) (inner (run_steps (cipher_step api) c es))"
  using assms
proof (induction es arbitrary: c)
  case (Cons e es)
  have "good (cipher_step api c e)" using step_good [OF Cons.prems(1), of e api] Cons.prems(2) by simp
  then have "inner_reaches (ops (cipher_step api c e)) (inner (cipher_step api c e))
      (inner (run_steps (cipher_step api) (cipher_step api c e) es))"
    using Cons by simp
  then show ?case using inner_reaches_trans [OF step_reaches [OF Cons.prems(1)]] by (simp add: step_fixed)
qed simp

section \<open>Contexts of the provider\<close>

text \<open>
  A context that \<open>newctx\<close> made over the EVP adapter, after any history of calls. Its inner
  context satisfies what the adapter keeps.
\<close>

interpretation adapter: step_invariant "inner_step (g301_evp_inner_ops evp)" "\<lambda>_. True"
    "\<lambda>i. evp_binds evp view is_gcm \<and> evp_inv view is_gcm i"
  by unfold_locales (simp add: adapter_inv)

definition provider_context ::
  "ossl_param_api \<Rightarrow> ('lib, 'ciph, 'ectx) evp_api
   \<Rightarrow> ('lib, ('ciph, 'ectx) G301_EVP_INNER_CTX, 'h) G301_CIPHER_CTX \<Rightarrow> bool" where
  "provider_context api evp c \<longleftrightarrow>
     (\<exists>aenv p l c0 l' es. inner_ops p = Some (g301_evp_inner_ops evp)
        \<and> g301_cipher_newctx aenv (Some p) l = (Some c0, l')
        \<and> list_all call_ok es \<and> c = run_steps (cipher_step api) c0 es)"

lemma newctx_inner:
  assumes "g301_cipher_newctx aenv (Some p) l = (Some c, l')" "inner_ops p = Some iops"
  shows "ops c = iops" "\<exists>m m'. newctx iops (inner_arg p) m = (Some (inner c), m')"
proof -
  have "ops c = iops \<and> (\<exists>m. fst (newctx iops (inner_arg p) m) = Some (inner c))"
    using assms
    by (auto simp: g301_cipher_newctx_def Let_def split_beta split: if_splits option.splits)
  then show "ops c = iops" "\<exists>m m'. newctx iops (inner_arg p) m = (Some (inner c), m')"
    by (auto intro: prod_eqI) (metis prod.collapse)
qed

lemma newctx_evp_inv:
  assumes "g301_cipher_newctx aenv (Some p) l = (Some c, l')" "inner_ops p = Some (g301_evp_inner_ops evp)"
    and "evp_fetches evp is_gcm"
  shows "evp_inv view is_gcm (inner c)"
proof -
  obtain m m' where "g301_evp_newctx evp (inner_arg p) m = (Some (inner c), m')"
    using newctx_inner(2) [OF assms(1,2)] by (auto simp: g301_evp_inner_ops_def)
  then have "EVP_CIPHER_fetch evp (inner_arg p) ''AES-256-GCM'' ''provider=default'' = Some (cipher (inner c))"
    "\<not> initialized (inner c)"
    by (auto simp: evp_newctx_cases split: option.splits bool.splits dest!: sym [of _ "inner c"])
  then show ?thesis using assms(3) by (auto simp: evp_inv_def evp_fetches_def)
qed

lemma provider_contextD:
  assumes "provider_context api evp c"
  shows "good c" "ops c = g301_evp_inner_ops evp" "sint (record_limit c) = 23680450"
    and "evp_documented evp g view is_gcm \<Longrightarrow> evp_inv view is_gcm (inner c)"
proof -
  obtain aenv p l c0 l' es where p: "inner_ops p = Some (g301_evp_inner_ops evp)"
      "g301_cipher_newctx aenv (Some p) l = (Some c0, l')" "list_all call_ok es"
      "c = run_steps (cipher_step api) c0 es"
    using assms unfolding provider_context_def by blast
  note g0 = newctx_good [OF p(2)]
  show "good c" unfolding p(4) by (rule good_steps.run_inv [OF g0 p(3)])
  have o: "ops c0 = g301_evp_inner_ops evp" using newctx_inner(1) [OF p(2,1)] .
  then show "ops c = g301_evp_inner_ops evp" by (simp add: p(4))
  show "sint (record_limit c) = 23680450"
    using newctx_fields(11) [OF p(2)] by (simp add: p(4))
  show "evp_inv view is_gcm (inner c)" if d: "evp_documented evp g view is_gcm"
  proof -
    have "evp_binds evp view is_gcm \<and> evp_inv view is_gcm (inner c0)"
      using evp_documentedD(2,4) [OF d] newctx_evp_inv [OF p(2,1)] by blast
    moreover obtain calls where "inner c = run_steps (inner_step (g301_evp_inner_ops evp)) (inner c0) calls"
      using run_reaches [OF g0 p(3), of api] o p(4) by (auto simp: inner_reaches_def)
    ultimately show ?thesis
      using adapter.run_inv [of evp view is_gcm "inner c0" calls] by (auto simp: list_all_iff)
  qed
qed

lemma provider_context_run:
  assumes "provider_context api evp c" "list_all call_ok es"
  shows "provider_context api evp (run_steps (cipher_step api) c es)"
proof -
  obtain aenv p l c0 l' fs where p: "inner_ops p = Some (g301_evp_inner_ops evp)"
      "g301_cipher_newctx aenv (Some p) l = (Some c0, l')" "list_all call_ok fs"
      "c = run_steps (cipher_step api) c0 fs"
    using assms(1) unfolding provider_context_def by blast
  have "list_all call_ok (fs @ es)"
      "run_steps (cipher_step api) c es = run_steps (cipher_step api) c0 (fs @ es)"
    using p(3) assms(2) by (simp_all add: p(4) run_steps_append)
  then show ?thesis using p(1,2) unfolding provider_context_def by blast
qed

section \<open>A context to compute with\<close>

text \<open>A provider on the consistent EVP interface above, and a context that it made.\<close>

definition ref_provider :: "(string, (string, evp_view) G301_EVP_INNER_CTX, nat) G301_PROVIDER_CTX" where
  "ref_provider =
    \<lparr>child_libctx = Some ''child'', inner_ops = Some (g301_evp_inner_ops (ref_evp toy_gcm)),
     inner_arg = ''child'', prov_handle = 0, prov_core_new_error = Some (\<lambda>_. 0),
     prov_core_set_error_debug = Some (\<lambda>h. h), prov_core_vset_error = Some (\<lambda>_ reason. reason)\<rparr>"

definition ref_ctx :: "(string, (string, evp_view) G301_EVP_INNER_CTX, nat) G301_CIPHER_CTX" where
  "ref_ctx = the (fst (g301_cipher_newctx ready_alloc (Some ref_provider) {#}))"

lemma ref_documented [simp]: "evp_documented (ref_evp toy_gcm) toy_gcm id names_gcm"
  by (rule ref_evp_documented [OF toy_gcm_documented])

lemma ref_newctx:
  "\<exists>l'. g301_cipher_newctx ready_alloc (Some ref_provider) {#} = (Some ref_ctx, l')"
proof -
  have "fst (g301_cipher_newctx ready_alloc (Some ref_provider) {#}) \<noteq> None"
    by (simp add: g301_cipher_newctx_def ready_alloc_def ref_provider_def
        g301_evp_inner_ops_def evp_newctx_cases ref_evp_def)
  then show ?thesis by (simp add: ref_ctx_def) (metis option.collapse prod.collapse)
qed

lemma ref_provider_context [simp]: "provider_context api (ref_evp toy_gcm) ref_ctx"
proof -
  have "inner_ops ref_provider = Some (g301_evp_inner_ops (ref_evp toy_gcm))"
    by (simp add: ref_provider_def)
  moreover have "list_all call_ok []" "ref_ctx = run_steps (cipher_step api) ref_ctx []" by simp_all
  ultimately show ?thesis using ref_newctx unfolding provider_context_def by blast
qed

lemma ref_ctx_fresh [simp]: "\<not> usage_key_valid ref_ctx"
  using ref_newctx newctx_fields(8) by blast

lemma ref_budget [simp]: "budget_left ref_ctx k"
  by (simp add: budget_left_def)

lemma sample_lengths [simp]:
  "length key_a = 32" "length key_b = 32" "length iv_a = 12"
  "chunk_ok aad" "chunk_ok payload"
  by (simp_all add: key_a_def key_b_def iv_a_def aad_def payload_def chunk_ok_def)

lemma sample_fits [simp]:
  "length a \<le> 1000 \<Longrightarrow> length p \<le> 1000 \<Longrightarrow> gcm_fits (g301_manifest @ a) p"
  by (simp add: gcm_fits_def GCM_MAX_AAD_def GCM_MAX_DATA_def)

lemma sample_sizes [simp]: "length aad = 5" "length payload = 4"
  by (simp_all add: aad_def payload_def)

end
