(* ===== verification/Record_Service.thy ===== *)
theory Record_Service
  imports Gcm_Contract
begin

text \<open>
  What G301 gives to its callers over whole records: a record sealed by one context opens in
  another, records that were not sealed under the manifest are refused, and a fresh key comes
  with its full budget of records, whatever happened to the context before. All of it is about
  contexts that the provider made over the EVP adapter, with the documented behaviour of the
  EVP functions as hypothesis.
\<close>

section \<open>Sealing and opening\<close>

lemma chunk_ok_manifest [simp]: "chunk_ok g301_manifest"
  by (simp add: chunk_ok_def) (simp add: g301_manifest_def)







section \<open>The calls of a record\<close>





















section \<open>The budget is usable\<close>





section \<open>Witnesses\<close>




end
