(* ===== verification/Test_Hooks.thy ===== *)
theory Test_Hooks
  imports Write_Key_Budget
begin

text \<open>
  The functions of test builds (\<open>G301_TESTING\<close>) at the end of g301_cipher.c, by which
  tests/test_state_machine.c drives a context directly, and the record limit for the
  values that the tests set.
\<close>

section \<open>The hooks\<close>

definition g301_test_cipher_newctx ::
  "alloc_env \<Rightarrow> ('a, 'i, 'h) G301_PROVIDER_CTX option \<Rightarrow> ledger
   \<Rightarrow> ('a, 'i, 'h) G301_CIPHER_CTX option \<times> ledger" where
  "g301_test_cipher_newctx aenv provctx l = g301_cipher_newctx aenv provctx l"

definition g301_test_cipher_freectx ::
  "('a, 'i, 'h) G301_CIPHER_CTX option \<Rightarrow> ledger \<Rightarrow> ledger" where
  "g301_test_cipher_freectx vctx l = g301_cipher_freectx vctx l"

definition g301_test_cipher_encrypt_init ::
  "ossl_param_api \<Rightarrow> crypto_env \<Rightarrow> ('a, 'i, 'h) G301_CIPHER_CTX option \<Rightarrow> bytes option \<Rightarrow> size
   \<Rightarrow> bytes option \<Rightarrow> size \<Rightarrow> ossl_params option
   \<Rightarrow> bool \<times> ('a, 'i, 'h) G301_CIPHER_CTX option" where
  "g301_test_cipher_encrypt_init api env vctx k keylen iv ivlen params =
     g301_cipher_encrypt_init api env vctx k keylen iv ivlen params"

definition g301_test_cipher_decrypt_init ::
  "ossl_param_api \<Rightarrow> crypto_env \<Rightarrow> ('a, 'i, 'h) G301_CIPHER_CTX option \<Rightarrow> bytes option \<Rightarrow> size
   \<Rightarrow> bytes option \<Rightarrow> size \<Rightarrow> ossl_params option
   \<Rightarrow> bool \<times> ('a, 'i, 'h) G301_CIPHER_CTX option" where
  "g301_test_cipher_decrypt_init api env vctx k keylen iv ivlen params =
     g301_cipher_decrypt_init api env vctx k keylen iv ivlen params"

definition g301_test_cipher_update ::
  "crypto_env \<Rightarrow> ('a, 'i, 'h) G301_CIPHER_CTX option \<Rightarrow> bytes option \<Rightarrow> size option \<Rightarrow> size
   \<Rightarrow> bytes option \<Rightarrow> size
   \<Rightarrow> bool \<times> ('a, 'i, 'h) G301_CIPHER_CTX option \<times> bytes option \<times> size option" where
  "g301_test_cipher_update env vctx out outl outsize in_buf inl =
     g301_cipher_update env vctx out outl outsize in_buf inl"

definition g301_test_cipher_final ::
  "crypto_env \<Rightarrow> ('a, 'i, 'h) G301_CIPHER_CTX option \<Rightarrow> bytes option \<Rightarrow> size option \<Rightarrow> size
   \<Rightarrow> bool \<times> ('a, 'i, 'h) G301_CIPHER_CTX option \<times> size option" where
  "g301_test_cipher_final env vctx out outl outsize = g301_cipher_final env vctx out outl outsize"

definition g301_test_cipher_get_ctx_params ::
  "ossl_param_api \<Rightarrow> ('a, 'i, 'h) G301_CIPHER_CTX option \<Rightarrow> ossl_params option
   \<Rightarrow> bool \<times> ('a, 'i, 'h) G301_CIPHER_CTX option \<times> ossl_params option" where
  "g301_test_cipher_get_ctx_params api vctx params = g301_cipher_get_ctx_params api vctx params"

definition g301_test_cipher_set_ctx_params ::
  "ossl_param_api \<Rightarrow> ('a, 'i, 'h) G301_CIPHER_CTX option \<Rightarrow> ossl_params option
   \<Rightarrow> bool \<times> ('a, 'i, 'h) G301_CIPHER_CTX option" where
  "g301_test_cipher_set_ctx_params api vctx params = g301_cipher_set_ctx_params api vctx params"

section \<open>Contexts driven by the hooks\<close>

definition hook_dispatch ::
  "ossl_param_api \<Rightarrow> ('a, 'i, 'h) G301_CIPHER_CTX \<Rightarrow> cipher_event
   \<Rightarrow> bool \<times> ('a, 'i, 'h) G301_CIPHER_CTX" where
  "hook_dispatch api c e =
     (case e of (env, call) \<Rightarrow>
      (case call of
         Encrypt_init k keylen iv ivlen params \<Rightarrow>
           map_prod id the (g301_test_cipher_encrypt_init api env (Some c) k keylen iv ivlen params)
       | Decrypt_init k keylen iv ivlen params \<Rightarrow>
           map_prod id the (g301_test_cipher_decrypt_init api env (Some c) k keylen iv ivlen params)
       | Update out outl outsize in_buf inl \<Rightarrow>
           map_prod id (\<lambda>(vc, _). the vc)
             (g301_test_cipher_update env (Some c) out outl outsize in_buf inl)
       | Final out outl outsize \<Rightarrow>
           map_prod id (\<lambda>(vc, _). the vc) (g301_test_cipher_final env (Some c) out outl outsize)
       | Get_ctx_params params \<Rightarrow>
           map_prod id (\<lambda>(vc, _). the vc) (g301_test_cipher_get_ctx_params api (Some c) params)
       | Set_ctx_params params \<Rightarrow>
           map_prod id the (g301_test_cipher_set_ctx_params api (Some c) params)))"

definition hook_step ::
  "ossl_param_api \<Rightarrow> ('a, 'i, 'h) G301_CIPHER_CTX \<Rightarrow> cipher_event \<Rightarrow> ('a, 'i, 'h) G301_CIPHER_CTX" where
  "hook_step api c e = snd (hook_dispatch api c e)"

lemma hook_step_eq: "hook_step api = cipher_step api"
proof (intro ext)
  fix c :: "('a, 'b, 'c) G301_CIPHER_CTX" and e
  show "hook_step api c e = cipher_step api c e"
    by (cases e; cases "snd e")
       (simp_all add: hook_step_def cipher_step_def hook_dispatch_def cipher_dispatch_def
          g301_test_cipher_encrypt_init_def g301_test_cipher_decrypt_init_def
          g301_test_cipher_update_def g301_test_cipher_final_def
          g301_test_cipher_get_ctx_params_def g301_test_cipher_set_ctx_params_def)
qed

lemma set_limit_good:
  assumes "good c" "\<not> usage_exhausted c" "encrypted_records c = 0"
    and "g301_test_cipher_set_record_limit (Some c) limit = (True, Some d)" "uint limit < INT_MAX"
  shows "good d" "sint (record_limit d) = uint limit"
proof -
  have d: "d = c\<lparr>record_limit := ucast limit\<rparr>" "limit \<noteq> 0"
    using assms(4) by (auto simp: g301_test_cipher_set_record_limit_def split: if_splits)
  show l: "sint (record_limit d) = uint limit"
    using sint_ucast_size [of limit] assms(5) by (simp add: d)
  have "0 < uint limit" using d(2) by (simp add: uint_0_iff less_le)
  then show "good d"
    using assms(1-3,5) l by (simp add: d wf_defs usage_wf_def)
qed

text \<open>
  C36: whatever limit a test build sets. With any limit the hook accepts below \<open>INT_MAX\<close>, a
  context driven through the hooks starts at most that many encryption records under one
  installed write key, over any calls.
\<close>

theorem configured_limit_enforced:
  assumes "g301_test_cipher_newctx aenv (Some p) l = (Some c, l')"
    and "g301_test_cipher_set_record_limit (Some c) limit = (True, Some d)" "uint limit < INT_MAX"
    and "list_all call_ok (pre @ es)" "one_install api (run_steps (hook_step api) d pre) es"
  shows "records_started api (run_steps (hook_step api) d pre) es \<le> uint limit"
proof -
  have new: "g301_cipher_newctx aenv (Some p) l = (Some c, l')"
    using assms(1) by (simp add: g301_test_cipher_newctx_def)
  note d = set_limit_good [OF newctx_good [OF new] newctx_fields(9,10) [OF new] assms(2,3)]
  let ?d = "run_steps (cipher_step api) d pre"
  have g: "good ?d" using good_steps.run_inv [OF d(1)] assms(4) by simp
  have "records_started api ?d es \<le> sint (record_limit ?d) - usage_rank ?d"
    using started_le_remaining [OF g] assms(4,5) unfolding hook_step_eq by simp
  moreover have "0 \<le> usage_rank ?d" using usage_rank_nonneg g by blast
  ultimately show ?thesis using d(2) unfolding hook_step_eq by simp
qed

theorem configured_limit_enforced_witness:
  "\<exists>d. g301_test_cipher_set_record_limit (Some sample_ctx) 1 = (True, Some d)
     \<and> records_started libcrypto_params (run_steps (hook_step libcrypto_params) d [begin_encrypt key_a])
         [finish_record, begin_encrypt key_a, finish_record] \<le> 1"
proof -
  let ?s = "g301_test_cipher_set_record_limit (Some sample_ctx) 1"
  obtain d where s: "?s = (True, Some d)"
    by (simp add: g301_test_cipher_set_record_limit_def)
  have d: "d = the (snd (g301_test_cipher_set_record_limit (Some sample_ctx) 1))" using s by simp
  have n: "g301_test_cipher_newctx ready_alloc (Some sample_provider) {#}
      = (Some sample_ctx, {# R_inner_ctx, R_usage_lock, R_outer_ctx #})"
    using sample_newctx by (simp add: g301_test_cipher_newctx_def)
  have one: "one_install libcrypto_params
      (run_steps (hook_step libcrypto_params) d [begin_encrypt key_a])
      [finish_record, begin_encrypt key_a, finish_record]"
    unfolding d by code_simp
  show ?thesis
    using configured_limit_enforced [OF n s _ _ one] s by simp
qed

end
